theory Spec2Isabelle
  imports Complex_Main "HOL-Library.AList"
begin

section \<open>JavaScript values used by the front end\<close>

text \<open>
  A plain JavaScript object used as a dictionary is modelled by the association list of
  its own enumerable string-keyed properties, in insertion order (\<open>AList.update\<close>
  overwrites in place or appends, as property assignment does; \<open>AList.delete\<close> is the
  \<^verbatim>\<open>delete\<close> operator). Integer-like keys, which JavaScript enumerates first, are listed
  in insertion order here as well; no definition below depends on the enumeration order
  beyond the set of keys.

  A property read \<^verbatim>\<open>obj[k]\<close> on such an object also sees the members the object inherits
  from \<^verbatim>\<open>Object.prototype\<close>: for these names the read yields a function (or, for
  \<^verbatim>\<open>__proto__\<close>, the prototype object), which is truthy and is not an array.
\<close>

type_synonym 'v js_object = "(string \<times> 'v) list"

definition object_prototype_keys :: "string list" where
  "object_prototype_keys =
     [''constructor'', ''__defineGetter__'', ''__defineSetter__'', ''hasOwnProperty'',
      ''__lookupGetter__'', ''__lookupSetter__'', ''isPrototypeOf'',
      ''propertyIsEnumerable'', ''toString'', ''valueOf'', ''__proto__'',
      ''toLocaleString'']"

datatype 'v js_lookup = Own 'v | Inherited | Undefined

definition js_get :: "'v js_object \<Rightarrow> string \<Rightarrow> 'v js_lookup" where
  "js_get obj k =
     (case map_of obj k of
        Some v \<Rightarrow> Own v
      | None \<Rightarrow> if k \<in> set object_prototype_keys then Inherited else Undefined)"

text \<open>Truthiness of \<^verbatim>\<open>obj[k]\<close> when every own value is an array or an object.\<close>

definition js_truthy :: "'v js_lookup \<Rightarrow> bool" where
  "js_truthy r = (case r of Undefined \<Rightarrow> False | _ \<Rightarrow> True)"

definition object_keys :: "'v js_object \<Rightarrow> string list" where
  "object_keys obj = map fst obj"

text \<open>
  \<^verbatim>\<open>String.prototype.trim\<close>. A character of the model is a code unit below 256; among
  these JavaScript strips tab, line feed, vertical tab, form feed, carriage return, space
  and the no-break space. The white space above that range (U+1680, U+2000 to U+200A,
  U+2028, U+2029, U+202F, U+205F, U+3000, U+FEFF) cannot occur in a text of the model.
\<close>

definition is_ws :: "char \<Rightarrow> bool" where
  "is_ws c =
     (c \<in> set [CHR 0x09, CHR 0x0A, CHR 0x0B, CHR 0x0C, CHR 0x0D, CHR 0x20, CHR 0xA0])"

definition trim :: "string \<Rightarrow> string" where
  "trim s = rev (dropWhile is_ws (rev (dropWhile is_ws s)))"

text \<open>A template literal prints a missing value as the text \<^verbatim>\<open>undefined\<close>.\<close>

definition template_str :: "string option \<Rightarrow> string" where
  "template_str v = (case v of None \<Rightarrow> ''undefined'' | Some s \<Rightarrow> s)"

section \<open>Schedule entries and the configuration document\<close>

text \<open>
  One entry of a solver response (\<^verbatim>\<open>timetableData.timetable[i]\<close>). The optional fields are
  absent (\<open>None\<close>) unless the solver sent them.
\<close>

record schedule_entry =
  e_section :: string
  e_day :: string
  e_slot :: string
  e_subject :: string
  e_teacher :: string
  e_room :: string
  e_group :: "string option"
  e_moved :: "bool option"
  e_moved_from :: "string option"

text \<open>
  The configuration held by \<^verbatim>\<open>TimetableApp\<close> (\<^verbatim>\<open>inputData\<close>) is whatever JSON document was
  loaded or imported: each field may be absent. The model covers documents whose present
  fields have the types of the form's configuration.
\<close>

record section_doc =
  sd_name :: "string option"
  sd_student_count :: "int option"

record class_doc =
  cd_name :: "string option"
  cd_subjects :: "string list option"
  cd_lab_subjects :: "string list option"
  cd_sections :: "section_doc list option"

record constraints_doc =
  kd_max_lectures_per_day_teacher :: "int option"
  kd_max_lectures_per_subject_per_day :: "int option"
  kd_min_lectures_per_day_section :: "int option"
  kd_max_lectures_per_day_section :: "int option"
  kd_lab_session_duration :: "int option"
  kd_distribute_across_week :: "bool option"

text \<open>
  \<open>d_unknown_fields\<close> holds every other field of the document, by name, with its JSON text.
\<close>

record config_doc =
  d_classes :: "class_doc list option"
  d_rooms :: "string list option"
  d_labs :: "string list option"
  d_lab_rooms :: "string list js_object option"
  d_days :: "string list option"
  d_slots :: "string list option"
  d_teachers :: "string list js_object option"
  d_lab_teachers :: "string list js_object option"
  d_teacher_unavailability :: "(string \<times> string) list js_object option"
  d_lecture_requirements :: "int js_object option"
  d_lab_capacity :: "int option"
  d_constraints :: "constraints_doc option"
  d_unknown_fields :: "string js_object"

section \<open>TimetableDisplay: grouping and cell classification\<close>

text \<open>
  \<^verbatim>\<open>groupedData\<close>: the \<^verbatim>\<open>reduce\<close> over the entries, building section, day and slot levels on
  demand and appending the entry to its cell. The model covers section, day and slot names
  that are not names of \<^verbatim>\<open>Object.prototype\<close> members.
\<close>

type_synonym grouped = "schedule_entry list js_object js_object js_object"

definition own_or :: "'v \<Rightarrow> 'v js_object \<Rightarrow> string \<Rightarrow> 'v" where
  "own_or d obj k = (case map_of obj k of None \<Rightarrow> d | Some v \<Rightarrow> v)"

definition group_step :: "grouped \<Rightarrow> schedule_entry \<Rightarrow> grouped" where
  "group_step acc item =
     (let acc1 = (if map_of acc (e_section item) = None
                  then AList.update (e_section item) [] acc else acc);
          days = own_or [] acc1 (e_section item);
          days1 = (if map_of days (e_day item) = None
                   then AList.update (e_day item) [] days else days);
          slots = own_or [] days1 (e_day item);
          slots1 = (if map_of slots (e_slot item) = None
                    then AList.update (e_slot item) [] slots else slots);
          slots2 = AList.update (e_slot item) (own_or [] slots1 (e_slot item) @ [item]) slots1
      in AList.update (e_section item) (AList.update (e_day item) slots2 days1) acc1)"

definition groupedData :: "schedule_entry list \<Rightarrow> grouped" where
  "groupedData timetable = foldl group_step [] timetable"

text \<open>\<^verbatim>\<open>groupedData[section]?.[day]?.[slot] || []\<close>\<close>

definition slotItems :: "grouped \<Rightarrow> string \<Rightarrow> string \<Rightarrow> string \<Rightarrow> schedule_entry list" where
  "slotItems g sec day slot =
     (case map_of g sec of
        None \<Rightarrow> []
      | Some days \<Rightarrow>
          (case map_of days day of
             None \<Rightarrow> []
           | Some slots \<Rightarrow> own_or [] slots slot))"

text \<open>
  \<^verbatim>\<open>getSectionLabSubjects\<close>: the lab subjects of the first class one of whose full section
  names is the given name; a section with an empty or missing name is named by the class
  alone.
\<close>

definition fullSectionNames :: "class_doc \<Rightarrow> string option list" where
  "fullSectionNames classInfo =
     (case cd_sections classInfo of
        None \<Rightarrow> []
      | Some secs \<Rightarrow>
          map (\<lambda>s. case sd_name s of
                      None \<Rightarrow> cd_name classInfo
                    | Some n \<Rightarrow>
                        if n = [] then cd_name classInfo
                        else Some (template_str (cd_name classInfo) @ '' - '' @ n))
              secs)"

fun section_lab_subjects_loop :: "class_doc list \<Rightarrow> string \<Rightarrow> string list" where
  "section_lab_subjects_loop [] sectionName = []"
| "section_lab_subjects_loop (classInfo # rest) sectionName =
     (if Some sectionName \<in> set (fullSectionNames classInfo)
      then (case cd_lab_subjects classInfo of None \<Rightarrow> [] | Some ls \<Rightarrow> ls)
      else section_lab_subjects_loop rest sectionName)"

definition getSectionLabSubjects :: "config_doc \<Rightarrow> string \<Rightarrow> string list" where
  "getSectionLabSubjects inputData sectionName =
     section_lab_subjects_loop
       (case d_classes inputData of None \<Rightarrow> [] | Some cs \<Rightarrow> cs) sectionName"

text \<open>
  \<^verbatim>\<open>renderCell\<close>: what the cell shows. The lunch marker is decided by the slot name alone,
  before the entries are looked at; an entry cell lists its lab entries, then its theory
  entries, then its workshop entries, each computed by its own \<^verbatim>\<open>filter\<close>.
\<close>

datatype cell =
  LunchCell
  | EmptyCell
  | EntriesCell (cell_labs: "schedule_entry list") (cell_nonLabs: "schedule_entry list")
      (cell_workshops: "schedule_entry list") (cell_moved: bool)

definition labs_of :: "string list \<Rightarrow> schedule_entry list \<Rightarrow> schedule_entry list" where
  "labs_of sectionLabSubjects items =
     filter (\<lambda>item. e_subject item \<in> set sectionLabSubjects) items"

definition nonLabs_of :: "string list \<Rightarrow> schedule_entry list \<Rightarrow> schedule_entry list" where
  "nonLabs_of sectionLabSubjects items =
     filter (\<lambda>item. e_subject item \<notin> set sectionLabSubjects \<and> e_subject item \<noteq> ''Workshop'')
       items"

definition workshops_of :: "schedule_entry list \<Rightarrow> schedule_entry list" where
  "workshops_of items = filter (\<lambda>item. e_subject item = ''Workshop'') items"

definition renderCell :: "config_doc \<Rightarrow> grouped \<Rightarrow> string \<Rightarrow> string \<Rightarrow> string \<Rightarrow> cell" where
  "renderCell inputData g sec day slot =
     (let items = slotItems g sec day slot in
      if slot = ''Lunch Break'' then LunchCell
      else if length items = 0 then EmptyCell
      else
        (let sectionLabSubjects = getSectionLabSubjects inputData sec in
         EntriesCell (labs_of sectionLabSubjects items)
           (nonLabs_of sectionLabSubjects items)
           (workshops_of items)
           (list_ex (\<lambda>item. e_moved item = Some True) items)))"

section \<open>services/api: the solver boundary\<close>

text \<open>Decimal text of a number, as a template literal prints it.\<close>

definition digit_char :: "nat \<Rightarrow> char" where
  "digit_char d = ''0123456789'' ! d"

function show_nat :: "nat \<Rightarrow> string" where
  "show_nat n = (if n < 10 then [digit_char n] else show_nat (n div 10) @ [digit_char (n mod 10)])"
  by pat_completeness auto
termination
  by (relation "measure (\<lambda>n. n)") auto

declare show_nat.simps [simp del]

text \<open>
  The JSON body of a solver response. Statistics and unfulfilled counts are passed through
  unread by the code modelled here; their numbers are integers in the model.
\<close>

record timetable_data =
  td_timetable :: "schedule_entry list option"
  td_statistics :: "int js_object option"
  td_unfulfilled :: "int js_object js_object option"
  td_validation_warnings :: "string list option"
  td_error :: "string option"

text \<open>
  What one \<^verbatim>\<open>fetch\<close> round trip gives: the promise rejects with a message, or a response
  arrives with its \<^verbatim>\<open>ok\<close> flag, status, status text and body. The body is \<open>Inl msg\<close> when
  \<^verbatim>\<open>response.json()\<close> rejects or yields a value whose \<^verbatim>\<open>error\<close> field cannot be read.
\<close>

datatype fetch_outcome =
  FetchRejected string
  | HttpResponse bool nat string "string + timetable_data"

text \<open>
  The body shared by \<^verbatim>\<open>generateTimetable\<close> and \<^verbatim>\<open>resetTeacher\<close> after the \<^verbatim>\<open>fetch\<close>: \<open>Inl\<close> is the
  message of the error thrown, \<open>Inr\<close> the data returned. An \<^verbatim>\<open>error\<close> field counts when it
  is truthy, that is a non-empty text.
\<close>

definition read_response :: "fetch_outcome \<Rightarrow> string + timetable_data" where
  "read_response r =
     (case r of
        FetchRejected msg \<Rightarrow> Inl msg
      | HttpResponse ok status statusText body \<Rightarrow>
          if \<not> ok then Inl (''HTTP '' @ show_nat status @ '': '' @ statusText)
          else
            (case body of
               Inl msg \<Rightarrow> Inl msg
             | Inr data \<Rightarrow>
                 (case td_error data of
                    None \<Rightarrow> Inr data
                  | Some e \<Rightarrow> if e \<noteq> [] then Inl e else Inr data)))"

record generate_request =
  rq_inputData :: config_doc
  rq_generation_seed :: real
  rq_variation :: nat

record reset_request =
  rr_teacher :: string
  rr_day :: string
  rr_slot :: string
  rr_inputData :: "config_doc option"
  rr_timetable :: "schedule_entry list option"

text \<open>
  The world outside the browser: how the solver answers a generation or a reset request,
  how long the \<open>i\<close>-th round trip of a batch takes (in milliseconds), and the \<open>i\<close>-th
  draw of \<^verbatim>\<open>Math.random()\<close>.
\<close>

record solver_env =
  respond :: "generate_request \<Rightarrow> fetch_outcome"
  respond_reset :: "reset_request \<Rightarrow> fetch_outcome"
  latency :: "nat \<Rightarrow> nat"
  random :: "nat \<Rightarrow> real"

definition generateTimetable :: "solver_env \<Rightarrow> generate_request \<Rightarrow> string + timetable_data" where
  "generateTimetable env inputData = read_response (respond env inputData)"

definition resetTeacher ::
  "solver_env \<Rightarrow> config_doc option \<Rightarrow> schedule_entry list option \<Rightarrow> string \<Rightarrow> string \<Rightarrow> string
     \<Rightarrow> string + timetable_data" where
  "resetTeacher env inputData timetable teacher day slot =
     read_response (respond_reset env
       \<lparr>rr_teacher = teacher, rr_day = day, rr_slot = slot,
        rr_inputData = inputData, rr_timetable = timetable\<rparr>)"

text \<open>
  A generated variant. \<open>generated_at\<close> is the instant (milliseconds on the batch's clock)
  whose ISO text the code stores.
\<close>

record variant =
  v_id :: nat
  v_name :: string
  v_data :: timetable_data
  generated_at :: nat

record variation_error =
  ve_variation :: nat
  ve_error :: string

record batch =
  clock :: nat
  results :: "variant list"
  errors :: "variation_error list"

text \<open>
  \<^verbatim>\<open>generateMultipleTimetables\<close>: the body of the \<^verbatim>\<open>for\<close> loop for index \<open>i\<close>, and the loop. Each
  request is awaited before the next one is issued; a success is followed by a pause of
  100 ms unless it is the last index.
\<close>

definition variation_request :: "solver_env \<Rightarrow> config_doc \<Rightarrow> nat \<Rightarrow> generate_request" where
  "variation_request env inputData i =
     \<lparr>rq_inputData = inputData, rq_generation_seed = random env i * 1000, rq_variation = i + 1\<rparr>"

definition generate_body :: "solver_env \<Rightarrow> config_doc \<Rightarrow> nat \<Rightarrow> nat \<Rightarrow> batch \<Rightarrow> batch" where
  "generate_body env inputData count i b =
     (let done = clock b + latency env i in
      case generateTimetable env (variation_request env inputData i) of
        Inr result \<Rightarrow>
          b\<lparr>results := results b @
               [\<lparr>v_id = i + 1, v_name = ''Version '' @ show_nat (i + 1), v_data = result,
                 generated_at = done\<rparr>],
            clock := (if i < count - 1 then done + 100 else done)\<rparr>
      | Inl message \<Rightarrow>
          b\<lparr>errors := errors b @ [\<lparr>ve_variation = i + 1, ve_error = message\<rparr>],
            clock := done\<rparr>)"

function generate_loop :: "solver_env \<Rightarrow> config_doc \<Rightarrow> nat \<Rightarrow> nat \<Rightarrow> batch \<Rightarrow> batch" where
  "generate_loop env inputData count i b =
     (if i < count then generate_loop env inputData count (i + 1) (generate_body env inputData count i b)
      else b)"
  by pat_completeness auto
termination
  by (relation "measure (\<lambda>(env, inputData, count, i, b). count - i)") auto

declare generate_loop.simps [simp del]

text \<open>How the request of index \<open>i\<close> of a batch ends.\<close>

definition request_succeeds :: "solver_env \<Rightarrow> config_doc \<Rightarrow> nat \<Rightarrow> bool" where
  "request_succeeds env inputData i =
     (case generateTimetable env (variation_request env inputData i) of
        Inr result \<Rightarrow> True | Inl message \<Rightarrow> False)"

definition failure_message :: "solver_env \<Rightarrow> config_doc \<Rightarrow> nat \<Rightarrow> string" where
  "failure_message env inputData i =
     (case generateTimetable env (variation_request env inputData i) of
        Inr result \<Rightarrow> [] | Inl message \<Rightarrow> message)"

definition success_data :: "solver_env \<Rightarrow> config_doc \<Rightarrow> nat \<Rightarrow> timetable_data option" where
  "success_data env inputData i =
     (case generateTimetable env (variation_request env inputData i) of
        Inr result \<Rightarrow> Some result | Inl message \<Rightarrow> None)"

definition generateMultipleTimetables :: "solver_env \<Rightarrow> nat \<Rightarrow> config_doc \<Rightarrow> nat \<Rightarrow> batch" where
  "generateMultipleTimetables env start inputData count =
     generate_loop env inputData count 0 \<lparr>clock = start, results = [], errors = []\<rparr>"

section \<open>MultipleTimetableGenerator: the component as a state machine\<close>

text \<open>
  The component's React state, together with the asynchronous operations that are
  awaiting the solver. An operation that is waiting keeps the values its closure captured
  when the handler started: the props and state of the render the handler belongs to.
\<close>

datatype pending_op =
  PendingGenerate config_doc nat
  | PendingReset "config_doc option" "variant list" nat variant string string string

record generator_state =
  timetables :: "variant list"
  currentTimetable :: nat
  loading :: bool
  error :: "string option"
  generationCount :: nat
  pending :: "pending_op list"

definition initial_generator :: generator_state where
  "initial_generator =
     \<lparr>timetables = [], currentTimetable = 0, loading = False, error = None,
      generationCount = 3, pending = []\<rparr>"

text \<open>
  \<^verbatim>\<open>generateMultipleTimetables\<close> of the component, up to its \<^verbatim>\<open>await\<close>: without input data it
  reports an error and returns; otherwise it raises the loading flag, clears the error and
  the list, and the batch is outstanding.
\<close>

definition start_generate :: "config_doc option \<Rightarrow> generator_state \<Rightarrow> generator_state" where
  "start_generate inputData st =
     (case inputData of
        None \<Rightarrow> st\<lparr>error := Some ''No input data provided''\<rparr>
      | Some cfg \<Rightarrow>
          st\<lparr>loading := True, error := None, timetables := [],
             pending := pending st @ [PendingGenerate cfg (generationCount st)]\<rparr>)"

text \<open>
  The rest of it, when the batch has come back: no result at all is the error
  \<^verbatim>\<open>No timetables could be generated\<close>; otherwise the results are stored and the first is
  selected (the per-variation errors are only logged). The \<^verbatim>\<open>finally\<close> lowers the flag.
\<close>

definition finish_generate :: "batch \<Rightarrow> generator_state \<Rightarrow> generator_state" where
  "finish_generate b st =
     (if length (results b) = 0
      then st\<lparr>error := Some ''No timetables could be generated'', loading := False\<rparr>
      else st\<lparr>timetables := results b, currentTimetable := 0, loading := False\<rparr>)"

text \<open>
  \<^verbatim>\<open>handleResetTeacher\<close> up to its \<^verbatim>\<open>await\<close>: nothing happens on an empty list or when no
  variant is selected; otherwise the flag is raised and the request is outstanding.
\<close>

definition start_reset ::
  "config_doc option \<Rightarrow> generator_state \<Rightarrow> string \<Rightarrow> string \<Rightarrow> string \<Rightarrow> generator_state" where
  "start_reset inputData st teacher day slot =
     (if length (timetables st) = 0 then st
      else if \<not> currentTimetable st < length (timetables st) then st
      else
        st\<lparr>loading := True,
           pending := pending st @
             [PendingReset inputData (timetables st) (currentTimetable st)
                (timetables st ! currentTimetable st) teacher day slot]\<rparr>)"

text \<open>
  The variant update block: a copy of the captured list in which the captured index holds
  the captured variant with the returned entries and the suffixed name.
\<close>

definition updated_variant :: "variant \<Rightarrow> timetable_data \<Rightarrow> variant" where
  "updated_variant currentTimetableData resetResult =
     currentTimetableData
       \<lparr>v_data := (v_data currentTimetableData)\<lparr>td_timetable := td_timetable resetResult\<rparr>,
        v_name := v_name currentTimetableData @ '' (Modified)''\<rparr>"

definition finish_reset ::
  "variant list \<Rightarrow> nat \<Rightarrow> variant \<Rightarrow> string + timetable_data \<Rightarrow> generator_state
     \<Rightarrow> generator_state" where
  "finish_reset captured index currentTimetableData outcome st =
     (case outcome of
        Inr resetResult \<Rightarrow>
          st\<lparr>timetables := captured[index := updated_variant currentTimetableData resetResult],
             loading := False\<rparr>
      | Inl message \<Rightarrow>
          st\<lparr>error := Some (''Failed to reset teacher: '' @ message), loading := False\<rparr>)"

text \<open>
  What the user and the network can do. A click on the generate button reaches the
  handler only while the button is not disabled; a teacher can be clicked where the
  display shows it: in a lab or theory entry of a cell of the selected variant's table.
  A completion names the outstanding operation that comes back, and the world it ran in.
\<close>

datatype generator_event =
  ClickGenerate
  | SelectCount nat
  | SelectTab nat
  | ClickTeacher string string string
  | Completes nat solver_env nat

definition generate_disabled :: "config_doc option \<Rightarrow> generator_state \<Rightarrow> bool" where
  "generate_disabled inputData st = (loading st \<or> inputData = None)"

definition cell_offers_teacher :: "cell \<Rightarrow> string \<Rightarrow> bool" where
  "cell_offers_teacher c teacher =
     (case c of
        EntriesCell labs nonLabs workshops moved \<Rightarrow>
          list_ex (\<lambda>item. e_teacher item = teacher) (labs @ nonLabs)
      | _ \<Rightarrow> False)"

definition teacher_shown ::
  "config_doc option \<Rightarrow> generator_state \<Rightarrow> string \<Rightarrow> string \<Rightarrow> string \<Rightarrow> bool" where
  "teacher_shown inputData st teacher day slot =
     (case inputData of
        None \<Rightarrow> False
      | Some cfg \<Rightarrow>
          currentTimetable st < length (timetables st) \<and>
          (case td_timetable (v_data (timetables st ! currentTimetable st)) of
             None \<Rightarrow> False
           | Some entries \<Rightarrow>
               day \<in> set (case d_days cfg of None \<Rightarrow> [] | Some ds \<Rightarrow> ds) \<and>
               slot \<in> set (case d_slots cfg of None \<Rightarrow> [] | Some ss \<Rightarrow> ss) \<and>
               list_ex (\<lambda>sec. cell_offers_teacher
                                (renderCell cfg (groupedData entries) sec day slot) teacher)
                 (object_keys (groupedData entries))))"

text \<open>
  One step of the component under the props \<open>inputData\<close>; \<open>None\<close> when the event cannot
  happen in the state (the control is disabled or not shown, or no such operation is
  outstanding).
\<close>

definition remove_nth :: "nat \<Rightarrow> 'a list \<Rightarrow> 'a list" where
  "remove_nth k xs = take k xs @ drop (k + 1) xs"

definition generator_step ::
  "config_doc option \<Rightarrow> generator_state \<Rightarrow> generator_event \<Rightarrow> generator_state option" where
  "generator_step inputData st ev =
     (case ev of
        ClickGenerate \<Rightarrow>
          if generate_disabled inputData st then None else Some (start_generate inputData st)
      | SelectCount n \<Rightarrow>
          if loading st \<or> n \<notin> set [2, 3, 4, 5] then None else Some (st\<lparr>generationCount := n\<rparr>)
      | SelectTab index \<Rightarrow>
          if index < length (timetables st) then Some (st\<lparr>currentTimetable := index\<rparr>) else None
      | ClickTeacher teacher day slot \<Rightarrow>
          if teacher_shown inputData st teacher day slot
          then Some (start_reset inputData st teacher day slot) else None
      | Completes k env start \<Rightarrow>
          if \<not> k < length (pending st) then None
          else
            (case pending st ! k of
               PendingGenerate cfg count \<Rightarrow>
                 Some (finish_generate (generateMultipleTimetables env start cfg count)
                         (st\<lparr>pending := remove_nth k (pending st)\<rparr>))
             | PendingReset cfg captured index currentTimetableData teacher day slot \<Rightarrow>
                 Some (finish_reset captured index currentTimetableData
                         (resetTeacher env cfg
                            (td_timetable (v_data currentTimetableData)) teacher day slot)
                         (st\<lparr>pending := remove_nth k (pending st)\<rparr>))))"

fun generator_run ::
  "config_doc option \<Rightarrow> generator_state \<Rightarrow> generator_event list \<Rightarrow> generator_state option" where
  "generator_run inputData st [] = Some st"
| "generator_run inputData st (ev # evs) =
     (case generator_step inputData st ev of
        None \<Rightarrow> None
      | Some st' \<Rightarrow> generator_run inputData st' evs)"

text \<open>
  What a waiting reset holds: the list of its render, an index into that list, and the
  variant at that index.
\<close>

definition captured_at_click :: "pending_op \<Rightarrow> bool" where
  "captured_at_click op =
     (case op of
        PendingGenerate cfg count \<Rightarrow> True
      | PendingReset cfg captured index currentTimetableData teacher day slot \<Rightarrow>
          index < length captured \<and> currentTimetableData = captured ! index)"

text \<open>The entries of the selected variant, as the display receives them.\<close>

definition selected_entries :: "generator_state option \<Rightarrow> schedule_entry list" where
  "selected_entries r =
     (case r of
        None \<Rightarrow> []
      | Some st \<Rightarrow>
          if currentTimetable st < length (timetables st)
          then (case td_timetable (v_data (timetables st ! currentTimetable st)) of
                  None \<Rightarrow> [] | Some entries \<Rightarrow> entries)
          else [])"

definition is_generate :: "pending_op \<Rightarrow> bool" where
  "is_generate op = (case op of PendingGenerate cfg count \<Rightarrow> True | _ \<Rightarrow> False)"

definition batches_in_flight :: "generator_state \<Rightarrow> nat" where
  "batches_in_flight st = length (filter is_generate (pending st))"

section \<open>TimetableInputForm: the configuration held by the form\<close>

text \<open>
  The arrays stored in the three derived maps carry an identity: \<open>oid\<close> is the serial
  number of the allocation that created the array. The form never changes such an array
  in place (every handler builds a new array with a spread, \<^verbatim>\<open>map\<close> or \<^verbatim>\<open>filter\<close>), so an
  identity determines its elements, and two map values are the same JavaScript object
  exactly when they have the same \<open>oid\<close>.
\<close>

record js_array =
  oid :: nat
  elems :: "string list"

record section_def =
  s_name :: string
  s_student_count :: int

record class_def =
  c_name :: string
  c_subjects :: "string list"
  c_lab_subjects :: "string list"
  c_sections :: "section_def list"

record unavailability =
  u_day :: string
  u_slot :: string

record constraints =
  max_lectures_per_day_teacher :: int
  max_lectures_per_subject_per_day :: int
  min_lectures_per_day_section :: int
  max_lectures_per_day_section :: int
  lab_session_duration :: int
  distribute_across_week :: bool

text \<open>
  The form's \<^verbatim>\<open>inputData\<close> state; \<open>next_oid\<close> counts the arrays allocated so far for the
  derived maps.
\<close>

record form_data =
  f_classes :: "class_def list"
  f_rooms :: "string list"
  f_labs :: "string list"
  f_lab_rooms :: "js_array js_object"
  f_days :: "string list"
  f_slots :: "string list"
  f_teachers :: "js_array js_object"
  f_lab_teachers :: "js_array js_object"
  f_teacher_unavailability :: "unavailability list js_object"
  f_lecture_requirements :: "int js_object"
  f_lab_capacity :: int
  f_constraints :: constraints
  next_oid :: nat

definition empty_class :: class_def where
  "empty_class =
     \<lparr>c_name = [], c_subjects = [], c_lab_subjects = [],
      c_sections = [\<lparr>s_name = [], s_student_count = 0\<rparr>]\<rparr>"

definition default_constraints :: constraints where
  "default_constraints =
     \<lparr>max_lectures_per_day_teacher = 5, max_lectures_per_subject_per_day = 2,
      min_lectures_per_day_section = 4, max_lectures_per_day_section = 6,
      lab_session_duration = 2, distribute_across_week = True\<rparr>"

definition default_days :: "string list" where
  "default_days = [''Monday'', ''Tuesday'', ''Wednesday'', ''Thursday'', ''Friday'']"

definition default_slots :: "string list" where
  "default_slots =
     [''9:00-9:55'', ''9:55-10:50'', ''10:50-11:45'', ''11:45-12:40'',
      ''Lunch Break'', ''2:00-2:55'', ''2:55-3:50'', ''3:50-4:45'']"

text \<open>The argument of \<^verbatim>\<open>useState\<close>.\<close>

definition initial_inputData :: form_data where
  "initial_inputData =
     \<lparr>f_classes = [empty_class], f_rooms = [], f_labs = [], f_lab_rooms = [],
      f_days = default_days, f_slots = default_slots,
      f_teachers = [], f_lab_teachers = [], f_teacher_unavailability = [],
      f_lecture_requirements = [], f_lab_capacity = 30,
      f_constraints = default_constraints, next_oid = 0\<rparr>"

subsection \<open>The canonical sets\<close>

text \<open>
  A JavaScript \<^verbatim>\<open>Set\<close> keeps the first insertion of each element, in insertion order;
  \<^verbatim>\<open>Array.from\<close> lists it in that order.
\<close>

definition set_add :: "string list \<Rightarrow> string \<Rightarrow> string list" where
  "set_add acc x = (if x \<in> set acc then acc else acc @ [x])"

definition getAllSubjects :: "form_data \<Rightarrow> string list" where
  "getAllSubjects inputData =
     filter (\<lambda>subject. trim subject \<noteq> [])
       (foldl (\<lambda>subjects classItem. foldl set_add subjects (c_subjects classItem))
          [] (f_classes inputData))"

definition getAllLabSubjects :: "form_data \<Rightarrow> string list" where
  "getAllLabSubjects inputData =
     filter (\<lambda>subject. trim subject \<noteq> [])
       (foldl (\<lambda>subjects classItem. foldl set_add subjects (c_lab_subjects classItem))
          [] (f_classes inputData))"

definition add_teacher_names :: "string list \<Rightarrow> string list \<Rightarrow> string list" where
  "add_teacher_names teachers teacherList =
     foldl (\<lambda>acc teacher. if trim teacher \<noteq> [] then set_add acc (trim teacher) else acc)
       teachers teacherList"

definition getAllTeachers :: "form_data \<Rightarrow> string list" where
  "getAllTeachers inputData =
     foldl add_teacher_names
       (foldl add_teacher_names [] (map (\<lambda>kv. elems (snd kv)) (f_teachers inputData)))
       (map (\<lambda>kv. elems (snd kv)) (f_lab_teachers inputData))"

subsection \<open>The synchronisation effect\<close>

text \<open>
  The updater passed to \<^verbatim>\<open>setInputData\<close> by the effect that depends on
  \<^verbatim>\<open>inputData.classes\<close>. The subject lists come from the render the effect belongs to, the
  maps from the state being updated; both are the same \<open>inputData\<close> here. The test
  \<^verbatim>\<open>!newTeachers[subject]\<close> reads through the prototype.
\<close>

definition add_missing_roster :: "string \<Rightarrow> nat \<times> js_array js_object \<Rightarrow> nat \<times> js_array js_object" where
  "add_missing_roster subject acc =
     (case acc of (n, newTeachers) \<Rightarrow>
        if \<not> js_truthy (js_get newTeachers subject)
        then (n + 1, AList.update subject \<lparr>oid = n, elems = [[]]\<rparr> newTeachers)
        else (n, newTeachers))"

definition add_missing_lab ::
  "string \<Rightarrow> nat \<times> js_array js_object \<times> js_array js_object
     \<Rightarrow> nat \<times> js_array js_object \<times> js_array js_object" where
  "add_missing_lab subject acc =
     (case acc of (n, newLabTeachers, newLabRooms) \<Rightarrow>
        (case add_missing_roster subject (n, newLabTeachers) of (n1, newLabTeachers1) \<Rightarrow>
           if \<not> js_truthy (js_get newLabRooms subject)
           then (n1 + 1, newLabTeachers1, AList.update subject \<lparr>oid = n1, elems = []\<rparr> newLabRooms)
           else (n1, newLabTeachers1, newLabRooms)))"

definition remove_stale :: "string list \<Rightarrow> 'v js_object \<Rightarrow> 'v js_object" where
  "remove_stale subjects obj =
     fold (\<lambda>subject obj'. if subject \<notin> set subjects then AList.delete subject obj' else obj')
       (object_keys obj) obj"

definition sync_effect :: "form_data \<Rightarrow> form_data" where
  "sync_effect prev =
     (let theorySubjects = getAllSubjects prev;
          labSubjects = getAllLabSubjects prev;
          (n1, newTeachers) = fold add_missing_roster theorySubjects (next_oid prev, f_teachers prev);
          (n2, newLabTeachers, newLabRooms) =
             fold add_missing_lab labSubjects (n1, f_lab_teachers prev, f_lab_rooms prev)
      in prev\<lparr>f_teachers := remove_stale theorySubjects newTeachers,
              f_lab_teachers := remove_stale labSubjects newLabTeachers,
              f_lab_rooms := remove_stale labSubjects newLabRooms,
              next_oid := n2\<rparr>)"

subsection \<open>The handlers\<close>

text \<open>
  \<^verbatim>\<open>xs.map((x, i) => i === index ? f(x) : x)\<close> and \<^verbatim>\<open>xs.filter((_, i) => i !== index)\<close>: an index
  outside the list changes nothing. \<^verbatim>\<open>parseInt(text) || d\<close> is \<open>d\<close> when the text is not a
  number (\<open>None\<close>) or is zero.
\<close>

definition map_at :: "nat \<Rightarrow> ('a \<Rightarrow> 'a) \<Rightarrow> 'a list \<Rightarrow> 'a list" where
  "map_at index f xs = (if index < length xs then xs[index := f (xs ! index)] else xs)"

definition or_default :: "int \<Rightarrow> int option \<Rightarrow> int" where
  "or_default d v = (case v of None \<Rightarrow> d | Some n \<Rightarrow> if n = 0 then d else n)"

datatype form_error = TypeError | NotOffered

definition addClass :: "form_data \<Rightarrow> form_data" where
  "addClass prev = prev\<lparr>f_classes := f_classes prev @ [empty_class]\<rparr>"

definition removeClass :: "nat \<Rightarrow> form_data \<Rightarrow> form_data" where
  "removeClass index prev = prev\<lparr>f_classes := remove_nth index (f_classes prev)\<rparr>"

text \<open>The form calls \<^verbatim>\<open>updateClass\<close> with the field \<^verbatim>\<open>name\<close> only.\<close>

definition updateClass :: "nat \<Rightarrow> string \<Rightarrow> form_data \<Rightarrow> form_data" where
  "updateClass index v prev =
     prev\<lparr>f_classes := map_at index (\<lambda>classItem. classItem\<lparr>c_name := v\<rparr>) (f_classes prev)\<rparr>"

definition update_subjects :: "bool \<Rightarrow> (string list \<Rightarrow> string list) \<Rightarrow> class_def \<Rightarrow> class_def" where
  "update_subjects isLab f classItem =
     (if isLab then classItem\<lparr>c_lab_subjects := f (c_lab_subjects classItem)\<rparr>
      else classItem\<lparr>c_subjects := f (c_subjects classItem)\<rparr>)"

definition addSubjectToClass :: "nat \<Rightarrow> bool \<Rightarrow> form_data \<Rightarrow> form_data" where
  "addSubjectToClass classIndex isLab prev =
     prev\<lparr>f_classes :=
            map_at classIndex (update_subjects isLab (\<lambda>subjects. subjects @ [[]])) (f_classes prev)\<rparr>"

definition updateClassSubject :: "nat \<Rightarrow> nat \<Rightarrow> string \<Rightarrow> bool \<Rightarrow> form_data \<Rightarrow> form_data" where
  "updateClassSubject classIndex subjectIndex v isLab prev =
     prev\<lparr>f_classes :=
            map_at classIndex (update_subjects isLab (map_at subjectIndex (\<lambda>subject. v)))
              (f_classes prev)\<rparr>"

definition removeSubjectFromClass :: "nat \<Rightarrow> nat \<Rightarrow> bool \<Rightarrow> form_data \<Rightarrow> form_data" where
  "removeSubjectFromClass classIndex subjectIndex isLab prev =
     prev\<lparr>f_classes :=
            map_at classIndex (update_subjects isLab (remove_nth subjectIndex)) (f_classes prev)\<rparr>"

definition addSectionToClass :: "nat \<Rightarrow> form_data \<Rightarrow> form_data" where
  "addSectionToClass classIndex prev =
     prev\<lparr>f_classes :=
            map_at classIndex
              (\<lambda>classItem. classItem\<lparr>c_sections :=
                               c_sections classItem @ [\<lparr>s_name = [], s_student_count = 0\<rparr>]\<rparr>)
              (f_classes prev)\<rparr>"

datatype section_field = SectionName string | StudentCount "int option"

definition set_section_field :: "section_field \<Rightarrow> section_def \<Rightarrow> section_def" where
  "set_section_field field sec =
     (case field of
        SectionName v \<Rightarrow> sec\<lparr>s_name := v\<rparr>
      | StudentCount v \<Rightarrow> sec\<lparr>s_student_count := or_default 0 v\<rparr>)"

definition updateSection :: "nat \<Rightarrow> nat \<Rightarrow> section_field \<Rightarrow> form_data \<Rightarrow> form_data" where
  "updateSection classIndex sectionIndex field prev =
     prev\<lparr>f_classes :=
            map_at classIndex
              (\<lambda>classItem. classItem\<lparr>c_sections :=
                               map_at sectionIndex (set_section_field field) (c_sections classItem)\<rparr>)
              (f_classes prev)\<rparr>"

definition removeSectionFromClass :: "nat \<Rightarrow> nat \<Rightarrow> form_data \<Rightarrow> form_data" where
  "removeSectionFromClass classIndex sectionIndex prev =
     prev\<lparr>f_classes :=
            map_at classIndex
              (\<lambda>classItem. classItem\<lparr>c_sections := remove_nth sectionIndex (c_sections classItem)\<rparr>)
              (f_classes prev)\<rparr>"

definition update_rooms :: "bool \<Rightarrow> (string list \<Rightarrow> string list) \<Rightarrow> form_data \<Rightarrow> form_data" where
  "update_rooms isLab f prev =
     (if isLab then prev\<lparr>f_labs := f (f_labs prev)\<rparr> else prev\<lparr>f_rooms := f (f_rooms prev)\<rparr>)"

definition addRoom :: "bool \<Rightarrow> form_data \<Rightarrow> form_data" where
  "addRoom isLab prev = update_rooms isLab (\<lambda>rs. rs @ [[]]) prev"

definition updateRoom :: "nat \<Rightarrow> string \<Rightarrow> bool \<Rightarrow> form_data \<Rightarrow> form_data" where
  "updateRoom index v isLab prev = update_rooms isLab (map_at index (\<lambda>room. v)) prev"

definition removeRoom :: "nat \<Rightarrow> bool \<Rightarrow> form_data \<Rightarrow> form_data" where
  "removeRoom index isLab prev = update_rooms isLab (remove_nth index) prev"

text \<open>
  The lab room handlers build a new array and store it under the subject with a spread
  and a computed key. \<^verbatim>\<open>toggleLabRoomAssignment\<close> first reads
  \<^verbatim>\<open>prev.lab_rooms[labSubject] || []\<close> and calls \<^verbatim>\<open>includes\<close> on it, which is not a function of
  an inherited member.
\<close>

definition store_lab_rooms :: "string \<Rightarrow> string list \<Rightarrow> form_data \<Rightarrow> form_data" where
  "store_lab_rooms labSubject newRooms prev =
     prev\<lparr>f_lab_rooms :=
            AList.update labSubject \<lparr>oid = next_oid prev, elems = newRooms\<rparr> (f_lab_rooms prev),
          next_oid := next_oid prev + 1\<rparr>"

definition toggleLabRoomAssignment :: "string \<Rightarrow> string \<Rightarrow> form_data \<Rightarrow> form_error + form_data" where
  "toggleLabRoomAssignment labSubject labRoom prev =
     (case js_get (f_lab_rooms prev) labSubject of
        Inherited \<Rightarrow> Inl TypeError
      | Undefined \<Rightarrow> Inr (store_lab_rooms labSubject [labRoom] prev)
      | Own a \<Rightarrow>
          Inr (store_lab_rooms labSubject
                 (if labRoom \<in> set (elems a) then filter (\<lambda>room. room \<noteq> labRoom) (elems a)
                  else elems a @ [labRoom])
                 prev))"

definition selectAllLabRooms :: "string \<Rightarrow> form_data \<Rightarrow> form_data" where
  "selectAllLabRooms labSubject prev =
     store_lab_rooms labSubject (filter (\<lambda>room. trim room \<noteq> []) (f_labs prev)) prev"

definition clearAllLabRooms :: "string \<Rightarrow> form_data \<Rightarrow> form_data" where
  "clearAllLabRooms labSubject prev = store_lab_rooms labSubject [] prev"

definition addTimeSlot :: "form_data \<Rightarrow> form_data" where
  "addTimeSlot prev = prev\<lparr>f_slots := f_slots prev @ [[]]\<rparr>"

definition updateTimeSlot :: "nat \<Rightarrow> string \<Rightarrow> form_data \<Rightarrow> form_data" where
  "updateTimeSlot index v prev = prev\<lparr>f_slots := map_at index (\<lambda>slot. v) (f_slots prev)\<rparr>"

definition removeTimeSlot :: "nat \<Rightarrow> form_data \<Rightarrow> form_data" where
  "removeTimeSlot index prev = prev\<lparr>f_slots := remove_nth index (f_slots prev)\<rparr>"

text \<open>The inline handler of a working-day input.\<close>

definition update_day :: "nat \<Rightarrow> string \<Rightarrow> form_data \<Rightarrow> form_data" where
  "update_day index v prev = prev\<lparr>f_days := map_at index (\<lambda>d. v) (f_days prev)\<rparr>"

text \<open>
  The teacher handlers work on \<^verbatim>\<open>teachers\<close> or \<^verbatim>\<open>lab_teachers\<close>. \<^verbatim>\<open>addTeacher\<close> tests
  \<^verbatim>\<open>prev[field][subject]\<close> for truthiness and spreads it, which throws on an inherited
  member; \<^verbatim>\<open>updateTeacher\<close> and \<^verbatim>\<open>removeTeacher\<close> call \<^verbatim>\<open>map\<close> and \<^verbatim>\<open>filter\<close> on it, which throws
  unless it is an own array.
\<close>

definition roster :: "bool \<Rightarrow> form_data \<Rightarrow> js_array js_object" where
  "roster isLab prev = (if isLab then f_lab_teachers prev else f_teachers prev)"

definition store_teachers :: "bool \<Rightarrow> string \<Rightarrow> string list \<Rightarrow> form_data \<Rightarrow> form_data" where
  "store_teachers isLab subject newList prev =
     (let stored = AList.update subject \<lparr>oid = next_oid prev, elems = newList\<rparr> (roster isLab prev)
      in if isLab then prev\<lparr>f_lab_teachers := stored, next_oid := next_oid prev + 1\<rparr>
         else prev\<lparr>f_teachers := stored, next_oid := next_oid prev + 1\<rparr>)"

definition addTeacher :: "string \<Rightarrow> bool \<Rightarrow> form_data \<Rightarrow> form_error + form_data" where
  "addTeacher subject isLab prev =
     (case js_get (roster isLab prev) subject of
        Own a \<Rightarrow> Inr (store_teachers isLab subject (elems a @ [[]]) prev)
      | Inherited \<Rightarrow> Inl TypeError
      | Undefined \<Rightarrow> Inr (store_teachers isLab subject [[]] prev))"

definition updateTeacher :: "string \<Rightarrow> nat \<Rightarrow> string \<Rightarrow> bool \<Rightarrow> form_data \<Rightarrow> form_error + form_data" where
  "updateTeacher subject teacherIndex v isLab prev =
     (case js_get (roster isLab prev) subject of
        Own a \<Rightarrow> Inr (store_teachers isLab subject (map_at teacherIndex (\<lambda>teacher. v) (elems a)) prev)
      | _ \<Rightarrow> Inl TypeError)"

definition removeTeacher :: "string \<Rightarrow> nat \<Rightarrow> bool \<Rightarrow> form_data \<Rightarrow> form_error + form_data" where
  "removeTeacher subject teacherIndex isLab prev =
     (case js_get (roster isLab prev) subject of
        Own a \<Rightarrow> Inr (store_teachers isLab subject (remove_nth teacherIndex (elems a)) prev)
      | _ \<Rightarrow> Inl TypeError)"

definition addTeacherUnavailability :: "string \<Rightarrow> form_data \<Rightarrow> form_error + form_data" where
  "addTeacherUnavailability teacherName prev =
     (case js_get (f_teacher_unavailability prev) teacherName of
        Own us \<Rightarrow>
          Inr (prev\<lparr>f_teacher_unavailability :=
                      AList.update teacherName (us @ [\<lparr>u_day = [], u_slot = []\<rparr>])
                        (f_teacher_unavailability prev)\<rparr>)
      | Inherited \<Rightarrow> Inl TypeError
      | Undefined \<Rightarrow>
          Inr (prev\<lparr>f_teacher_unavailability :=
                      AList.update teacherName [\<lparr>u_day = [], u_slot = []\<rparr>]
                        (f_teacher_unavailability prev)\<rparr>))"

datatype unavailability_field = UDay string | USlot string

definition set_unavailability_field :: "unavailability_field \<Rightarrow> unavailability \<Rightarrow> unavailability" where
  "set_unavailability_field field unavail =
     (case field of UDay v \<Rightarrow> unavail\<lparr>u_day := v\<rparr> | USlot v \<Rightarrow> unavail\<lparr>u_slot := v\<rparr>)"

definition updateTeacherUnavailability ::
  "string \<Rightarrow> nat \<Rightarrow> unavailability_field \<Rightarrow> form_data \<Rightarrow> form_error + form_data" where
  "updateTeacherUnavailability teacherName index field prev =
     (case js_get (f_teacher_unavailability prev) teacherName of
        Own us \<Rightarrow>
          Inr (prev\<lparr>f_teacher_unavailability :=
                      AList.update teacherName (map_at index (set_unavailability_field field) us)
                        (f_teacher_unavailability prev)\<rparr>)
      | _ \<Rightarrow> Inl TypeError)"

definition removeTeacherUnavailability :: "string \<Rightarrow> nat \<Rightarrow> form_data \<Rightarrow> form_error + form_data" where
  "removeTeacherUnavailability teacherName index prev =
     (case js_get (f_teacher_unavailability prev) teacherName of
        Own us \<Rightarrow>
          Inr (prev\<lparr>f_teacher_unavailability :=
                      AList.update teacherName (remove_nth index us) (f_teacher_unavailability prev)\<rparr>)
      | _ \<Rightarrow> Inl TypeError)"

definition removeTeacherFromUnavailability :: "string \<Rightarrow> form_data \<Rightarrow> form_data" where
  "removeTeacherFromUnavailability teacherName prev =
     prev\<lparr>f_teacher_unavailability := AList.delete teacherName (f_teacher_unavailability prev)\<rparr>"

text \<open>
  \<^verbatim>\<open>updateNestedState\<close> is called with the six paths under \<^verbatim>\<open>constraints\<close>; the numeric ones
  pass \<^verbatim>\<open>parseInt(text) || d\<close> with the default \<open>d\<close> of the field.
\<close>

datatype constraint_update =
  MaxLecturesPerDayTeacher "int option"
  | MaxLecturesPerSubjectPerDay "int option"
  | MinLecturesPerDaySection "int option"
  | MaxLecturesPerDaySection "int option"
  | LabSessionDuration "int option"
  | DistributeAcrossWeek bool

definition updateNestedState :: "constraint_update \<Rightarrow> form_data \<Rightarrow> form_data" where
  "updateNestedState u prev =
     prev\<lparr>f_constraints :=
            (case u of
               MaxLecturesPerDayTeacher v \<Rightarrow>
                 (f_constraints prev)\<lparr>max_lectures_per_day_teacher := or_default 5 v\<rparr>
             | MaxLecturesPerSubjectPerDay v \<Rightarrow>
                 (f_constraints prev)\<lparr>max_lectures_per_subject_per_day := or_default 2 v\<rparr>
             | MinLecturesPerDaySection v \<Rightarrow>
                 (f_constraints prev)\<lparr>min_lectures_per_day_section := or_default 4 v\<rparr>
             | MaxLecturesPerDaySection v \<Rightarrow>
                 (f_constraints prev)\<lparr>max_lectures_per_day_section := or_default 6 v\<rparr>
             | LabSessionDuration v \<Rightarrow>
                 (f_constraints prev)\<lparr>lab_session_duration := or_default 2 v\<rparr>
             | DistributeAcrossWeek b \<Rightarrow>
                 (f_constraints prev)\<lparr>distribute_across_week := b\<rparr>)\<rparr>"

text \<open>The inline handlers of the lab capacity and lecture requirement inputs.\<close>

definition set_lab_capacity :: "int option \<Rightarrow> form_data \<Rightarrow> form_data" where
  "set_lab_capacity v prev = prev\<lparr>f_lab_capacity := or_default 30 v\<rparr>"

definition set_lecture_requirement :: "string \<Rightarrow> int option \<Rightarrow> form_data \<Rightarrow> form_data" where
  "set_lecture_requirement subject v prev =
     prev\<lparr>f_lecture_requirements :=
            AList.update subject (or_default 0 v) (f_lecture_requirements prev)\<rparr>"

text \<open>The form's own \<^verbatim>\<open>generateTimetable\<close> only logs its state.\<close>

definition generateTimetable_placeholder :: "form_data \<Rightarrow> form_data" where
  "generateTimetable_placeholder prev = prev"

subsection \<open>Events, rendering and the step of the form\<close>

datatype form_event =
  AddClass
  | RemoveClass nat
  | UpdateClass nat string
  | AddSubjectToClass nat bool
  | UpdateClassSubject nat nat string bool
  | RemoveSubjectFromClass nat nat bool
  | AddSectionToClass nat
  | UpdateSection nat nat section_field
  | RemoveSectionFromClass nat nat
  | AddRoom bool
  | UpdateRoom nat string bool
  | RemoveRoom nat bool
  | ToggleLabRoomAssignment string string
  | SelectAllLabRooms string
  | ClearAllLabRooms string
  | AddTimeSlot
  | UpdateTimeSlot nat string
  | RemoveTimeSlot nat
  | UpdateDay nat string
  | AddTeacher string bool
  | UpdateTeacher string nat string bool
  | RemoveTeacher string nat bool
  | AddTeacherUnavailability string
  | UpdateTeacherUnavailability string nat unavailability_field
  | RemoveTeacherUnavailability string nat
  | RemoveTeacherFromUnavailability string
  | UpdateNestedState constraint_update
  | SetLabCapacity "int option"
  | SetLectureRequirement string "int option"
  | GenerateTimetable

text \<open>The handlers that build a new \<^verbatim>\<open>classes\<close> array, after which the effect runs.\<close>

definition changes_classes :: "form_event \<Rightarrow> bool" where
  "changes_classes ev =
     (case ev of
        AddClass \<Rightarrow> True
      | RemoveClass i \<Rightarrow> True
      | UpdateClass i v \<Rightarrow> True
      | AddSubjectToClass i isLab \<Rightarrow> True
      | UpdateClassSubject i j v isLab \<Rightarrow> True
      | RemoveSubjectFromClass i j isLab \<Rightarrow> True
      | AddSectionToClass i \<Rightarrow> True
      | UpdateSection i j field \<Rightarrow> True
      | RemoveSectionFromClass i j \<Rightarrow> True
      | _ \<Rightarrow> False)"

definition apply_event :: "form_event \<Rightarrow> form_data \<Rightarrow> form_error + form_data" where
  "apply_event ev prev =
     (case ev of
        AddClass \<Rightarrow> Inr (addClass prev)
      | RemoveClass i \<Rightarrow> Inr (removeClass i prev)
      | UpdateClass i v \<Rightarrow> Inr (updateClass i v prev)
      | AddSubjectToClass i isLab \<Rightarrow> Inr (addSubjectToClass i isLab prev)
      | UpdateClassSubject i j v isLab \<Rightarrow> Inr (updateClassSubject i j v isLab prev)
      | RemoveSubjectFromClass i j isLab \<Rightarrow> Inr (removeSubjectFromClass i j isLab prev)
      | AddSectionToClass i \<Rightarrow> Inr (addSectionToClass i prev)
      | UpdateSection i j field \<Rightarrow> Inr (updateSection i j field prev)
      | RemoveSectionFromClass i j \<Rightarrow> Inr (removeSectionFromClass i j prev)
      | AddRoom isLab \<Rightarrow> Inr (addRoom isLab prev)
      | UpdateRoom i v isLab \<Rightarrow> Inr (updateRoom i v isLab prev)
      | RemoveRoom i isLab \<Rightarrow> Inr (removeRoom i isLab prev)
      | ToggleLabRoomAssignment labSubject labRoom \<Rightarrow> toggleLabRoomAssignment labSubject labRoom prev
      | SelectAllLabRooms labSubject \<Rightarrow> Inr (selectAllLabRooms labSubject prev)
      | ClearAllLabRooms labSubject \<Rightarrow> Inr (clearAllLabRooms labSubject prev)
      | AddTimeSlot \<Rightarrow> Inr (addTimeSlot prev)
      | UpdateTimeSlot i v \<Rightarrow> Inr (updateTimeSlot i v prev)
      | RemoveTimeSlot i \<Rightarrow> Inr (removeTimeSlot i prev)
      | UpdateDay i v \<Rightarrow> Inr (update_day i v prev)
      | AddTeacher subject isLab \<Rightarrow> addTeacher subject isLab prev
      | UpdateTeacher subject i v isLab \<Rightarrow> updateTeacher subject i v isLab prev
      | RemoveTeacher subject i isLab \<Rightarrow> removeTeacher subject i isLab prev
      | AddTeacherUnavailability t \<Rightarrow> addTeacherUnavailability t prev
      | UpdateTeacherUnavailability t i field \<Rightarrow> updateTeacherUnavailability t i field prev
      | RemoveTeacherUnavailability t i \<Rightarrow> removeTeacherUnavailability t i prev
      | RemoveTeacherFromUnavailability t \<Rightarrow> Inr (removeTeacherFromUnavailability t prev)
      | UpdateNestedState u \<Rightarrow> Inr (updateNestedState u prev)
      | SetLabCapacity v \<Rightarrow> Inr (set_lab_capacity v prev)
      | SetLectureRequirement subject v \<Rightarrow> Inr (set_lecture_requirement subject v prev)
      | GenerateTimetable \<Rightarrow> Inr (generateTimetable_placeholder prev))"

text \<open>
  Rendering reads \<^verbatim>\<open>(inputData.teachers[subject] || ['']).map\<close> for every theory subject,
  the same on \<^verbatim>\<open>lab_teachers\<close> for every lab subject, \<^verbatim>\<open>(inputData.lab_rooms[s] || []).includes\<close>
  for every lab subject when the lab room panel is shown, and
  \<^verbatim>\<open>(inputData.teacher_unavailability[t] || []).map\<close> for every teacher. Each throws a
  \<^verbatim>\<open>TypeError\<close> on an inherited member, and a render that throws unmounts the form before
  its effects run.
\<close>

definition canonical :: "bool \<Rightarrow> form_data \<Rightarrow> string list" where
  "canonical isLab inputData = (if isLab then getAllLabSubjects inputData else getAllSubjects inputData)"

definition named_labs :: "form_data \<Rightarrow> string list" where
  "named_labs inputData = filter (\<lambda>lab. trim lab \<noteq> []) (f_labs inputData)"

definition lab_panel_shown :: "form_data \<Rightarrow> bool" where
  "lab_panel_shown inputData =
     (length (getAllLabSubjects inputData) > 0 \<and> length (named_labs inputData) > 0)"

definition readable :: "'v js_object \<Rightarrow> string \<Rightarrow> bool" where
  "readable obj k = (case js_get obj k of Inherited \<Rightarrow> False | _ \<Rightarrow> True)"

definition render_ok :: "form_data \<Rightarrow> bool" where
  "render_ok inputData =
     (list_all (readable (f_teachers inputData)) (getAllSubjects inputData) \<and>
      list_all (readable (f_lab_teachers inputData)) (getAllLabSubjects inputData) \<and>
      (if lab_panel_shown inputData
       then list_all (readable (f_lab_rooms inputData)) (getAllLabSubjects inputData) else True) \<and>
      list_all (readable (f_teacher_unavailability inputData)) (getAllTeachers inputData))"

text \<open>
  The controls the rendered form offers: one per existing row, and, for the maps, one per
  canonical subject or teacher.
\<close>

definition subjects_of :: "bool \<Rightarrow> class_def \<Rightarrow> string list" where
  "subjects_of isLab classItem = (if isLab then c_lab_subjects classItem else c_subjects classItem)"

definition rows_shown :: "js_array js_object \<Rightarrow> string \<Rightarrow> nat" where
  "rows_shown obj subject = (case js_get obj subject of Own a \<Rightarrow> length (elems a) | _ \<Rightarrow> 1)"

definition offered :: "form_data \<Rightarrow> form_event \<Rightarrow> bool" where
  "offered st ev =
     (case ev of
        AddClass \<Rightarrow> True
      | RemoveClass i \<Rightarrow> i < length (f_classes st)
      | UpdateClass i v \<Rightarrow> i < length (f_classes st)
      | AddSubjectToClass i isLab \<Rightarrow> i < length (f_classes st)
      | UpdateClassSubject i j v isLab \<Rightarrow>
          i < length (f_classes st) \<and> j < length (subjects_of isLab (f_classes st ! i))
      | RemoveSubjectFromClass i j isLab \<Rightarrow>
          i < length (f_classes st) \<and> j < length (subjects_of isLab (f_classes st ! i))
      | AddSectionToClass i \<Rightarrow> i < length (f_classes st)
      | UpdateSection i j field \<Rightarrow>
          i < length (f_classes st) \<and> j < length (c_sections (f_classes st ! i))
      | RemoveSectionFromClass i j \<Rightarrow>
          i < length (f_classes st) \<and> j < length (c_sections (f_classes st ! i))
      | AddRoom isLab \<Rightarrow> True
      | UpdateRoom i v isLab \<Rightarrow> i < length (if isLab then f_labs st else f_rooms st)
      | RemoveRoom i isLab \<Rightarrow> i < length (if isLab then f_labs st else f_rooms st)
      | ToggleLabRoomAssignment labSubject labRoom \<Rightarrow>
          lab_panel_shown st \<and> labSubject \<in> set (getAllLabSubjects st) \<and>
          labRoom \<in> set (named_labs st)
      | SelectAllLabRooms labSubject \<Rightarrow>
          lab_panel_shown st \<and> labSubject \<in> set (getAllLabSubjects st)
      | ClearAllLabRooms labSubject \<Rightarrow>
          lab_panel_shown st \<and> labSubject \<in> set (getAllLabSubjects st)
      | AddTimeSlot \<Rightarrow> True
      | UpdateTimeSlot i v \<Rightarrow> i < length (f_slots st)
      | RemoveTimeSlot i \<Rightarrow> i < length (f_slots st)
      | UpdateDay i v \<Rightarrow> i < length (f_days st)
      | AddTeacher subject isLab \<Rightarrow> subject \<in> set (canonical isLab st)
      | UpdateTeacher subject i v isLab \<Rightarrow>
          subject \<in> set (canonical isLab st) \<and> i < rows_shown (roster isLab st) subject
      | RemoveTeacher subject i isLab \<Rightarrow>
          subject \<in> set (canonical isLab st) \<and> i < rows_shown (roster isLab st) subject
      | AddTeacherUnavailability t \<Rightarrow> t \<in> set (getAllTeachers st)
      | UpdateTeacherUnavailability t i field \<Rightarrow>
          t \<in> set (getAllTeachers st) \<and> i < length (own_or [] (f_teacher_unavailability st) t) \<and>
          (case field of
             UDay v \<Rightarrow> v \<in> set ([] # f_days st)
           | USlot v \<Rightarrow> v \<in> set ([] # filter (\<lambda>slot. slot \<noteq> ''Lunch Break'') (f_slots st)))
      | RemoveTeacherUnavailability t i \<Rightarrow>
          t \<in> set (getAllTeachers st) \<and> i < length (own_or [] (f_teacher_unavailability st) t)
      | RemoveTeacherFromUnavailability t \<Rightarrow> t \<in> set (getAllTeachers st)
      | UpdateNestedState u \<Rightarrow> True
      | SetLabCapacity v \<Rightarrow> True
      | SetLectureRequirement subject v \<Rightarrow>
          subject \<in> set (getAllSubjects st @ getAllLabSubjects st)
      | GenerateTimetable \<Rightarrow> True)"

text \<open>
  The props the parent passes. The component is declared without parameters, so neither
  is read: \<open>initialData\<close> is the parent's configuration, and the calls of the
  \<^verbatim>\<open>onInputChange\<close> callback are returned by the step as the list of their arguments.
\<close>

record form_props =
  initialData :: "config_doc option"

record form_result =
  fr_state :: form_data
  fr_onInputChange_calls :: "config_doc list"

text \<open>The first render with the state of \<^verbatim>\<open>useState\<close>, followed by the effect.\<close>

definition form_mount :: "form_props \<Rightarrow> form_error + form_data" where
  "form_mount props =
     (if \<not> render_ok initial_inputData then Inl TypeError
      else
        (let st = sync_effect initial_inputData in
         if render_ok st then Inr st else Inl TypeError))"

text \<open>
  One event: the handler's update, the render of the new state, and, when the
  \<^verbatim>\<open>classes\<close> array is a new one, the effect and the render of its result.
\<close>

definition form_step :: "form_props \<Rightarrow> form_data \<Rightarrow> form_event \<Rightarrow> form_error + form_result" where
  "form_step props st ev =
     (if \<not> offered st ev then Inl NotOffered
      else
        (case apply_event ev st of
           Inl e \<Rightarrow> Inl e
         | Inr st1 \<Rightarrow>
             if \<not> render_ok st1 then Inl TypeError
             else if changes_classes ev
             then
               (let st2 = sync_effect st1 in
                if render_ok st2 then Inr \<lparr>fr_state = st2, fr_onInputChange_calls = []\<rparr>
                else Inl TypeError)
             else Inr \<lparr>fr_state = st1, fr_onInputChange_calls = []\<rparr>))"

fun form_run :: "form_props \<Rightarrow> form_result \<Rightarrow> form_event list \<Rightarrow> form_error + form_result" where
  "form_run props r [] = Inr r"
| "form_run props r (ev # evs) =
     (case form_step props (fr_state r) ev of
        Inl e \<Rightarrow> Inl e
      | Inr r1 \<Rightarrow>
          form_run props
            (r1\<lparr>fr_onInputChange_calls := fr_onInputChange_calls r @ fr_onInputChange_calls r1\<rparr>)
            evs)"

definition form_session :: "form_props \<Rightarrow> form_event list \<Rightarrow> form_error + form_result" where
  "form_session props evs =
     (case form_mount props of
        Inl e \<Rightarrow> Inl e
      | Inr st \<Rightarrow> form_run props \<lparr>fr_state = st, fr_onInputChange_calls = []\<rparr> evs)"

text \<open>
  The key sets of the three derived maps are the canonical sets; and a map has no own key
  that is also the name of an inherited member.
\<close>

definition keys_match :: "form_data \<Rightarrow> bool" where
  "keys_match st =
     (set (object_keys (f_teachers st)) = set (getAllSubjects st) \<and>
      set (object_keys (f_lab_teachers st)) = set (getAllLabSubjects st) \<and>
      set (object_keys (f_lab_rooms st)) = set (getAllLabSubjects st))"

definition no_inherited_names :: "'v js_object \<Rightarrow> bool" where
  "no_inherited_names obj = (set (object_keys obj) \<inter> set object_prototype_keys = {})"

text \<open>
  No canonical subject and no teacher of the state is named like an inherited member;
  and an event that enters no such name (as a subject, or, trimmed, as a teacher).
\<close>

definition plain_state :: "form_data \<Rightarrow> bool" where
  "plain_state st =
     list_all (\<lambda>s. s \<notin> set object_prototype_keys)
       (getAllSubjects st @ getAllLabSubjects st @ getAllTeachers st)"

definition plain_names :: "form_event \<Rightarrow> bool" where
  "plain_names ev =
     (case ev of
        UpdateClassSubject i j v isLab \<Rightarrow> v \<notin> set object_prototype_keys
      | UpdateTeacher subject i v isLab \<Rightarrow> trim v \<notin> set object_prototype_keys
      | _ \<Rightarrow> True)"

section \<open>TimetableApp: the parent of the form and of the generator\<close>

datatype step_name = InputStep | GenerateStep

record app_state =
  a_inputData :: "config_doc option"
  currentStep :: step_name
  isValidInput :: bool

definition initial_app :: app_state where
  "initial_app = \<lparr>a_inputData = None, currentStep = InputStep, isValidInput = False\<rparr>"

text \<open>
  \<^verbatim>\<open>x?.length > 0\<close> on an optional array, and the truthiness of an optional text.
\<close>

definition has_items :: "'a list option \<Rightarrow> bool" where
  "has_items xs = (case xs of None \<Rightarrow> False | Some ys \<Rightarrow> length ys > 0)"

definition truthy_text :: "string option \<Rightarrow> bool" where
  "truthy_text v = (case v of None \<Rightarrow> False | Some t \<Rightarrow> t \<noteq> [])"

definition valid_class :: "class_doc \<Rightarrow> bool" where
  "valid_class cls =
     (truthy_text (cd_name cls) \<and> has_items (cd_sections cls) \<and>
      (has_items (cd_subjects cls) \<or> has_items (cd_lab_subjects cls)))"

definition handleInputDataChange :: "config_doc option \<Rightarrow> app_state \<Rightarrow> app_state" where
  "handleInputDataChange newInputData st =
     (let hasClasses =
            (case newInputData of None \<Rightarrow> False | Some d \<Rightarrow> has_items (d_classes d));
          hasValidClasses =
            (case newInputData of
               None \<Rightarrow> False
             | Some d \<Rightarrow> (case d_classes d of None \<Rightarrow> False | Some cs \<Rightarrow> list_all valid_class cs));
          hasDaysAndSlots =
            (case newInputData of
               None \<Rightarrow> False
             | Some d \<Rightarrow> has_items (d_days d) \<and> has_items (d_slots d))
      in st\<lparr>a_inputData := newInputData,
            isValidInput := (hasClasses \<and> hasValidClasses \<and> hasDaysAndSlots)\<rparr>)"

definition goToGeneration :: "app_state \<Rightarrow> app_state" where
  "goToGeneration st = (if isValidInput st then st\<lparr>currentStep := GenerateStep\<rparr> else st)"

definition goToInput :: "app_state \<Rightarrow> app_state" where
  "goToInput st = st\<lparr>currentStep := InputStep\<rparr>"

definition clear_all :: "app_state \<Rightarrow> app_state" where
  "clear_all st = st\<lparr>a_inputData := None, currentStep := InputStep, isValidInput := False\<rparr>"

text \<open>
  What \<^verbatim>\<open>JSON.parse\<close> makes of a text: it throws, or it yields a document (\<open>None\<close> for the
  JSON value \<^verbatim>\<open>null\<close>).
\<close>

datatype parse_result = ParseError | Parsed "config_doc option"

text \<open>
  The \<^verbatim>\<open>onload\<close> handler of the import control: the parsed document is stored as it is,
  validated, and the input step is shown; a text that does not parse raises the alert
  (the second component) and leaves the state alone.
\<close>

definition import_config :: "parse_result \<Rightarrow> app_state \<Rightarrow> app_state \<times> string option" where
  "import_config file st =
     (case file of
        Parsed importedData \<Rightarrow>
          ((handleInputDataChange importedData (st\<lparr>a_inputData := importedData\<rparr>))
             \<lparr>currentStep := InputStep\<rparr>,
           None)
      | ParseError \<Rightarrow> (st, Some ''Failed to import configuration: Invalid JSON file''))"

text \<open>The mount effect that reads the saved configuration, when there is one.\<close>

definition load_saved :: "parse_result option \<Rightarrow> app_state \<Rightarrow> app_state" where
  "load_saved savedData st =
     (case savedData of
        None \<Rightarrow> st
      | Some ParseError \<Rightarrow> st
      | Some (Parsed parsedData) \<Rightarrow>
          handleInputDataChange parsedData (st\<lparr>a_inputData := parsedData\<rparr>))"

text \<open>
  The form is mounted while the input step is shown, with the parent's configuration as
  \<open>initialData\<close>; whatever the form passes to \<^verbatim>\<open>onInputChange\<close> goes through
  \<^verbatim>\<open>handleInputDataChange\<close>.
\<close>

definition form_props_of :: "app_state \<Rightarrow> form_props" where
  "form_props_of app = \<lparr>initialData = a_inputData app\<rparr>"

definition app_form_step ::
  "app_state \<times> form_data \<Rightarrow> form_event \<Rightarrow> form_error + (app_state \<times> form_data)" where
  "app_form_step s ev =
     (case s of (app, form) \<Rightarrow>
        if currentStep app \<noteq> InputStep then Inl NotOffered
        else
          (case form_step (form_props_of app) form ev of
             Inl e \<Rightarrow> Inl e
           | Inr r \<Rightarrow>
               Inr (foldl (\<lambda>a d. handleInputDataChange (Some d) a) app (fr_onInputChange_calls r),
                    fr_state r)))"

fun app_form_run ::
  "app_state \<times> form_data \<Rightarrow> form_event list \<Rightarrow> form_error + (app_state \<times> form_data)" where
  "app_form_run s [] = Inr s"
| "app_form_run s (ev # evs) =
     (case app_form_step s ev of Inl e \<Rightarrow> Inl e | Inr s1 \<Rightarrow> app_form_run s1 evs)"

text \<open>The form's initial configuration written as a document, for comparison.\<close>

definition default_config_doc :: config_doc where
  "default_config_doc =
     \<lparr>d_classes = Some [\<lparr>cd_name = Some [], cd_subjects = Some [], cd_lab_subjects = Some [],
                          cd_sections = Some [\<lparr>sd_name = Some [], sd_student_count = Some 0\<rparr>]\<rparr>],
      d_rooms = Some [], d_labs = Some [], d_lab_rooms = Some [],
      d_days = Some default_days, d_slots = Some default_slots,
      d_teachers = Some [], d_lab_teachers = Some [], d_teacher_unavailability = Some [],
      d_lecture_requirements = Some [], d_lab_capacity = Some 30,
      d_constraints =
        Some \<lparr>kd_max_lectures_per_day_teacher = Some 5, kd_max_lectures_per_subject_per_day = Some 2,
              kd_min_lectures_per_day_section = Some 4, kd_max_lectures_per_day_section = Some 6,
              kd_lab_session_duration = Some 2, kd_distribute_across_week = Some True\<rparr>,
      d_unknown_fields = []\<rparr>"

definition empty_config_doc :: config_doc where
  "empty_config_doc =
     \<lparr>d_classes = None, d_rooms = None, d_labs = None, d_lab_rooms = None,
      d_days = None, d_slots = None, d_teachers = None, d_lab_teachers = None,
      d_teacher_unavailability = None, d_lecture_requirements = None, d_lab_capacity = None,
      d_constraints = None, d_unknown_fields = []\<rparr>"

section \<open>Scenarios\<close>

text \<open>Concrete configurations, entries and solver behaviours used in the examples below.\<close>

definition drx_entry :: schedule_entry where
  "drx_entry =
     \<lparr>e_section = ''CS-A'', e_day = ''Monday'', e_slot = ''9:00-9:55'',
      e_subject = ''Maths'', e_teacher = ''Dr.X'', e_room = ''R1'',
      e_group = None, e_moved = None, e_moved_from = None\<rparr>"

definition drx_entry_later :: schedule_entry where
  "drx_entry_later = drx_entry\<lparr>e_slot := ''9:55-10:50''\<rparr>"

definition cs_config :: config_doc where
  "cs_config =
     empty_config_doc
       \<lparr>d_classes := Some [\<lparr>cd_name = Some ''CS'', cd_subjects = Some [''Maths''],
                             cd_lab_subjects = Some [],
                             cd_sections = Some [\<lparr>sd_name = Some ''A'', sd_student_count = Some 40\<rparr>]\<rparr>],
        d_days := Some [''Monday''], d_slots := Some [''9:00-9:55'', ''9:55-10:50'']\<rparr>"

definition ok_data :: timetable_data where
  "ok_data =
     \<lparr>td_timetable = Some [drx_entry], td_statistics = Some [(''total_classes'', 1)],
      td_unfulfilled = Some [], td_validation_warnings = None, td_error = None\<rparr>"

definition reset_data :: timetable_data where
  "reset_data =
     \<lparr>td_timetable = Some [drx_entry_later], td_statistics = None,
      td_unfulfilled = None, td_validation_warnings = None, td_error = None\<rparr>"

text \<open>A solver that always answers, and one whose second variation fails.\<close>

definition ok_env :: solver_env where
  "ok_env =
     \<lparr>respond = (\<lambda>rq. HttpResponse True 200 ''OK'' (Inr ok_data)),
      respond_reset = (\<lambda>rq. HttpResponse True 200 ''OK'' (Inr reset_data)),
      latency = (\<lambda>i. 250), random = (\<lambda>i. 1 / 2)\<rparr>"

definition second_fails_env :: solver_env where
  "second_fails_env =
     ok_env\<lparr>respond :=
              (\<lambda>rq. if rq_variation rq = 2
                    then HttpResponse False 500 ''INTERNAL SERVER ERROR'' (Inl [])
                    else HttpResponse True 200 ''OK'' (Inr ok_data))\<rparr>"

definition workshop_entry :: schedule_entry where
  "workshop_entry =
     \<lparr>e_section = ''CSE - A'', e_day = ''Monday'', e_slot = ''9:00-9:55'',
      e_subject = ''Workshop'', e_teacher = ''Dr.X'', e_room = ''Lab1'',
      e_group = None, e_moved = None, e_moved_from = None\<rparr>"

definition workshop_lab_config :: config_doc where
  "workshop_lab_config =
     empty_config_doc
       \<lparr>d_classes := Some [\<lparr>cd_name = Some ''CSE'', cd_subjects = Some [],
                             cd_lab_subjects = Some [''Workshop''],
                             cd_sections = Some [\<lparr>sd_name = Some ''A'', sd_student_count = Some 30\<rparr>]\<rparr>],
        d_days := Some [''Monday''], d_slots := Some [''9:00-9:55'']\<rparr>"

text \<open>A generator holding two generated variants, the first one selected.\<close>

definition two_variants :: generator_state where
  "two_variants =
     initial_generator
       \<lparr>timetables :=
          [\<lparr>v_id = 1, v_name = ''Version 1'', v_data = ok_data, generated_at = 250\<rparr>,
           \<lparr>v_id = 2, v_name = ''Version 2'', v_data = ok_data, generated_at = 600\<rparr>],
        generationCount := 2\<rparr>"

text \<open>
  Two teacher resets are started one after the other; the first comes back; a batch is
  started; the second reset comes back; another batch is started.
\<close>

definition overlapping_resets :: "generator_event list" where
  "overlapping_resets =
     [ClickTeacher ''Dr.X'' ''Monday'' ''9:00-9:55'',
      ClickTeacher ''Dr.X'' ''Monday'' ''9:00-9:55'',
      Completes 0 ok_env 0,
      ClickGenerate,
      Completes 0 ok_env 0,
      ClickGenerate]"

text \<open>
  A reset is started on the first variant, the second tab is selected, a reset is started
  on the second variant, and both come back in that order.
\<close>

definition crossing_resets :: "generator_event list" where
  "crossing_resets =
     [ClickTeacher ''Dr.X'' ''Monday'' ''9:00-9:55'',
      SelectTab 1,
      ClickTeacher ''Dr.X'' ''Monday'' ''9:00-9:55'',
      Completes 0 ok_env 0,
      Completes 0 ok_env 0]"

text \<open>
  The generator after the first two of these events: the second tab is shown while the
  reset of the first variant is outstanding.
\<close>

definition awaiting_reset :: generator_state where
  "awaiting_reset =
     two_variants
       \<lparr>currentTimetable := 1, loading := True,
        pending := [PendingReset (Some cs_config) (timetables two_variants) 0
                      (timetables two_variants ! 0) ''Dr.X'' ''Monday'' ''9:00-9:55'']\<rparr>"

text \<open>A solver whose reset response marks the entry it moved.\<close>

definition marked_entry :: schedule_entry where
  "marked_entry = drx_entry_later\<lparr>e_moved := Some True, e_moved_from := Some ''9:00-9:55''\<rparr>"

definition marking_env :: solver_env where
  "marking_env =
     ok_env\<lparr>respond_reset :=
              (\<lambda>rq. HttpResponse True 200 ''OK''
                      (Inr (reset_data\<lparr>td_timetable := Some [marked_entry]\<rparr>)))\<rparr>"

text \<open>A short session of the form: a theory subject, a lab subject, a teacher, and the
  lab subject removed again.\<close>

definition maths_session :: "form_event list" where
  "maths_session =
     [AddSubjectToClass 0 False,
      UpdateClassSubject 0 0 ''Maths'' False,
      AddSubjectToClass 0 True,
      UpdateClassSubject 0 0 ''Physics Lab'' True,
      UpdateTeacher ''Maths'' 0 ''Dr.X'' False,
      RemoveSubjectFromClass 0 0 True]"

text \<open>
  The state of the form just after the subject History of a class was renamed to Physics,
  before the effect has run: Maths has a teacher, History still has its placeholder.
\<close>

definition renamed_subject :: form_data where
  "renamed_subject =
     initial_inputData
       \<lparr>f_classes := [empty_class\<lparr>c_subjects := [''Maths'', ''Physics'']\<rparr>],
        f_teachers := [(''Maths'', \<lparr>oid = 3, elems = [''Dr.X'']\<rparr>),
                       (''History'', \<lparr>oid = 1, elems = [[]]\<rparr>)],
        next_oid := 4\<rparr>"

section \<open>Batch generation\<close>

lemma generate_loop_results:
  "i \<le> count \<Longrightarrow>
   map (\<lambda>v. (v_id v, v_name v, Some (v_data v))) (results (generate_loop env cfg count i b)) =
   map (\<lambda>v. (v_id v, v_name v, Some (v_data v))) (results b) @
   map (\<lambda>j. (Suc j, ''Version '' @ show_nat (Suc j), success_data env cfg j))
     (filter (request_succeeds env cfg) [i..<count])"
proof (induction env cfg count i b rule: generate_loop.induct)
  case (1 env cfg count i b)
  show ?case
  proof (cases "i < count")
    case True
    then have upt: "[i..<count] = i # [Suc i..<count]"
      by (simp add: upt_conv_Cons)
    from True have "Suc i \<le> count" by simp
    with "1.IH" True have IH:
      "map (\<lambda>v. (v_id v, v_name v, Some (v_data v)))
         (results (generate_loop env cfg count (i + 1) (generate_body env cfg count i b))) =
       map (\<lambda>v. (v_id v, v_name v, Some (v_data v))) (results (generate_body env cfg count i b)) @
       map (\<lambda>j. (Suc j, ''Version '' @ show_nat (Suc j), success_data env cfg j))
         (filter (request_succeeds env cfg) [i + 1..<count])"
      by simp
    have unfold: "generate_loop env cfg count i b =
        generate_loop env cfg count (i + 1) (generate_body env cfg count i b)"
      using True by (subst generate_loop.simps) simp
    show ?thesis
    proof (cases "generateTimetable env (variation_request env cfg i)")
      case (Inl message)
      then have "\<not> request_succeeds env cfg i"
        by (simp add: request_succeeds_def)
      with Inl show ?thesis
        unfolding unfold IH upt by (simp add: generate_body_def Let_def)
    next
      case (Inr result)
      then have "request_succeeds env cfg i" and "success_data env cfg i = Some result"
        by (simp_all add: request_succeeds_def success_data_def)
      with Inr show ?thesis
        unfolding unfold IH upt by (simp add: generate_body_def Let_def)
    qed
  next
    case False
    with "1.prems" have "i = count" by simp
    then show ?thesis by (subst generate_loop.simps) simp
  qed
qed

lemma generate_loop_errors:
  "i \<le> count \<Longrightarrow>
   errors (generate_loop env cfg count i b) =
   errors b @
   map (\<lambda>j. \<lparr>ve_variation = Suc j, ve_error = failure_message env cfg j\<rparr>)
     (filter (\<lambda>j. \<not> request_succeeds env cfg j) [i..<count])"
proof (induction env cfg count i b rule: generate_loop.induct)
  case (1 env cfg count i b)
  show ?case
  proof (cases "i < count")
    case True
    then have upt: "[i..<count] = i # [Suc i..<count]"
      by (simp add: upt_conv_Cons)
    from True have "Suc i \<le> count" by simp
    with "1.IH" True have IH:
      "errors (generate_loop env cfg count (i + 1) (generate_body env cfg count i b)) =
       errors (generate_body env cfg count i b) @
       map (\<lambda>j. \<lparr>ve_variation = Suc j, ve_error = failure_message env cfg j\<rparr>)
         (filter (\<lambda>j. \<not> request_succeeds env cfg j) [i + 1..<count])"
      by simp
    have unfold: "generate_loop env cfg count i b =
        generate_loop env cfg count (i + 1) (generate_body env cfg count i b)"
      using True by (subst generate_loop.simps) simp
    show ?thesis
    proof (cases "generateTimetable env (variation_request env cfg i)")
      case (Inl message)
      then have "\<not> request_succeeds env cfg i" and "failure_message env cfg i = message"
        by (simp_all add: request_succeeds_def failure_message_def)
      with Inl show ?thesis
        unfolding unfold IH upt by (simp add: generate_body_def Let_def)
    next
      case (Inr result)
      then have "request_succeeds env cfg i"
        by (simp add: request_succeeds_def)
      with Inr show ?thesis
        unfolding unfold IH upt by (simp add: generate_body_def Let_def)
    qed
  next
    case False
    with "1.prems" have "i = count" by simp
    then show ?thesis by (subst generate_loop.simps) simp
  qed
qed


lemma generate_results_shape:
  "map (\<lambda>v. (v_id v, v_name v, Some (v_data v)))
     (results (generateMultipleTimetables env start cfg count)) =
   map (\<lambda>j. (Suc j, ''Version '' @ show_nat (Suc j), success_data env cfg j))
     (filter (request_succeeds env cfg) [0..<count])"
  by (simp add: generateMultipleTimetables_def generate_loop_results)

lemma generate_errors_shape:
  "errors (generateMultipleTimetables env start cfg count) =
   map (\<lambda>j. \<lparr>ve_variation = Suc j, ve_error = failure_message env cfg j\<rparr>)
     (filter (\<lambda>j. \<not> request_succeeds env cfg j) [0..<count])"
  by (simp add: generateMultipleTimetables_def generate_loop_errors)

lemma generate_results_ids:
  "map v_id (results (generateMultipleTimetables env start cfg count)) =
   map Suc (filter (request_succeeds env cfg) [0..<count])"
proof -
  have "map v_id (results (generateMultipleTimetables env start cfg count)) =
        map fst (map (\<lambda>v. (v_id v, v_name v, Some (v_data v)))
          (results (generateMultipleTimetables env start cfg count)))"
    by simp
  also have "\<dots> = map Suc (filter (request_succeeds env cfg) [0..<count])"
    unfolding generate_results_shape by simp
  finally show ?thesis .
qed

lemma generate_results_names:
  "map v_name (results (generateMultipleTimetables env start cfg count)) =
   map (\<lambda>j. ''Version '' @ show_nat (Suc j)) (filter (request_succeeds env cfg) [0..<count])"
proof -
  have "map v_name (results (generateMultipleTimetables env start cfg count)) =
        map (\<lambda>t. fst (snd t)) (map (\<lambda>v. (v_id v, v_name v, Some (v_data v)))
          (results (generateMultipleTimetables env start cfg count)))"
    by simp
  also have "\<dots> = map (\<lambda>j. ''Version '' @ show_nat (Suc j))
      (filter (request_succeeds env cfg) [0..<count])"
    unfolding generate_results_shape by simp
  finally show ?thesis .
qed

lemma generate_results_data:
  "map (\<lambda>v. Some (v_data v)) (results (generateMultipleTimetables env start cfg count)) =
   map (success_data env cfg) (filter (request_succeeds env cfg) [0..<count])"
proof -
  have "map (\<lambda>v. Some (v_data v)) (results (generateMultipleTimetables env start cfg count)) =
        map (\<lambda>t. snd (snd t)) (map (\<lambda>v. (v_id v, v_name v, Some (v_data v)))
          (results (generateMultipleTimetables env start cfg count)))"
    by simp
  also have "\<dots> = map (success_data env cfg) (filter (request_succeeds env cfg) [0..<count])"
    unfolding generate_results_shape by simp
  finally show ?thesis .
qed

lemma click_then_complete:
  assumes "\<not> loading st"
  shows "generator_run (Some cfg) st [ClickGenerate, Completes (length (pending st)) env start] =
         Some (finish_generate (generateMultipleTimetables env start cfg (generationCount st))
                 (st\<lparr>loading := True, error := None, timetables := []\<rparr>))"
  using assms
  by (simp add: generator_step_def generate_disabled_def start_generate_def remove_nth_def
      nth_append)

text \<open>
  Claim C3. With a solver that answers every request, a batch of \<open>count \<ge> 1\<close> requests
  yields exactly \<open>count\<close> variants and no error; the variant at position \<open>i\<close> has id
  \<open>i + 1\<close> and name \<^verbatim>\<open>Version i+1\<close>, whatever the round trips' durations and the random
  draws are, and the component stores these variants without reporting an error.
\<close>

theorem generate_all_succeed_versions_in_order:
  assumes "\<forall>rq. \<exists>d. generateTimetable env rq = Inr d" and "1 \<le> count"
  shows "length (results (generateMultipleTimetables env start cfg count)) = count \<and>
         map v_id (results (generateMultipleTimetables env start cfg count)) = map Suc [0..<count] \<and>
         map v_name (results (generateMultipleTimetables env start cfg count)) =
           map (\<lambda>i. ''Version '' @ show_nat (i + 1)) [0..<count] \<and>
         errors (generateMultipleTimetables env start cfg count) = [] \<and>
         map_option timetables
           (generator_run (Some cfg) (initial_generator\<lparr>generationCount := count\<rparr>)
              [ClickGenerate, Completes 0 env start]) =
           Some (results (generateMultipleTimetables env start cfg count)) \<and>
         map_option error
           (generator_run (Some cfg) (initial_generator\<lparr>generationCount := count\<rparr>)
              [ClickGenerate, Completes 0 env start]) = Some None"
proof -
  have all: "request_succeeds env cfg i" for i
  proof -
    from assms(1) obtain d where "generateTimetable env (variation_request env cfg i) = Inr d"
      by blast
    then show ?thesis by (simp add: request_succeeds_def)
  qed
  have ids: "map v_id (results (generateMultipleTimetables env start cfg count)) = map Suc [0..<count]"
    by (simp add: generate_results_ids all)
  have len: "length (results (generateMultipleTimetables env start cfg count)) = count"
    using arg_cong [OF ids, of length] by simp
  have names: "map v_name (results (generateMultipleTimetables env start cfg count)) =
           map (\<lambda>i. ''Version '' @ show_nat (i + 1)) [0..<count]"
    by (simp add: generate_results_names all)
  have errs: "errors (generateMultipleTimetables env start cfg count) = []"
    by (simp add: generate_errors_shape all)
  have run: "generator_run (Some cfg) (initial_generator\<lparr>generationCount := count\<rparr>)
              [ClickGenerate, Completes 0 env start] =
        Some (finish_generate (generateMultipleTimetables env start cfg count)
                 (initial_generator\<lparr>generationCount := count, loading := True, error := None,
                    timetables := []\<rparr>))"
    using click_then_complete [of "initial_generator\<lparr>generationCount := count\<rparr>" cfg env start]
    by (simp add: initial_generator_def)
  from len assms(2) have nonempty: "length (results (generateMultipleTimetables env start cfg count)) \<noteq> 0"
    by simp
  show ?thesis
    unfolding run using ids len names errs nonempty
    by (simp add: finish_generate_def)
qed


text \<open>The batch of three of the specification, with the solver that always answers.\<close>

theorem generate_three_versions_example:
  "length (results (generateMultipleTimetables ok_env 0 cs_config 3)) = 3 \<and>
   map v_id (results (generateMultipleTimetables ok_env 0 cs_config 3)) = [1, 2, 3] \<and>
   map v_name (results (generateMultipleTimetables ok_env 0 cs_config 3)) =
     [''Version 1'', ''Version 2'', ''Version 3'']"
proof -
  have always: "\<forall>rq. \<exists>d. generateTimetable ok_env rq = Inr d"
    by (simp add: generateTimetable_def ok_env_def read_response_def ok_data_def)
  have count: "(1::nat) \<le> 3" by simp
  from generate_all_succeed_versions_in_order [OF always count, of 0 cs_config]
  show ?thesis
    by (simp add: upt_rec show_nat.simps digit_char_def)
qed

text \<open>
  Claim C4. In every batch the requests that succeed yield the variants, in order and
  with their own indices, and each request that fails yields one recorded error carrying
  its variation number and message; the two lists together account for every request.
  The component stores the variants and reports the batch as failed exactly when there is
  no variant at all.
\<close>

theorem generate_isolates_failed_requests:
  "map v_id (results (generateMultipleTimetables env start cfg count)) =
     map Suc (filter (request_succeeds env cfg) [0..<count]) \<and>
   map (\<lambda>v. Some (v_data v)) (results (generateMultipleTimetables env start cfg count)) =
     map (success_data env cfg) (filter (request_succeeds env cfg) [0..<count]) \<and>
   errors (generateMultipleTimetables env start cfg count) =
     map (\<lambda>j. \<lparr>ve_variation = Suc j, ve_error = failure_message env cfg j\<rparr>)
       (filter (\<lambda>j. \<not> request_succeeds env cfg j) [0..<count]) \<and>
   length (results (generateMultipleTimetables env start cfg count)) +
     length (errors (generateMultipleTimetables env start cfg count)) = count \<and>
   map_option timetables
     (generator_run (Some cfg) (initial_generator\<lparr>generationCount := count\<rparr>)
        [ClickGenerate, Completes 0 env start]) =
     Some (results (generateMultipleTimetables env start cfg count)) \<and>
   map_option error
     (generator_run (Some cfg) (initial_generator\<lparr>generationCount := count\<rparr>)
        [ClickGenerate, Completes 0 env start]) =
     Some (if results (generateMultipleTimetables env start cfg count) = []
           then Some ''No timetables could be generated'' else None)"
proof -
  have len: "length (results (generateMultipleTimetables env start cfg count)) +
     length (errors (generateMultipleTimetables env start cfg count)) = count"
  proof -
    have "length (results (generateMultipleTimetables env start cfg count)) =
          length (filter (request_succeeds env cfg) [0..<count])"
      using arg_cong [OF generate_results_ids [of env start cfg count], of length] by simp
    moreover have "length (errors (generateMultipleTimetables env start cfg count)) =
          length (filter (\<lambda>j. \<not> request_succeeds env cfg j) [0..<count])"
      by (simp add: generate_errors_shape)
    ultimately show ?thesis
      using sum_length_filter_compl [of "request_succeeds env cfg" "[0..<count]"] by simp
  qed
  have run: "generator_run (Some cfg) (initial_generator\<lparr>generationCount := count\<rparr>)
              [ClickGenerate, Completes 0 env start] =
        Some (finish_generate (generateMultipleTimetables env start cfg count)
                 (initial_generator\<lparr>generationCount := count, loading := True, error := None,
                    timetables := []\<rparr>))"
    using click_then_complete [of "initial_generator\<lparr>generationCount := count\<rparr>" cfg env start]
    by (simp add: initial_generator_def)
  have tts: "map_option timetables
     (generator_run (Some cfg) (initial_generator\<lparr>generationCount := count\<rparr>)
        [ClickGenerate, Completes 0 env start]) =
     Some (results (generateMultipleTimetables env start cfg count))"
    unfolding run by (simp add: finish_generate_def)
  have err: "map_option error
     (generator_run (Some cfg) (initial_generator\<lparr>generationCount := count\<rparr>)
        [ClickGenerate, Completes 0 env start]) =
     Some (if results (generateMultipleTimetables env start cfg count) = []
           then Some ''No timetables could be generated'' else None)"
    unfolding run by (simp add: finish_generate_def)
  show ?thesis
    using generate_results_ids [of env start cfg count]
      generate_results_data [of env start cfg count]
      generate_errors_shape [of env start cfg count] len tts err
    by blast
qed

text \<open>
  The batch of three whose second request fails: variants 1 and 3, one recorded error, and
  no failure reported.
\<close>

theorem second_request_fails_example:
  "map v_id (results (generateMultipleTimetables second_fails_env 0 cs_config 3)) = [1, 3] \<and>
   errors (generateMultipleTimetables second_fails_env 0 cs_config 3) =
     [\<lparr>ve_variation = 2, ve_error = ''HTTP 500: INTERNAL SERVER ERROR''\<rparr>] \<and>
   map_option error
     (generator_run (Some cs_config) (initial_generator\<lparr>generationCount := 3\<rparr>)
        [ClickGenerate, Completes 0 second_fails_env 0]) = Some None"
proof -
  have s0: "request_succeeds second_fails_env cs_config 0"
    and s1: "\<not> request_succeeds second_fails_env cs_config (Suc 0)"
    and s2: "request_succeeds second_fails_env cs_config (Suc (Suc 0))"
    and m1: "failure_message second_fails_env cs_config (Suc 0) = ''HTTP 500: INTERNAL SERVER ERROR''"
    by (simp_all add: request_succeeds_def failure_message_def generateTimetable_def
        variation_request_def second_fails_env_def ok_env_def read_response_def ok_data_def
        show_nat.simps digit_char_def)
  note isolated = generate_isolates_failed_requests [of second_fails_env 0 cs_config 3]
  from isolated have
    "map v_id (results (generateMultipleTimetables second_fails_env 0 cs_config 3)) =
       map Suc (filter (request_succeeds second_fails_env cs_config) [0..<3])"
    by (rule conjunct1)
  then have ids: "map v_id (results (generateMultipleTimetables second_fails_env 0 cs_config 3)) = [1, 3]"
    using s0 s1 s2 by (simp add: upt_rec)
  then have ne: "results (generateMultipleTimetables second_fails_env 0 cs_config 3) \<noteq> []"
    by auto
  from isolated have
    "errors (generateMultipleTimetables second_fails_env 0 cs_config 3) =
       map (\<lambda>j. \<lparr>ve_variation = Suc j, ve_error = failure_message second_fails_env cs_config j\<rparr>)
         (filter (\<lambda>j. \<not> request_succeeds second_fails_env cs_config j) [0..<3])"
    by blast
  then have errs: "errors (generateMultipleTimetables second_fails_env 0 cs_config 3) =
     [\<lparr>ve_variation = 2, ve_error = ''HTTP 500: INTERNAL SERVER ERROR''\<rparr>]"
    using s0 s1 s2 m1 by (simp add: upt_rec)
  from isolated have
    "map_option error
     (generator_run (Some cs_config) (initial_generator\<lparr>generationCount := 3\<rparr>)
        [ClickGenerate, Completes 0 second_fails_env 0]) =
     Some (if results (generateMultipleTimetables second_fails_env 0 cs_config 3) = []
           then Some ''No timetables could be generated'' else None)"
    by blast
  with ne have "map_option error
     (generator_run (Some cs_config) (initial_generator\<lparr>generationCount := 3\<rparr>)
        [ClickGenerate, Completes 0 second_fails_env 0]) = Some None"
    by (simp only: if_False)
  with ids errs show ?thesis by blast
qed

subsection \<open>Cell classification\<close>

lemma groupedData_single:
  "groupedData [e] = [(e_section e, [(e_day e, [(e_slot e, [e])])])]"
  by (simp add: groupedData_def group_step_def own_or_def Let_def)

text \<open>
  Claim C6. The three filters of a cell are meant to split its entries into lab, theory
  and workshop entries. When the owning class lists \<^verbatim>\<open>Workshop\<close> among its lab subjects, an
  entry with that subject passes both the lab filter and the workshop filter, so the cell
  shows it twice: the classification is not a partition there.
\<close>

theorem workshop_listed_as_lab_is_classified_twice:
  "renderCell workshop_lab_config (groupedData [workshop_entry]) ''CSE - A'' ''Monday'' ''9:00-9:55''
     = EntriesCell [workshop_entry] [] [workshop_entry] False"
  unfolding groupedData_single
  by (simp add: renderCell_def slotItems_def own_or_def workshop_entry_def workshop_lab_config_def
      empty_config_doc_def getSectionLabSubjects_def fullSectionNames_def template_str_def
      labs_of_def nonLabs_of_def workshops_of_def Let_def)

text \<open>
  When \<^verbatim>\<open>Workshop\<close> is not a lab subject of the class the three lists are disjoint and
  cover the cell.
\<close>

lemma classification_partition_without_workshop_lab:
  assumes "''Workshop'' \<notin> set ls"
  shows "set (labs_of ls items) \<inter> set (nonLabs_of ls items) = {} \<and>
         set (labs_of ls items) \<inter> set (workshops_of items) = {} \<and>
         set (nonLabs_of ls items) \<inter> set (workshops_of items) = {} \<and>
         set (labs_of ls items) \<union> set (nonLabs_of ls items) \<union> set (workshops_of items) = set items"
  using assms by (auto simp: labs_of_def nonLabs_of_def workshops_of_def)

section \<open>The generator component\<close>

lemma two_variants_reachable:
  "generator_run (Some cs_config) initial_generator [SelectCount 2, ClickGenerate, Completes 0 ok_env 0]
     = Some two_variants"
  by (simp add: generator_step_def generate_disabled_def start_generate_def finish_generate_def
      initial_generator_def two_variants_def remove_nth_def generateMultipleTimetables_def
      generate_loop.simps generate_body_def generateTimetable_def variation_request_def
      ok_env_def read_response_def ok_data_def show_nat.simps digit_char_def Let_def)

lemma drx_shown_in_two_variants:
  "teacher_shown (Some cs_config) two_variants ''Dr.X'' ''Monday'' ''9:00-9:55''"
  by (simp add: teacher_shown_def two_variants_def initial_generator_def ok_data_def
      groupedData_def group_step_def own_or_def object_keys_def cs_config_def empty_config_doc_def
      renderCell_def slotItems_def getSectionLabSubjects_def fullSectionNames_def template_str_def
      labs_of_def nonLabs_of_def workshops_of_def cell_offers_teacher_def drx_entry_def Let_def)

lemma reset_round_trip:
  assumes "teacher_shown inputData st teacher day slot"
  shows "generator_run inputData st
           [ClickTeacher teacher day slot, Completes (length (pending st)) env start] =
         Some (finish_reset (timetables st) (currentTimetable st)
                 (timetables st ! currentTimetable st)
                 (resetTeacher env inputData
                    (td_timetable (v_data (timetables st ! currentTimetable st))) teacher day slot)
                 (st\<lparr>loading := True\<rparr>))"
proof -
  from assms have sel: "currentTimetable st < length (timetables st)"
    by (auto simp: teacher_shown_def split: option.splits)
  then have ne: "length (timetables st) \<noteq> 0" by auto
  show ?thesis
    using assms sel ne
    by (simp add: generator_step_def start_reset_def remove_nth_def nth_append)
qed


subsection \<open>Completion of a teacher reset\<close>

lemma generator_run_append:
  "generator_run inputData st (xs @ ys) =
     (case generator_run inputData st xs of
        None \<Rightarrow> None
      | Some st' \<Rightarrow> generator_run inputData st' ys)"
  by (induction xs arbitrary: st) (auto split: option.splits)

lemma remove_nth_all: "list_all P xs \<Longrightarrow> list_all P (remove_nth k xs)"
  by (auto simp: remove_nth_def list_all_iff dest: in_set_takeD in_set_dropD)

lemma step_keeps_captured:
  assumes inv: "list_all captured_at_click (pending st)"
    and step: "generator_step inputData st ev = Some st'"
  shows "list_all captured_at_click (pending st')"
proof (cases ev)
  case ClickGenerate
  with step inv show ?thesis
    by (auto simp: generator_step_def start_generate_def captured_at_click_def
        split: if_splits option.splits)
next
  case (SelectCount n)
  with step inv show ?thesis
    by (auto simp: generator_step_def split: if_splits)
next
  case (SelectTab i)
  with step inv show ?thesis
    by (auto simp: generator_step_def split: if_splits)
next
  case (ClickTeacher teacher day slot)
  with step inv show ?thesis
    by (auto simp: generator_step_def start_reset_def captured_at_click_def split: if_splits)
next
  case (Completes k env start)
  from remove_nth_all [OF inv, of k] step Completes show ?thesis
    by (auto simp: generator_step_def finish_generate_def finish_reset_def
        split: if_splits pending_op.splits sum.splits)
qed

lemma run_keeps_captured:
  "list_all captured_at_click (pending st) \<Longrightarrow> generator_run inputData st evs = Some st' \<Longrightarrow>
   list_all captured_at_click (pending st')"
proof (induction evs arbitrary: st)
  case Nil
  then show ?case by simp
next
  case (Cons ev evs)
  from Cons.prems(2) obtain st1 where step: "generator_step inputData st ev = Some st1"
    and rest: "generator_run inputData st1 evs = Some st'"
    by (auto split: option.splits)
  from Cons.IH [OF step_keeps_captured [OF Cons.prems(1) step] rest] show ?case .
qed

lemma reachable_pending_captured:
  assumes "generator_run inputData initial_generator evs = Some st"
    and "k < length (pending st)"
    and "pending st ! k = PendingReset cfg captured index v teacher day slot"
  shows "index < length captured \<and> v = captured ! index"
proof -
  have "list_all captured_at_click (pending initial_generator)"
    by (simp add: initial_generator_def)
  from run_keeps_captured [OF this assms(1)] assms(2)
  have "captured_at_click (pending st ! k)"
    by (simp add: list_all_length)
  with assms(3) show ?thesis
    by (simp add: captured_at_click_def)
qed

text \<open>
  The click records the list, the selection and the selected variant of its render.
\<close>

lemma click_captures_selection:
  assumes "teacher_shown inputData st teacher day slot"
  shows "generator_step inputData st (ClickTeacher teacher day slot) =
         Some (st\<lparr>loading := True,
                  pending := pending st @
                    [PendingReset inputData (timetables st) (currentTimetable st)
                       (timetables st ! currentTimetable st) teacher day slot]\<rparr>)"
proof -
  from assms have "currentTimetable st < length (timetables st)"
    by (auto simp: teacher_shown_def split: option.splits)
  with assms show ?thesis
    by (auto simp: generator_step_def start_reset_def)
qed

text \<open>
  Whenever an outstanding reset comes back with an answer, in any reachable state, the
  list becomes the list captured at the click with the variant at the captured index
  updated, and the selection stays where it is.
\<close>

lemma reset_completion:
  assumes run: "generator_run inputData initial_generator evs = Some st"
    and k: "k < length (pending st)"
    and op: "pending st ! k = PendingReset cfg captured index v teacher day slot"
    and answered: "resetTeacher env cfg (td_timetable (v_data v)) teacher day slot = Inr resetResult"
  shows "generator_step inputData st (Completes k env start) =
           Some (st\<lparr>pending := remove_nth k (pending st),
                    timetables := captured[index := updated_variant (captured ! index) resetResult],
                    loading := False\<rparr>) \<and>
         index < length captured"
proof -
  from reachable_pending_captured [OF run k op]
  have "index < length captured" and "v = captured ! index" by simp_all
  with k op answered show ?thesis
    by (simp add: generator_step_def finish_reset_def)
qed

text \<open>
  So, when the list has not changed since the click, the answer changes the entries and
  the name of the clicked variant and nothing else.
\<close>

lemma reset_on_unchanged_list:
  assumes run: "generator_run inputData initial_generator evs = Some st"
    and k: "k < length (pending st)"
    and op: "pending st ! k = PendingReset cfg captured index v teacher day slot"
    and answered: "resetTeacher env cfg (td_timetable (v_data v)) teacher day slot = Inr resetResult"
    and unchanged: "timetables st = captured"
  shows "\<exists>st'. generator_step inputData st (Completes k env start) = Some st' \<and>
           length (timetables st') = length (timetables st) \<and>
           currentTimetable st' = currentTimetable st \<and>
           (\<forall>j < length (timetables st). j \<noteq> index \<longrightarrow> timetables st' ! j = timetables st ! j) \<and>
           td_timetable (v_data (timetables st' ! index)) = td_timetable resetResult \<and>
           v_name (timetables st' ! index) = v_name (timetables st ! index) @ '' (Modified)'' \<and>
           td_statistics (v_data (timetables st' ! index)) =
             td_statistics (v_data (timetables st ! index)) \<and>
           td_unfulfilled (v_data (timetables st' ! index)) =
             td_unfulfilled (v_data (timetables st ! index)) \<and>
           td_validation_warnings (v_data (timetables st' ! index)) =
             td_validation_warnings (v_data (timetables st ! index)) \<and>
           v_id (timetables st' ! index) = v_id (timetables st ! index) \<and>
           generated_at (timetables st' ! index) = generated_at (timetables st ! index)"
  using reset_completion [OF run k op answered, of start] unchanged
  by (simp add: updated_variant_def)

lemma awaiting_reset_reachable:
  "generator_run (Some cs_config) initial_generator
     [SelectCount 2, ClickGenerate, Completes 0 ok_env 0,
      ClickTeacher ''Dr.X'' ''Monday'' ''9:00-9:55'', SelectTab 1] = Some awaiting_reset"
proof -
  have "generator_run (Some cs_config) two_variants
          [ClickTeacher ''Dr.X'' ''Monday'' ''9:00-9:55'', SelectTab 1] = Some awaiting_reset"
    using click_captures_selection [OF drx_shown_in_two_variants]
    by (simp add: generator_step_def awaiting_reset_def two_variants_def initial_generator_def)
  with two_variants_reachable
    generator_run_append [of "Some cs_config" initial_generator
      "[SelectCount 2, ClickGenerate, Completes 0 ok_env 0]"
      "[ClickTeacher ''Dr.X'' ''Monday'' ''9:00-9:55'', SelectTab 1]"]
  show ?thesis by simp
qed

text \<open>
  Claim C9. The handler copies the list \<^verbatim>\<open>timetables\<close> of the render in which the
  teacher was clicked, assigns the updated variant at the index of that render and stores
  the copy. The teacher names and the tabs stay active while a reset is outstanding, so
  two resets can be outstanding on two variants. Here two variants are generated, Dr.X is
  clicked on the first, the second tab is selected, Dr.X is clicked on the second, and
  both resets are answered. After the first answer the first variant is
  \<^verbatim>\<open>Version 1 (Modified)\<close> with the returned entry. The second answer is for the
  selected variant, and it stores the list of its own click, in which the first variant
  is still \<^verbatim>\<open>Version 1\<close> with the entry it had: the other variant does not stay as it
  was, and the result of the first reset is lost.
\<close>

theorem second_reset_reverts_first_variant:
  "map_option (\<lambda>st. (map v_name (timetables st), td_timetable (v_data (timetables st ! 0))))
     (generator_run (Some cs_config) initial_generator
        ([SelectCount 2, ClickGenerate, Completes 0 ok_env 0] @ take 4 crossing_resets)) =
     Some ([''Version 1 (Modified)'', ''Version 2''], Some [drx_entry_later]) \<and>
   map_option (\<lambda>st. (currentTimetable st, pending st))
     (generator_run (Some cs_config) initial_generator
        ([SelectCount 2, ClickGenerate, Completes 0 ok_env 0] @ take 4 crossing_resets)) =
     Some (1, [PendingReset (Some cs_config) (timetables two_variants) 1
                 (timetables two_variants ! 1) ''Dr.X'' ''Monday'' ''9:00-9:55'']) \<and>
   map_option (\<lambda>st. (map v_name (timetables st), td_timetable (v_data (timetables st ! 0))))
     (generator_run (Some cs_config) initial_generator
        ([SelectCount 2, ClickGenerate, Completes 0 ok_env 0] @ crossing_resets)) =
     Some ([''Version 1'', ''Version 2 (Modified)''], Some [drx_entry]) \<and>
   map_option (\<lambda>st. timetables st ! 0)
     (generator_run (Some cs_config) initial_generator
        ([SelectCount 2, ClickGenerate, Completes 0 ok_env 0] @ crossing_resets)) =
     Some (timetables two_variants ! 0)"
proof -
  have shown2: "teacher_shown (Some cs_config) awaiting_reset ''Dr.X'' ''Monday'' ''9:00-9:55''"
    by (simp add: teacher_shown_def awaiting_reset_def two_variants_def initial_generator_def
        ok_data_def groupedData_def group_step_def own_or_def object_keys_def cs_config_def
        empty_config_doc_def renderCell_def slotItems_def getSectionLabSubjects_def
        fullSectionNames_def template_str_def labs_of_def nonLabs_of_def workshops_of_def
        cell_offers_teacher_def drx_entry_def Let_def)
  have answered: "resetTeacher ok_env (Some cs_config) (td_timetable (v_data (timetables two_variants ! j)))
      ''Dr.X'' ''Monday'' ''9:00-9:55'' = Inr reset_data" for j
    by (simp add: resetTeacher_def ok_env_def read_response_def reset_data_def)
  have two: "generator_run (Some cs_config) two_variants (take 2 crossing_resets) = Some awaiting_reset"
    using click_captures_selection [OF drx_shown_in_two_variants]
    by (simp add: crossing_resets_def generator_step_def awaiting_reset_def two_variants_def
        initial_generator_def)
  have rest4: "take 4 crossing_resets = take 2 crossing_resets @ take 2 (drop 2 crossing_resets)"
    by (simp add: crossing_resets_def)
  have four: "generator_run (Some cs_config) awaiting_reset (take 2 (drop 2 crossing_resets)) =
      Some (awaiting_reset
              \<lparr>timetables := (timetables two_variants)[0 := updated_variant (timetables two_variants ! 0) reset_data],
               loading := False,
               pending := [PendingReset (Some cs_config) (timetables two_variants) 1
                             (timetables two_variants ! 1) ''Dr.X'' ''Monday'' ''9:00-9:55'']\<rparr>)"
    using click_captures_selection [OF shown2] answered [of 0]
    by (simp add: crossing_resets_def generator_step_def finish_reset_def remove_nth_def
        awaiting_reset_def)
  have five: "generator_run (Some cs_config) awaiting_reset (drop 2 crossing_resets) =
      Some (awaiting_reset
              \<lparr>timetables := (timetables two_variants)[1 := updated_variant (timetables two_variants ! 1) reset_data],
               loading := False, pending := []\<rparr>)"
    using click_captures_selection [OF shown2] answered [of 0] answered [of 1]
    by (simp add: crossing_resets_def generator_step_def finish_reset_def remove_nth_def
        awaiting_reset_def)
  have from_two4: "generator_run (Some cs_config) two_variants (take 4 crossing_resets) =
      Some (awaiting_reset
              \<lparr>timetables := (timetables two_variants)[0 := updated_variant (timetables two_variants ! 0) reset_data],
               loading := False,
               pending := [PendingReset (Some cs_config) (timetables two_variants) 1
                             (timetables two_variants ! 1) ''Dr.X'' ''Monday'' ''9:00-9:55'']\<rparr>)"
    unfolding rest4
    by (subst generator_run_append) (simp only: two four option.case)
  have from_two5: "generator_run (Some cs_config) two_variants crossing_resets =
      Some (awaiting_reset
              \<lparr>timetables := (timetables two_variants)[1 := updated_variant (timetables two_variants ! 1) reset_data],
               loading := False, pending := []\<rparr>)"
    using generator_run_append [of "Some cs_config" two_variants "take 2 crossing_resets"
        "drop 2 crossing_resets"]
    by (simp only: append_take_drop_id two five option.case)
  have run4: "generator_run (Some cs_config) initial_generator
        ([SelectCount 2, ClickGenerate, Completes 0 ok_env 0] @ take 4 crossing_resets) =
      Some (awaiting_reset
              \<lparr>timetables := (timetables two_variants)[0 := updated_variant (timetables two_variants ! 0) reset_data],
               loading := False,
               pending := [PendingReset (Some cs_config) (timetables two_variants) 1
                             (timetables two_variants ! 1) ''Dr.X'' ''Monday'' ''9:00-9:55'']\<rparr>)"
    by (subst generator_run_append) (simp only: two_variants_reachable from_two4 option.case)
  have run5: "generator_run (Some cs_config) initial_generator
        ([SelectCount 2, ClickGenerate, Completes 0 ok_env 0] @ crossing_resets) =
      Some (awaiting_reset
              \<lparr>timetables := (timetables two_variants)[1 := updated_variant (timetables two_variants ! 1) reset_data],
               loading := False, pending := []\<rparr>)"
    by (subst generator_run_append) (simp only: two_variants_reachable from_two5 option.case)
  show ?thesis
    unfolding run4 run5
    by (simp add: awaiting_reset_def updated_variant_def two_variants_def initial_generator_def
        ok_data_def reset_data_def)
qed

text \<open>
  Claim C5, as stated, asks the client to compare the returned entries with the previous
  ones and to mark the entries of the teacher that changed slot. The client makes no such
  comparison. Here the variant holds Dr.X on Monday at 9:00-9:55, the solver returns that
  entry at 9:55-10:50 without any mark, and the entry stored and displayed has neither
  \<^verbatim>\<open>moved\<close> nor \<^verbatim>\<open>moved_from\<close>.
\<close>

theorem reset_leaves_moved_entry_unmarked:
  "selected_entries (Some two_variants) = [drx_entry] \<and>
   e_teacher drx_entry = ''Dr.X'' \<and> e_slot drx_entry = ''9:00-9:55'' \<and>
   selected_entries
     (generator_run (Some cs_config) two_variants
        [ClickTeacher ''Dr.X'' ''Monday'' ''9:00-9:55'', Completes 0 ok_env 0]) = [drx_entry_later] \<and>
   e_teacher drx_entry_later = ''Dr.X'' \<and> e_slot drx_entry_later = ''9:55-10:50'' \<and>
   e_moved drx_entry_later = None \<and> e_moved_from drx_entry_later = None"
proof -
  have "generator_run (Some cs_config) two_variants
          [ClickTeacher ''Dr.X'' ''Monday'' ''9:00-9:55'', Completes 0 ok_env 0] =
        Some (finish_reset (timetables two_variants) 0 (timetables two_variants ! 0)
                (Inr reset_data) (two_variants\<lparr>loading := True\<rparr>))"
    using reset_round_trip [OF drx_shown_in_two_variants, of ok_env 0]
    by (simp add: two_variants_def initial_generator_def resetTeacher_def ok_env_def
        read_response_def reset_data_def)
  then show ?thesis
    by (simp add: selected_entries_def finish_reset_def updated_variant_def two_variants_def
        initial_generator_def ok_data_def reset_data_def drx_entry_later_def drx_entry_def)
qed

text \<open>
  Claim C5, amended. Whenever the solver answers an outstanding reset, in any state the
  component can reach and whichever variant is selected by then, the entries of the
  variant at the index captured at the click are the entries of the solver's response,
  each one as it was sent: an entry carries \<^verbatim>\<open>moved\<close> and \<^verbatim>\<open>moved_from\<close> exactly as the
  solver set them.
\<close>

theorem reset_stores_solver_entries_at_clicked_variant:
  assumes run: "generator_run inputData initial_generator evs = Some st"
    and k: "k < length (pending st)"
    and op: "pending st ! k = PendingReset cfg captured index v teacher day slot"
    and answered: "resetTeacher env cfg (td_timetable (v_data v)) teacher day slot = Inr resetResult"
  shows "\<exists>st'. generator_step inputData st (Completes k env start) = Some st' \<and>
           index < length (timetables st') \<and>
           td_timetable (v_data (timetables st' ! index)) = td_timetable resetResult"
  using reset_completion [OF run k op answered, of start]
  by (simp add: updated_variant_def)

text \<open>
  A solver that does mark the entry, answering after the second tab has been selected: the
  first variant, where the teacher was clicked, holds the entry with the mark that was
  sent, and the selected variant holds what it held.
\<close>

theorem reset_keeps_solver_marks_example:
  "generator_run (Some cs_config) initial_generator
     [SelectCount 2, ClickGenerate, Completes 0 ok_env 0,
      ClickTeacher ''Dr.X'' ''Monday'' ''9:00-9:55'', SelectTab 1] = Some awaiting_reset \<and>
   map_option (\<lambda>st'. td_timetable (v_data (timetables st' ! 0)))
     (generator_step (Some cs_config) awaiting_reset (Completes 0 marking_env 0)) =
     Some (Some [marked_entry]) \<and>
   e_moved marked_entry = Some True \<and> e_moved_from marked_entry = Some ''9:00-9:55'' \<and>
   selected_entries (generator_step (Some cs_config) awaiting_reset (Completes 0 marking_env 0)) =
     [drx_entry]"
proof -
  let ?marked = "reset_data\<lparr>td_timetable := Some [marked_entry]\<rparr>"
  have k: "0 < length (pending awaiting_reset)"
    and op: "pending awaiting_reset ! 0 =
        PendingReset (Some cs_config) (timetables two_variants) 0 (timetables two_variants ! 0)
          ''Dr.X'' ''Monday'' ''9:00-9:55''"
    by (simp_all add: awaiting_reset_def)
  have answered: "resetTeacher marking_env (Some cs_config)
      (td_timetable (v_data (timetables two_variants ! 0))) ''Dr.X'' ''Monday'' ''9:00-9:55'' =
      Inr ?marked"
    by (simp add: resetTeacher_def marking_env_def ok_env_def read_response_def reset_data_def)
  from reset_stores_solver_entries_at_clicked_variant
    [OF awaiting_reset_reachable k op answered, of 0]
  obtain st' where step: "generator_step (Some cs_config) awaiting_reset (Completes 0 marking_env 0) = Some st'"
    and stored: "td_timetable (v_data (timetables st' ! 0)) = Some [marked_entry]"
    by auto
  from step k op answered have "st' = finish_reset (timetables two_variants) 0
      (timetables two_variants ! 0) (Inr ?marked) (awaiting_reset\<lparr>pending := []\<rparr>)"
    by (simp add: generator_step_def remove_nth_def awaiting_reset_def)
  then have selected: "selected_entries (Some st') = [drx_entry]"
    by (simp add: selected_entries_def finish_reset_def awaiting_reset_def two_variants_def
        initial_generator_def ok_data_def)
  show ?thesis
    unfolding step using awaiting_reset_reachable stored selected
    by (simp add: marked_entry_def)
qed

text \<open>
  Claim C7. The generate button is disabled while the loading flag is up, and the flag
  is the only guard. The flag is shared with the teacher reset, whose \<^verbatim>\<open>finally\<close> lowers
  it whatever else is outstanding. From the initial state: two variants are generated,
  two resets are started, the first reset returns (flag down), a batch is started (flag
  up), the second reset returns (flag down while the batch is outstanding), and a second
  batch is started: two batches are in flight.
\<close>

theorem second_batch_starts_while_first_outstanding:
  "map_option batches_in_flight
     (generator_run (Some cs_config) initial_generator
        ([SelectCount 2, ClickGenerate, Completes 0 ok_env 0] @ overlapping_resets)) = Some 2 \<and>
   map_option loading
     (generator_run (Some cs_config) initial_generator
        ([SelectCount 2, ClickGenerate, Completes 0 ok_env 0] @ take 5 overlapping_resets)) =
     Some False \<and>
   map_option batches_in_flight
     (generator_run (Some cs_config) initial_generator
        ([SelectCount 2, ClickGenerate, Completes 0 ok_env 0] @ take 5 overlapping_resets)) = Some 1"
proof -
  have run_append: "generator_run c s (xs @ ys) =
      (case generator_run c s xs of None \<Rightarrow> None | Some s' \<Rightarrow> generator_run c s' ys)" for c s xs ys
    by (induction xs arbitrary: s) (auto split: option.splits)
  have shown2: "teacher_shown (Some cs_config) (start_reset (Some cs_config) two_variants ''Dr.X'' ''Monday'' ''9:00-9:55'')
      ''Dr.X'' ''Monday'' ''9:00-9:55''"
    using drx_shown_in_two_variants
    by (simp add: teacher_shown_def start_reset_def two_variants_def initial_generator_def)
  have answered: "resetTeacher ok_env (Some cs_config) (td_timetable (v_data (timetables two_variants ! 0)))
      ''Dr.X'' ''Monday'' ''9:00-9:55'' = Inr reset_data"
    by (simp add: resetTeacher_def ok_env_def read_response_def reset_data_def)
  have five: "generator_run (Some cs_config) two_variants (take 5 overlapping_resets) =
      Some (two_variants\<lparr>timetables := (timetables two_variants)[0 := updated_variant (timetables two_variants ! 0) reset_data],
              loading := False, pending := [PendingGenerate cs_config 2]\<rparr>)"
    using drx_shown_in_two_variants shown2 answered
    by (simp add: overlapping_resets_def generator_step_def start_reset_def finish_reset_def
        start_generate_def generate_disabled_def remove_nth_def two_variants_def
        initial_generator_def)
  have six: "generator_run (Some cs_config) two_variants overlapping_resets =
      Some (two_variants\<lparr>timetables := [], loading := True,
              pending := [PendingGenerate cs_config 2, PendingGenerate cs_config 2]\<rparr>)"
    using drx_shown_in_two_variants shown2 answered
    by (simp add: overlapping_resets_def generator_step_def start_reset_def finish_reset_def
        start_generate_def generate_disabled_def remove_nth_def two_variants_def
        initial_generator_def)
  show ?thesis
    unfolding run_append two_variants_reachable
    by (simp add: five six batches_in_flight_def is_generate_def)
qed

text \<open>
  While the flag is up the button does not reach the handler, and without teacher resets
  there is never more than one batch in flight.
\<close>

lemma generate_rejected_while_loading:
  "loading st \<Longrightarrow> generator_step inputData st ClickGenerate = None"
  by (simp add: generator_step_def generate_disabled_def)

lemma guard_step:
  assumes inv: "pending st = [] \<or> (loading st \<and> (\<exists>cfg n. pending st = [PendingGenerate cfg n]))"
    and noclick: "\<forall>t d s. ev \<noteq> ClickTeacher t d s"
    and step: "generator_step inputData st ev = Some st'"
  shows "pending st' = [] \<or> (loading st' \<and> (\<exists>cfg n. pending st' = [PendingGenerate cfg n]))"
proof (cases ev)
  case ClickGenerate
  with step have nl: "\<not> loading st" and some: "inputData \<noteq> None"
    and st': "st' = start_generate inputData st"
    by (auto simp: generator_step_def generate_disabled_def split: if_splits)
  from inv nl have "pending st = []" by auto
  with st' some show ?thesis
    by (auto simp: start_generate_def split: option.splits)
next
  case (SelectCount n)
  with step inv show ?thesis
    by (auto simp: generator_step_def split: if_splits)
next
  case (SelectTab i)
  with step inv show ?thesis
    by (auto simp: generator_step_def split: if_splits)
next
  case (ClickTeacher t d s)
  with noclick show ?thesis by blast
next
  case (Completes k env start)
  with step have k: "k < length (pending st)"
    by (auto simp: generator_step_def split: if_splits)
  with inv obtain cfg n where p: "pending st = [PendingGenerate cfg n]" and k0: "k = 0"
    by auto
  with step Completes have "pending st' = []"
    by (auto simp: generator_step_def remove_nth_def finish_generate_def split: if_splits)
  then show ?thesis by simp
qed

lemma one_batch_without_resets:
  assumes "\<forall>ev \<in> set evs. \<forall>t d s. ev \<noteq> ClickTeacher t d s"
    and "generator_run inputData initial_generator evs = Some st"
  shows "batches_in_flight st \<le> 1"
proof -
  have "pending s = [] \<or> (loading s \<and> (\<exists>cfg n. pending s = [PendingGenerate cfg n])) \<Longrightarrow>
        \<forall>ev \<in> set evs. \<forall>t d s. ev \<noteq> ClickTeacher t d s \<Longrightarrow>
        generator_run inputData s evs = Some st \<Longrightarrow>
        pending st = [] \<or> (loading st \<and> (\<exists>cfg n. pending st = [PendingGenerate cfg n]))" for s
  proof (induction evs arbitrary: s)
    case Nil
    then show ?case by simp
  next
    case (Cons ev evs)
    from Cons.prems(3) obtain s1 where step: "generator_step inputData s ev = Some s1"
      and rest: "generator_run inputData s1 evs = Some st"
      by (auto split: option.splits)
    from Cons.prems(2) have "\<forall>t d s. ev \<noteq> ClickTeacher t d s" by simp
    from guard_step [OF Cons.prems(1) this step] Cons.prems(2) rest
    show ?case by (intro Cons.IH) auto
  qed
  from this [of initial_generator] assms
  have "pending st = [] \<or> (loading st \<and> (\<exists>cfg n. pending st = [PendingGenerate cfg n]))"
    by (simp add: initial_generator_def)
  then show ?thesis
    by (auto simp: batches_in_flight_def)
qed

section \<open>Import of a configuration\<close>

text \<open>
  Claim C8, as stated, makes the import fill missing fields with the form's defaults. The
  import stores the parsed document as it is. Importing the empty document leaves the
  configuration without working days, while the default has five.
\<close>

theorem import_empty_document_keeps_fields_absent:
  "a_inputData (fst (import_config (Parsed (Some empty_config_doc)) initial_app)) =
     Some empty_config_doc \<and>
   d_days empty_config_doc = None \<and> d_slots empty_config_doc = None \<and>
   d_constraints empty_config_doc = None \<and> d_lab_capacity empty_config_doc = None \<and>
   d_days default_config_doc = Some default_days \<and> length default_days = 5"
  by (simp add: import_config_def handleInputDataChange_def empty_config_doc_def
      default_config_doc_def default_days_def Let_def)

text \<open>
  Claim C8, amended. For every imported text that parses, the configuration becomes the
  parsed document itself: a field the document lacks stays absent, and a field the form
  does not know stays in it. No alert is raised and the input step is shown. The defaults
  are the initial state of the form only.
\<close>

theorem import_stores_document_verbatim:
  "a_inputData (fst (import_config (Parsed importedData) st)) = importedData \<and>
   snd (import_config (Parsed importedData) st) = None \<and>
   currentStep (fst (import_config (Parsed importedData) st)) = InputStep \<and>
   import_config ParseError st = (st, Some ''Failed to import configuration: Invalid JSON file'')"
  by (simp add: import_config_def handleInputDataChange_def Let_def)

section \<open>The form\<close>

lemma maths_session_result:
  "form_session props maths_session =
     Inr \<lparr>fr_state = initial_inputData
            \<lparr>f_classes := [empty_class\<lparr>c_subjects := [''Maths'']\<rparr>],
             f_teachers := [(''Maths'', \<lparr>oid = 3, elems = [''Dr.X'']\<rparr>)],
             next_oid := 4\<rparr>,
           fr_onInputChange_calls = []\<rparr>"
  by (simp add: form_session_def form_mount_def maths_session_def form_step_def offered_def
      apply_event_def changes_classes_def render_ok_def sync_effect_def
      getAllSubjects_def getAllLabSubjects_def getAllTeachers_def add_teacher_names_def
      set_add_def trim_def is_ws_def
      add_missing_roster_def add_missing_lab_def remove_stale_def object_keys_def
      js_get_def js_truthy_def readable_def object_prototype_keys_def
      lab_panel_shown_def named_labs_def canonical_def roster_def rows_shown_def subjects_of_def
      addSubjectToClass_def updateClassSubject_def removeSubjectFromClass_def updateTeacher_def
      store_teachers_def update_subjects_def map_at_def remove_nth_def
      initial_inputData_def empty_class_def Let_def)

subsection \<open>The loops of the effect\<close>

lemma delete_as_filter: "AList.delete k obj = filter (\<lambda>kv. fst kv \<noteq> k) obj"
  by (induction obj) auto

lemma remove_loop_filter:
  "fold (\<lambda>subject obj'. if subject \<notin> S then AList.delete subject obj' else obj') ks obj =
   filter (\<lambda>kv. fst kv \<in> S \<or> fst kv \<notin> set ks) obj"
proof (induction ks arbitrary: obj)
  case Nil
  then show ?case by simp
next
  case (Cons k ks)
  show ?case
    by (auto simp: Cons.IH delete_as_filter intro: filter_cong)
qed

lemma remove_stale_filter:
  "remove_stale subjects obj = filter (\<lambda>kv. fst kv \<in> set subjects) obj"
  unfolding remove_stale_def object_keys_def remove_loop_filter
  by (rule filter_cong) auto

lemma truthy_iff: "js_truthy (js_get obj k) \<longleftrightarrow> k \<in> fst ` set obj \<or> k \<in> set object_prototype_keys"
proof (cases "map_of obj k")
  case None
  then have "k \<notin> fst ` set obj" by (simp add: map_of_eq_None_iff)
  with None show ?thesis by (simp add: js_truthy_def js_get_def)
next
  case (Some v)
  then have "k \<in> fst ` set obj" by (metis map_of_eq_None_iff option.distinct(1))
  with Some show ?thesis by (simp add: js_truthy_def js_get_def)
qed

lemma readable_iff: "readable obj k \<longleftrightarrow> k \<in> fst ` set obj \<or> k \<notin> set object_prototype_keys"
proof (cases "map_of obj k")
  case None
  then have "k \<notin> fst ` set obj" by (simp add: map_of_eq_None_iff)
  with None show ?thesis by (simp add: readable_def js_get_def)
next
  case (Some v)
  then have "k \<in> fst ` set obj" by (metis map_of_eq_None_iff option.distinct(1))
  with Some show ?thesis by (simp add: readable_def js_get_def)
qed

lemma undefined_iff:
  "js_get obj k = Undefined \<longleftrightarrow> k \<notin> fst ` set obj \<and> k \<notin> set object_prototype_keys"
proof (cases "map_of obj k")
  case None
  then have "k \<notin> fst ` set obj" by (simp add: map_of_eq_None_iff)
  with None show ?thesis by (simp add: js_get_def)
next
  case (Some v)
  then have "k \<in> fst ` set obj" by (metis map_of_eq_None_iff option.distinct(1))
  with Some show ?thesis by (simp add: js_get_def)
qed

lemma add_roster_step_keys:
  "fst ` set (snd (add_missing_roster s p)) =
   fst ` set (snd p) \<union> (if s \<in> set object_prototype_keys then {} else {s})"
  by (cases p) (auto simp: add_missing_roster_def truthy_iff AList.dom_update)

lemma add_roster_keys:
  "fst ` set (snd (fold add_missing_roster ss p)) =
   fst ` set (snd p) \<union> {s \<in> set ss. s \<notin> set object_prototype_keys}"
proof (induction ss arbitrary: p)
  case Nil
  then show ?case by simp
next
  case (Cons s ss)
  show ?case
    unfolding fold_simps Cons.IH add_roster_step_keys by auto
qed

lemma add_roster_step_keeps:
  assumes "map_of (snd p) k = Some v"
  shows "map_of (snd (add_missing_roster s p)) k = Some v"
proof (cases "s = k")
  case True
  from assms have "k \<in> fst ` set (snd p)" by (metis map_of_eq_None_iff option.distinct(1))
  with True have "js_truthy (js_get (snd p) s)" by (simp add: truthy_iff)
  with assms show ?thesis by (cases p) (simp add: add_missing_roster_def)
next
  case False
  with assms show ?thesis
    by (cases p) (simp add: add_missing_roster_def AList.update_conv')
qed

lemma add_roster_keeps:
  "map_of (snd p) k = Some v \<Longrightarrow> map_of (snd (fold add_missing_roster ss p)) k = Some v"
  by (induction ss arbitrary: p) (simp_all add: add_roster_step_keeps)

lemma add_roster_noop:
  "\<forall>s \<in> set ss. js_truthy (js_get (snd p) s) \<Longrightarrow> fold add_missing_roster ss p = p"
  by (induction ss) (auto simp: add_missing_roster_def split: prod.splits)

lemma add_roster_step_counter: "fst p \<le> fst (add_missing_roster s p)"
  by (cases p) (simp add: add_missing_roster_def)

lemma add_roster_fresh:
  "k \<in> set ss \<Longrightarrow> js_get (snd p) k = Undefined \<Longrightarrow>
   \<exists>m \<ge> fst p. map_of (snd (fold add_missing_roster ss p)) k = Some \<lparr>oid = m, elems = [[]]\<rparr>"
proof (induction ss arbitrary: p)
  case Nil
  then show ?case by simp
next
  case (Cons s ss)
  show ?case
  proof (cases "s = k")
    case True
    with Cons.prems have "map_of (snd (add_missing_roster s p)) k = Some \<lparr>oid = fst p, elems = [[]]\<rparr>"
      by (cases p) (simp add: add_missing_roster_def js_truthy_def AList.update_conv')
    from add_roster_keeps [OF this, of ss] show ?thesis
      by auto
  next
    case False
    with Cons.prems have k: "k \<in> set ss" by simp
    from False Cons.prems(2) have "js_get (snd (add_missing_roster s p)) k = Undefined"
      unfolding undefined_iff add_roster_step_keys by auto
    from Cons.IH [OF k this] add_roster_step_counter [of p s] show ?thesis
      by (auto intro: order_trans)
  qed
qed

lemma add_lab_step_keys:
  "fst ` set (fst (snd (add_missing_lab s p))) =
     fst ` set (fst (snd p)) \<union> (if s \<in> set object_prototype_keys then {} else {s}) \<and>
   fst ` set (snd (snd (add_missing_lab s p))) =
     fst ` set (snd (snd p)) \<union> (if s \<in> set object_prototype_keys then {} else {s})"
  by (cases p)
    (auto simp: add_missing_lab_def add_missing_roster_def truthy_iff AList.dom_update
      split: prod.splits)

lemma add_lab_keys:
  "fst ` set (fst (snd (fold add_missing_lab ss p))) =
     fst ` set (fst (snd p)) \<union> {s \<in> set ss. s \<notin> set object_prototype_keys} \<and>
   fst ` set (snd (snd (fold add_missing_lab ss p))) =
     fst ` set (snd (snd p)) \<union> {s \<in> set ss. s \<notin> set object_prototype_keys}"
proof (induction ss arbitrary: p)
  case Nil
  then show ?case by simp
next
  case (Cons s ss)
  show ?case
    unfolding fold_simps using Cons.IH [of "add_missing_lab s p"] add_lab_step_keys [of s p]
    by auto
qed

lemma add_lab_step_keeps_teachers:
  assumes "map_of (fst (snd p)) k = Some v"
  shows "map_of (fst (snd (add_missing_lab s p))) k = Some v"
proof -
  obtain n lt lr where p: "p = (n, lt, lr)" by (cases p)
  with assms have "map_of (snd (add_missing_roster s (n, lt))) k = Some v"
    using add_roster_step_keeps [of "(n, lt)" k v s] by simp
  with p show ?thesis
    by (auto simp: add_missing_lab_def split: prod.splits)
qed

lemma add_lab_step_keeps_rooms:
  assumes "map_of (snd (snd p)) k = Some v"
  shows "map_of (snd (snd (add_missing_lab s p))) k = Some v"
proof (cases "s = k")
  case True
  from assms have "k \<in> fst ` set (snd (snd p))" by (metis map_of_eq_None_iff option.distinct(1))
  with True have "js_truthy (js_get (snd (snd p)) s)" by (simp add: truthy_iff)
  with assms show ?thesis
    by (cases p) (simp add: add_missing_lab_def split: prod.splits)
next
  case False
  with assms show ?thesis
    by (cases p) (simp add: add_missing_lab_def AList.update_conv' split: prod.splits)
qed

lemma add_lab_keeps:
  "map_of (fst (snd p)) k = Some v \<Longrightarrow> map_of (fst (snd (fold add_missing_lab ss p))) k = Some v"
  "map_of (snd (snd p)) k = Some w \<Longrightarrow> map_of (snd (snd (fold add_missing_lab ss p))) k = Some w"
  by (induction ss arbitrary: p)
    (simp_all add: add_lab_step_keeps_teachers add_lab_step_keeps_rooms)

lemma add_lab_noop:
  "\<forall>s \<in> set ss. js_truthy (js_get (fst (snd p)) s) \<and> js_truthy (js_get (snd (snd p)) s) \<Longrightarrow>
   fold add_missing_lab ss p = p"
  by (induction ss)
    (auto simp: add_missing_lab_def add_missing_roster_def split: prod.splits)

lemma add_lab_step_counter: "fst p \<le> fst (add_missing_lab s p)"
  by (cases p) (simp add: add_missing_lab_def add_missing_roster_def split: prod.splits)

lemma add_lab_fresh_teachers:
  "k \<in> set ss \<Longrightarrow> js_get (fst (snd p)) k = Undefined \<Longrightarrow>
   \<exists>m \<ge> fst p. map_of (fst (snd (fold add_missing_lab ss p))) k = Some \<lparr>oid = m, elems = [[]]\<rparr>"
proof (induction ss arbitrary: p)
  case Nil
  then show ?case by simp
next
  case (Cons s ss)
  show ?case
  proof (cases "s = k")
    case True
    with Cons.prems have "map_of (fst (snd (add_missing_lab s p))) k = Some \<lparr>oid = fst p, elems = [[]]\<rparr>"
      by (cases p)
        (simp add: add_missing_lab_def add_missing_roster_def js_truthy_def AList.update_conv'
          split: prod.splits)
    from add_lab_keeps(1) [OF this, of ss] show ?thesis
      by auto
  next
    case False
    with Cons.prems have k: "k \<in> set ss" by simp
    from False Cons.prems(2) have "js_get (fst (snd (add_missing_lab s p))) k = Undefined"
      unfolding undefined_iff using add_lab_step_keys [of s p] by auto
    from Cons.IH [OF k this] add_lab_step_counter [of p s] show ?thesis
      by (auto intro: order_trans)
  qed
qed

lemma add_lab_fresh_rooms:
  "k \<in> set ss \<Longrightarrow> js_get (snd (snd p)) k = Undefined \<Longrightarrow>
   \<exists>m \<ge> fst p. map_of (snd (snd (fold add_missing_lab ss p))) k = Some \<lparr>oid = m, elems = []\<rparr>"
proof (induction ss arbitrary: p)
  case Nil
  then show ?case by simp
next
  case (Cons s ss)
  show ?case
  proof (cases "s = k")
    case True
    with Cons.prems have "\<exists>m \<ge> fst p. map_of (snd (snd (add_missing_lab s p))) k = Some \<lparr>oid = m, elems = []\<rparr>"
      by (cases p)
        (auto simp: add_missing_lab_def add_missing_roster_def js_truthy_def AList.update_conv'
          split: prod.splits)
    then obtain m where m: "m \<ge> fst p"
      and "map_of (snd (snd (add_missing_lab s p))) k = Some \<lparr>oid = m, elems = []\<rparr>"
      by blast
    from add_lab_keeps(2) [OF this(2), of ss] m show ?thesis
      by auto
  next
    case False
    with Cons.prems have k: "k \<in> set ss" by simp
    from False Cons.prems(2) have "js_get (snd (snd (add_missing_lab s p))) k = Undefined"
      unfolding undefined_iff using add_lab_step_keys [of s p] by auto
    from Cons.IH [OF k this] add_lab_step_counter [of p s] show ?thesis
      by (auto intro: order_trans)
  qed
qed

subsection \<open>The effect as a whole\<close>

lemma sync_effect_unfold:
  "sync_effect st =
     st\<lparr>f_teachers :=
          filter (\<lambda>kv. fst kv \<in> set (getAllSubjects st))
            (snd (fold add_missing_roster (getAllSubjects st) (next_oid st, f_teachers st))),
        f_lab_teachers :=
          filter (\<lambda>kv. fst kv \<in> set (getAllLabSubjects st))
            (fst (snd (fold add_missing_lab (getAllLabSubjects st)
               (fst (fold add_missing_roster (getAllSubjects st) (next_oid st, f_teachers st)),
                f_lab_teachers st, f_lab_rooms st)))),
        f_lab_rooms :=
          filter (\<lambda>kv. fst kv \<in> set (getAllLabSubjects st))
            (snd (snd (fold add_missing_lab (getAllLabSubjects st)
               (fst (fold add_missing_roster (getAllSubjects st) (next_oid st, f_teachers st)),
                f_lab_teachers st, f_lab_rooms st)))),
        next_oid :=
          fst (fold add_missing_lab (getAllLabSubjects st)
               (fst (fold add_missing_roster (getAllSubjects st) (next_oid st, f_teachers st)),
                f_lab_teachers st, f_lab_rooms st))\<rparr>"
  by (simp add: sync_effect_def Let_def remove_stale_filter split: prod.splits)

lemma sync_canonical [simp]:
  "getAllSubjects (sync_effect st) = getAllSubjects st"
  "getAllLabSubjects (sync_effect st) = getAllLabSubjects st"
  "f_classes (sync_effect st) = f_classes st"
  by (simp_all add: sync_effect_unfold getAllSubjects_def getAllLabSubjects_def)

lemma keys_of_filter:
  "fst ` set (filter (\<lambda>kv. fst kv \<in> S) xs) = fst ` set xs \<inter> S"
  by auto

lemma sync_teachers_eq:
  "f_teachers (sync_effect st) =
     filter (\<lambda>kv. fst kv \<in> set (getAllSubjects st))
       (snd (fold add_missing_roster (getAllSubjects st) (next_oid st, f_teachers st)))"
  by (simp add: sync_effect_unfold)

lemma sync_lab_teachers_eq:
  "f_lab_teachers (sync_effect st) =
     filter (\<lambda>kv. fst kv \<in> set (getAllLabSubjects st))
       (fst (snd (fold add_missing_lab (getAllLabSubjects st)
          (fst (fold add_missing_roster (getAllSubjects st) (next_oid st, f_teachers st)),
           f_lab_teachers st, f_lab_rooms st))))"
  by (simp add: sync_effect_unfold)

lemma sync_lab_rooms_eq:
  "f_lab_rooms (sync_effect st) =
     filter (\<lambda>kv. fst kv \<in> set (getAllLabSubjects st))
       (snd (snd (fold add_missing_lab (getAllLabSubjects st)
          (fst (fold add_missing_roster (getAllSubjects st) (next_oid st, f_teachers st)),
           f_lab_teachers st, f_lab_rooms st))))"
  by (simp add: sync_effect_unfold)

lemma sync_keys:
  "fst ` set (f_teachers (sync_effect st)) =
     {s \<in> set (getAllSubjects st). s \<in> fst ` set (f_teachers st) \<or> s \<notin> set object_prototype_keys}"
  "fst ` set (f_lab_teachers (sync_effect st)) =
     {s \<in> set (getAllLabSubjects st). s \<in> fst ` set (f_lab_teachers st) \<or> s \<notin> set object_prototype_keys}"
  "fst ` set (f_lab_rooms (sync_effect st)) =
     {s \<in> set (getAllLabSubjects st). s \<in> fst ` set (f_lab_rooms st) \<or> s \<notin> set object_prototype_keys}"
proof -
  show "fst ` set (f_teachers (sync_effect st)) =
     {s \<in> set (getAllSubjects st). s \<in> fst ` set (f_teachers st) \<or> s \<notin> set object_prototype_keys}"
    unfolding sync_teachers_eq keys_of_filter add_roster_keys by auto
  show "fst ` set (f_lab_teachers (sync_effect st)) =
     {s \<in> set (getAllLabSubjects st). s \<in> fst ` set (f_lab_teachers st) \<or> s \<notin> set object_prototype_keys}"
    unfolding sync_lab_teachers_eq keys_of_filter
    using add_lab_keys [of "getAllLabSubjects st"] by auto
  show "fst ` set (f_lab_rooms (sync_effect st)) =
     {s \<in> set (getAllLabSubjects st). s \<in> fst ` set (f_lab_rooms st) \<or> s \<notin> set object_prototype_keys}"
    unfolding sync_lab_rooms_eq keys_of_filter
    using add_lab_keys [of "getAllLabSubjects st"] by auto
qed

lemma map_of_filter_keys:
  "map_of (filter (\<lambda>kv. fst kv \<in> S) xs) k = (if k \<in> S then map_of xs k else None)"
  by (induction xs) auto

lemma sync_keeps:
  "k \<in> set (getAllSubjects st) \<Longrightarrow> map_of (f_teachers st) k = Some v \<Longrightarrow>
     map_of (f_teachers (sync_effect st)) k = Some v"
  "k \<in> set (getAllLabSubjects st) \<Longrightarrow> map_of (f_lab_teachers st) k = Some v \<Longrightarrow>
     map_of (f_lab_teachers (sync_effect st)) k = Some v"
  "k \<in> set (getAllLabSubjects st) \<Longrightarrow> map_of (f_lab_rooms st) k = Some v \<Longrightarrow>
     map_of (f_lab_rooms (sync_effect st)) k = Some v"
  unfolding sync_effect_unfold
  by (simp_all add: map_of_filter_keys add_roster_keeps add_lab_keeps)

lemma sync_removes:
  "k \<notin> set (getAllSubjects st) \<Longrightarrow> map_of (f_teachers (sync_effect st)) k = None"
  "k \<notin> set (getAllLabSubjects st) \<Longrightarrow> map_of (f_lab_teachers (sync_effect st)) k = None"
  "k \<notin> set (getAllLabSubjects st) \<Longrightarrow> map_of (f_lab_rooms (sync_effect st)) k = None"
  unfolding sync_effect_unfold
  by (simp_all add: map_of_filter_keys)

lemma add_roster_counter: "fst p \<le> fst (fold add_missing_roster ss p)"
proof (induction ss arbitrary: p)
  case Nil
  then show ?case by simp
next
  case (Cons s ss)
  from Cons.IH [of "add_missing_roster s p"] add_roster_step_counter [of p s]
  show ?case by simp
qed

lemma sync_fresh:
  "k \<in> set (getAllSubjects st) \<Longrightarrow> js_get (f_teachers st) k = Undefined \<Longrightarrow>
     \<exists>m \<ge> next_oid st. map_of (f_teachers (sync_effect st)) k = Some \<lparr>oid = m, elems = [[]]\<rparr>"
  "k \<in> set (getAllLabSubjects st) \<Longrightarrow> js_get (f_lab_teachers st) k = Undefined \<Longrightarrow>
     \<exists>m \<ge> next_oid st. map_of (f_lab_teachers (sync_effect st)) k = Some \<lparr>oid = m, elems = [[]]\<rparr>"
  "k \<in> set (getAllLabSubjects st) \<Longrightarrow> js_get (f_lab_rooms st) k = Undefined \<Longrightarrow>
     \<exists>m \<ge> next_oid st. map_of (f_lab_rooms (sync_effect st)) k = Some \<lparr>oid = m, elems = []\<rparr>"
proof -
  let ?n1 = "fst (fold add_missing_roster (getAllSubjects st) (next_oid st, f_teachers st))"
  have n1: "next_oid st \<le> ?n1"
    using add_roster_counter [of "(next_oid st, f_teachers st)" "getAllSubjects st"] by simp
  show "k \<in> set (getAllSubjects st) \<Longrightarrow> js_get (f_teachers st) k = Undefined \<Longrightarrow>
     \<exists>m \<ge> next_oid st. map_of (f_teachers (sync_effect st)) k = Some \<lparr>oid = m, elems = [[]]\<rparr>"
    using add_roster_fresh [of k "getAllSubjects st" "(next_oid st, f_teachers st)"]
    unfolding sync_effect_unfold by (simp add: map_of_filter_keys)
  show "k \<in> set (getAllLabSubjects st) \<Longrightarrow> js_get (f_lab_teachers st) k = Undefined \<Longrightarrow>
     \<exists>m \<ge> next_oid st. map_of (f_lab_teachers (sync_effect st)) k = Some \<lparr>oid = m, elems = [[]]\<rparr>"
    using add_lab_fresh_teachers [of k "getAllLabSubjects st" "(?n1, f_lab_teachers st, f_lab_rooms st)"] n1
    unfolding sync_effect_unfold by (auto simp: map_of_filter_keys intro: order_trans)
  show "k \<in> set (getAllLabSubjects st) \<Longrightarrow> js_get (f_lab_rooms st) k = Undefined \<Longrightarrow>
     \<exists>m \<ge> next_oid st. map_of (f_lab_rooms (sync_effect st)) k = Some \<lparr>oid = m, elems = []\<rparr>"
    using add_lab_fresh_rooms [of k "getAllLabSubjects st" "(?n1, f_lab_teachers st, f_lab_rooms st)"] n1
    unfolding sync_effect_unfold by (auto simp: map_of_filter_keys intro: order_trans)
qed

lemma sync_fixpoint:
  assumes t: "fst ` set (f_teachers st) \<subseteq> set (getAllSubjects st)"
    and lt: "fst ` set (f_lab_teachers st) \<subseteq> set (getAllLabSubjects st)"
    and lr: "fst ` set (f_lab_rooms st) \<subseteq> set (getAllLabSubjects st)"
    and tt: "\<forall>s \<in> set (getAllSubjects st). js_truthy (js_get (f_teachers st) s)"
    and tl: "\<forall>s \<in> set (getAllLabSubjects st).
               js_truthy (js_get (f_lab_teachers st) s) \<and> js_truthy (js_get (f_lab_rooms st) s)"
  shows "sync_effect st = st"
proof -
  have a: "fold add_missing_roster (getAllSubjects st) (next_oid st, f_teachers st) =
           (next_oid st, f_teachers st)"
    using tt by (intro add_roster_noop) simp
  have b: "fold add_missing_lab (getAllLabSubjects st) (next_oid st, f_lab_teachers st, f_lab_rooms st) =
           (next_oid st, f_lab_teachers st, f_lab_rooms st)"
    using tl by (intro add_lab_noop) simp
  have c: "filter (\<lambda>kv. fst kv \<in> set (getAllSubjects st)) (f_teachers st) = f_teachers st"
    using t by (intro filter_True) auto
  have d: "filter (\<lambda>kv. fst kv \<in> set (getAllLabSubjects st)) (f_lab_teachers st) = f_lab_teachers st"
    using lt by (intro filter_True) auto
  have e: "filter (\<lambda>kv. fst kv \<in> set (getAllLabSubjects st)) (f_lab_rooms st) = f_lab_rooms st"
    using lr by (intro filter_True) auto
  show ?thesis
    by (subst sync_effect_unfold) (simp add: a b c d e)
qed

lemma sync_idempotent: "sync_effect (sync_effect st) = sync_effect st"
proof (rule sync_fixpoint)
  show "fst ` set (f_teachers (sync_effect st)) \<subseteq> set (getAllSubjects (sync_effect st))"
    unfolding sync_keys by auto
  show "fst ` set (f_lab_teachers (sync_effect st)) \<subseteq> set (getAllLabSubjects (sync_effect st))"
    unfolding sync_keys by auto
  show "fst ` set (f_lab_rooms (sync_effect st)) \<subseteq> set (getAllLabSubjects (sync_effect st))"
    unfolding sync_keys by auto
  show "\<forall>s \<in> set (getAllSubjects (sync_effect st)). js_truthy (js_get (f_teachers (sync_effect st)) s)"
    unfolding truthy_iff sync_keys by auto
  show "\<forall>s \<in> set (getAllLabSubjects (sync_effect st)).
          js_truthy (js_get (f_lab_teachers (sync_effect st)) s) \<and>
          js_truthy (js_get (f_lab_rooms (sync_effect st)) s)"
    unfolding truthy_iff sync_keys by auto
qed

lemma key_present: "k \<in> set (object_keys obj) \<longleftrightarrow> k \<in> fst ` set obj"
  by (simp add: object_keys_def)

text \<open>
  Claim C2. Running the effect on its own result changes nothing: the maps, their
  values and the allocation counter are the same. A key that is in a map before the
  effect and after it maps to the same array afterwards, with the same identity and the
  same elements.
\<close>

theorem sync_idempotent_and_value_preserving:
  "sync_effect (sync_effect st) = sync_effect st \<and>
   (\<forall>k v. map_of (f_teachers st) k = Some v \<and>
           k \<in> set (object_keys (f_teachers (sync_effect st))) \<longrightarrow>
           map_of (f_teachers (sync_effect st)) k = Some v) \<and>
   (\<forall>k v. map_of (f_lab_teachers st) k = Some v \<and>
           k \<in> set (object_keys (f_lab_teachers (sync_effect st))) \<longrightarrow>
           map_of (f_lab_teachers (sync_effect st)) k = Some v) \<and>
   (\<forall>k v. map_of (f_lab_rooms st) k = Some v \<and>
           k \<in> set (object_keys (f_lab_rooms (sync_effect st))) \<longrightarrow>
           map_of (f_lab_rooms (sync_effect st)) k = Some v)"
proof (intro conjI allI impI)
  show "sync_effect (sync_effect st) = sync_effect st"
    by (rule sync_idempotent)
next
  fix k v
  assume "map_of (f_teachers st) k = Some v \<and> k \<in> set (object_keys (f_teachers (sync_effect st)))"
  then have "map_of (f_teachers st) k = Some v" and "k \<in> set (getAllSubjects st)"
    unfolding key_present sync_keys by auto
  then show "map_of (f_teachers (sync_effect st)) k = Some v"
    by (simp add: sync_keeps)
next
  fix k v
  assume "map_of (f_lab_teachers st) k = Some v \<and> k \<in> set (object_keys (f_lab_teachers (sync_effect st)))"
  then have "map_of (f_lab_teachers st) k = Some v" and "k \<in> set (getAllLabSubjects st)"
    unfolding key_present sync_keys by auto
  then show "map_of (f_lab_teachers (sync_effect st)) k = Some v"
    by (simp add: sync_keeps)
next
  fix k v
  assume "map_of (f_lab_rooms st) k = Some v \<and> k \<in> set (object_keys (f_lab_rooms (sync_effect st)))"
  then have "map_of (f_lab_rooms st) k = Some v" and "k \<in> set (getAllLabSubjects st)"
    unfolding key_present sync_keys by auto
  then show "map_of (f_lab_rooms (sync_effect st)) k = Some v"
    by (simp add: sync_keeps)
qed

subsection \<open>The key sets along a session\<close>

lemma class_edit_keeps_maps:
  assumes "changes_classes ev" and "apply_event ev st = Inr st1"
  shows "f_teachers st1 = f_teachers st \<and> f_lab_teachers st1 = f_lab_teachers st \<and>
         f_lab_rooms st1 = f_lab_rooms st"
  using assms
  by (cases ev)
    (auto simp: changes_classes_def apply_event_def addClass_def removeClass_def updateClass_def
      addSubjectToClass_def updateClassSubject_def removeSubjectFromClass_def
      addSectionToClass_def updateSection_def removeSectionFromClass_def)

lemma sync_establishes_keys:
  assumes ok: "render_ok st" and inh: "no_inherited_names (f_lab_teachers st)"
  shows "keys_match (sync_effect st) \<and> no_inherited_names (f_lab_teachers (sync_effect st))"
proof -
  from ok have t: "\<forall>s \<in> set (getAllSubjects st).
      s \<in> fst ` set (f_teachers st) \<or> s \<notin> set object_prototype_keys"
    and l: "\<forall>s \<in> set (getAllLabSubjects st).
      s \<in> fst ` set (f_lab_teachers st) \<or> s \<notin> set object_prototype_keys"
    by (simp_all add: render_ok_def list_all_iff readable_iff)
  from inh have none: "\<forall>s \<in> fst ` set (f_lab_teachers st). s \<notin> set object_prototype_keys"
    by (auto simp: no_inherited_names_def object_keys_def)
  with l have plain: "\<forall>s \<in> set (getAllLabSubjects st). s \<notin> set object_prototype_keys"
    by blast
  have "set (object_keys (f_teachers (sync_effect st))) = set (getAllSubjects st)"
    unfolding object_keys_def set_map sync_keys using t by auto
  moreover have "set (object_keys (f_lab_teachers (sync_effect st))) = set (getAllLabSubjects st)"
    unfolding object_keys_def set_map sync_keys using l by auto
  moreover have "set (object_keys (f_lab_rooms (sync_effect st))) = set (getAllLabSubjects st)"
    unfolding object_keys_def set_map sync_keys using plain by auto
  moreover have "no_inherited_names (f_lab_teachers (sync_effect st))"
    unfolding no_inherited_names_def object_keys_def set_map sync_keys using none by auto
  ultimately show ?thesis
    by (simp add: keys_match_def)
qed

lemma own_key: "js_get obj k = Own a \<Longrightarrow> k \<in> fst ` set obj"
  by (auto simp: js_get_def split: option.splits if_splits dest: map_of_SomeD intro: rev_image_eqI)

lemma update_present_keys:
  "k \<in> fst ` set obj \<Longrightarrow> fst ` set (AList.update k v obj) = fst ` set obj"
  by (auto simp: AList.dom_update)

lemma canonical_cong:
  "f_classes st1 = f_classes st \<Longrightarrow>
   getAllSubjects st1 = getAllSubjects st \<and> getAllLabSubjects st1 = getAllLabSubjects st"
  by (simp add: getAllSubjects_def getAllLabSubjects_def)

lemma store_teachers_keys:
  assumes "subject \<in> fst ` set (roster isLab st)"
  shows "f_classes (store_teachers isLab subject xs st) = f_classes st \<and>
         fst ` set (f_teachers (store_teachers isLab subject xs st)) = fst ` set (f_teachers st) \<and>
         fst ` set (f_lab_teachers (store_teachers isLab subject xs st)) = fst ` set (f_lab_teachers st) \<and>
         f_lab_rooms (store_teachers isLab subject xs st) = f_lab_rooms st"
  using assms
  by (auto simp: store_teachers_def roster_def Let_def AList.dom_update)

lemma store_lab_rooms_keys:
  assumes "labSubject \<in> fst ` set (f_lab_rooms st)"
  shows "f_classes (store_lab_rooms labSubject xs st) = f_classes st \<and>
         f_teachers (store_lab_rooms labSubject xs st) = f_teachers st \<and>
         f_lab_teachers (store_lab_rooms labSubject xs st) = f_lab_teachers st \<and>
         fst ` set (f_lab_rooms (store_lab_rooms labSubject xs st)) = fst ` set (f_lab_rooms st)"
  using assms
  by (auto simp: store_lab_rooms_def AList.dom_update)

lemma canonical_is_key:
  assumes "keys_match st" and "subject \<in> set (canonical isLab st)"
  shows "subject \<in> fst ` set (roster isLab st)"
  using assms by (auto simp: keys_match_def canonical_def roster_def object_keys_def)

lemma lab_subject_is_key:
  assumes "keys_match st" and "labSubject \<in> set (getAllLabSubjects st)"
  shows "labSubject \<in> fst ` set (f_lab_rooms st)"
  using assms by (auto simp: keys_match_def object_keys_def)

lemma update_rooms_keeps:
  "f_classes (update_rooms isLab f st) = f_classes st \<and>
   f_teachers (update_rooms isLab f st) = f_teachers st \<and>
   f_lab_teachers (update_rooms isLab f st) = f_lab_teachers st \<and>
   f_lab_rooms (update_rooms isLab f st) = f_lab_rooms st"
  by (simp add: update_rooms_def)

lemma other_event_keeps_keys:
  assumes other: "\<not> changes_classes ev" and off: "offered st ev"
    and ap: "apply_event ev st = Inr st1" and km: "keys_match st"
  shows "f_classes st1 = f_classes st \<and>
         fst ` set (f_teachers st1) = fst ` set (f_teachers st) \<and>
         fst ` set (f_lab_teachers st1) = fst ` set (f_lab_teachers st) \<and>
         fst ` set (f_lab_rooms st1) = fst ` set (f_lab_rooms st)"
proof (cases ev)
  case (ToggleLabRoomAssignment labSubject labRoom)
  with off have "labSubject \<in> set (getAllLabSubjects st)" by (simp add: offered_def)
  note key = lab_subject_is_key [OF km this]
  from ap ToggleLabRoomAssignment obtain xs where "st1 = store_lab_rooms labSubject xs st"
    by (auto simp: apply_event_def toggleLabRoomAssignment_def split: js_lookup.splits)
  with store_lab_rooms_keys [OF key, of xs] show ?thesis by simp
next
  case (SelectAllLabRooms labSubject)
  with off have "labSubject \<in> set (getAllLabSubjects st)" by (simp add: offered_def)
  note key = lab_subject_is_key [OF km this]
  from ap SelectAllLabRooms obtain xs where "st1 = store_lab_rooms labSubject xs st"
    by (auto simp: apply_event_def selectAllLabRooms_def)
  with store_lab_rooms_keys [OF key, of xs] show ?thesis by simp
next
  case (ClearAllLabRooms labSubject)
  with off have "labSubject \<in> set (getAllLabSubjects st)" by (simp add: offered_def)
  note key = lab_subject_is_key [OF km this]
  from ap ClearAllLabRooms obtain xs where "st1 = store_lab_rooms labSubject xs st"
    by (auto simp: apply_event_def clearAllLabRooms_def)
  with store_lab_rooms_keys [OF key, of xs] show ?thesis by simp
next
  case (AddTeacher subject isLab)
  with off have "subject \<in> set (canonical isLab st)" by (simp add: offered_def)
  note key = canonical_is_key [OF km this]
  from ap AddTeacher obtain xs where "st1 = store_teachers isLab subject xs st"
    by (auto simp: apply_event_def addTeacher_def split: js_lookup.splits)
  with store_teachers_keys [OF key, of xs] show ?thesis by simp
next
  case (UpdateTeacher subject i v isLab)
  with off have "subject \<in> set (canonical isLab st)" by (simp add: offered_def)
  note key = canonical_is_key [OF km this]
  from ap UpdateTeacher obtain xs where "st1 = store_teachers isLab subject xs st"
    by (auto simp: apply_event_def updateTeacher_def split: js_lookup.splits)
  with store_teachers_keys [OF key, of xs] show ?thesis by simp
next
  case (RemoveTeacher subject i isLab)
  with off have "subject \<in> set (canonical isLab st)" by (simp add: offered_def)
  note key = canonical_is_key [OF km this]
  from ap RemoveTeacher obtain xs where "st1 = store_teachers isLab subject xs st"
    by (auto simp: apply_event_def removeTeacher_def split: js_lookup.splits)
  with store_teachers_keys [OF key, of xs] show ?thesis by simp
qed (use other ap in \<open>auto simp: changes_classes_def apply_event_def
      addRoom_def updateRoom_def removeRoom_def update_rooms_keeps
      addTimeSlot_def updateTimeSlot_def removeTimeSlot_def update_day_def
      addTeacherUnavailability_def updateTeacherUnavailability_def
      removeTeacherUnavailability_def removeTeacherFromUnavailability_def
      updateNestedState_def set_lab_capacity_def set_lecture_requirement_def
      generateTimetable_placeholder_def split: js_lookup.splits\<close>)

lemma form_step_keeps_invariant:
  assumes inv: "keys_match st \<and> no_inherited_names (f_lab_teachers st)"
    and step: "form_step props st ev = Inr r"
  shows "keys_match (fr_state r) \<and> no_inherited_names (f_lab_teachers (fr_state r))"
proof -
  from step obtain st1 where off: "offered st ev" and ap: "apply_event ev st = Inr st1"
    and ok1: "render_ok st1"
    by (auto simp: form_step_def Let_def split: if_splits sum.splits)
  show ?thesis
  proof (cases "changes_classes ev")
    case True
    with step ap ok1 have r: "fr_state r = sync_effect st1"
      by (auto simp: form_step_def Let_def split: if_splits sum.splits)
    from class_edit_keeps_maps [OF True ap] inv
    have "no_inherited_names (f_lab_teachers st1)" by simp
    from sync_establishes_keys [OF ok1 this] r show ?thesis by simp
  next
    case False
    with step ap ok1 have r: "fr_state r = st1"
      by (auto simp: form_step_def Let_def split: if_splits sum.splits)
    from inv have km: "keys_match st" by simp
    note same = other_event_keeps_keys [OF False off ap km]
    from same canonical_cong [of st1 st] km inv show ?thesis
      unfolding r by (simp add: keys_match_def no_inherited_names_def object_keys_def)
  qed
qed

lemma form_run_keeps_invariant:
  "keys_match (fr_state r0) \<and> no_inherited_names (f_lab_teachers (fr_state r0)) \<Longrightarrow>
   form_run props r0 evs = Inr r \<Longrightarrow>
   keys_match (fr_state r) \<and> no_inherited_names (f_lab_teachers (fr_state r))"
proof (induction evs arbitrary: r0)
  case Nil
  then show ?case by simp
next
  case (Cons ev evs)
  from Cons.prems(2) obtain r1 where step: "form_step props (fr_state r0) ev = Inr r1"
    and rest: "form_run props
        (r1\<lparr>fr_onInputChange_calls := fr_onInputChange_calls r0 @ fr_onInputChange_calls r1\<rparr>) evs = Inr r"
    by (auto split: sum.splits)
  from form_step_keeps_invariant [OF Cons.prems(1) step]
  have "keys_match (fr_state (r1\<lparr>fr_onInputChange_calls := fr_onInputChange_calls r0 @ fr_onInputChange_calls r1\<rparr>)) \<and>
        no_inherited_names (f_lab_teachers (fr_state (r1\<lparr>fr_onInputChange_calls := fr_onInputChange_calls r0 @ fr_onInputChange_calls r1\<rparr>)))"
    by simp
  from Cons.IH [OF this rest] show ?case .
qed

lemma mounted_form:
  "form_mount props = Inr initial_inputData"
  by (simp add: form_mount_def render_ok_def sync_effect_def getAllSubjects_def
      getAllLabSubjects_def getAllTeachers_def add_teacher_names_def remove_stale_def
      object_keys_def lab_panel_shown_def initial_inputData_def empty_class_def Let_def)

lemma session_keys_match:
  assumes "form_session props evs = Inr r"
  shows "keys_match (fr_state r)"
proof -
  have "keys_match initial_inputData \<and> no_inherited_names (f_lab_teachers initial_inputData)"
    by (simp add: keys_match_def no_inherited_names_def object_keys_def getAllSubjects_def
        getAllLabSubjects_def initial_inputData_def empty_class_def)
  with assms form_run_keeps_invariant
    [of "\<lparr>fr_state = initial_inputData, fr_onInputChange_calls = []\<rparr>" props evs r]
  show ?thesis
    by (simp add: form_session_def mounted_form)
qed

subsection \<open>The canonical sets\<close>

lemma set_add_set: "set (foldl set_add acc xs) = set acc \<union> set xs"
  by (induction xs arbitrary: acc) (auto simp: set_add_def)

lemma set_add_distinct: "distinct acc \<Longrightarrow> distinct (foldl set_add acc xs)"
  by (induction xs arbitrary: acc) (auto simp: set_add_def)

lemma collect_set:
  "set (foldl (\<lambda>subjects classItem. foldl set_add subjects (sel classItem)) acc cs) =
   set acc \<union> (\<Union>c \<in> set cs. set (sel c))"
  by (induction cs arbitrary: acc) (auto simp: set_add_set)

lemma collect_distinct:
  "distinct acc \<Longrightarrow>
   distinct (foldl (\<lambda>subjects classItem. foldl set_add subjects (sel classItem)) acc cs)"
  by (induction cs arbitrary: acc) (auto simp: set_add_distinct)

lemma canonical_sets_characterised:
  "distinct (getAllSubjects st) \<and> distinct (getAllLabSubjects st) \<and>
   set (getAllSubjects st) =
     {s. (\<exists>c \<in> set (f_classes st). s \<in> set (c_subjects c)) \<and> trim s \<noteq> []} \<and>
   set (getAllLabSubjects st) =
     {s. (\<exists>c \<in> set (f_classes st). s \<in> set (c_lab_subjects c)) \<and> trim s \<noteq> []}"
  unfolding getAllSubjects_def getAllLabSubjects_def
  by (auto simp: collect_set collect_distinct)

lemma renamed_subject_synced:
  "sync_effect renamed_subject =
     renamed_subject\<lparr>f_teachers := [(''Maths'', \<lparr>oid = 3, elems = [''Dr.X'']\<rparr>),
                                     (''Physics'', \<lparr>oid = 4, elems = [[]]\<rparr>)],
                     next_oid := 5\<rparr>"
  by (simp add: sync_effect_def renamed_subject_def initial_inputData_def empty_class_def
      getAllSubjects_def getAllLabSubjects_def set_add_def trim_def is_ws_def
      add_missing_roster_def add_missing_lab_def remove_stale_def object_keys_def
      js_get_def js_truthy_def object_prototype_keys_def Let_def)

text \<open>
  Claim C1. After any session of the form that does not end in an error (the mount
  followed by any events the form offers, each followed by the effect when it changes the
  classes), the keys of the teacher map are exactly the canonical theory subjects, and the
  keys of the lab teacher map and of the lab room map are exactly the canonical lab
  subjects. The canonical lists have no duplicates and hold the subjects of the classes
  that are not blank. In every run of the effect, a canonical subject that the map does
  not have gets a newly allocated array (one empty text in a roster, no element in a lab
  room list), and a key that is not canonical is not in the map afterwards.
\<close>

theorem session_keys_are_canonical:
  assumes "form_session props evs = Inr r"
  shows "set (object_keys (f_teachers (fr_state r))) = set (getAllSubjects (fr_state r)) \<and>
         set (object_keys (f_lab_teachers (fr_state r))) = set (getAllLabSubjects (fr_state r)) \<and>
         set (object_keys (f_lab_rooms (fr_state r))) = set (getAllLabSubjects (fr_state r)) \<and>
         distinct (getAllSubjects st) \<and> distinct (getAllLabSubjects st) \<and>
         set (getAllSubjects st) =
           {s. (\<exists>c \<in> set (f_classes st). s \<in> set (c_subjects c)) \<and> trim s \<noteq> []} \<and>
         set (getAllLabSubjects st) =
           {s. (\<exists>c \<in> set (f_classes st). s \<in> set (c_lab_subjects c)) \<and> trim s \<noteq> []} \<and>
         (\<forall>k. k \<in> set (getAllSubjects st) \<and> js_get (f_teachers st) k = Undefined \<longrightarrow>
              (\<exists>m \<ge> next_oid st.
                 map_of (f_teachers (sync_effect st)) k = Some \<lparr>oid = m, elems = [[]]\<rparr>)) \<and>
         (\<forall>k. k \<in> set (getAllLabSubjects st) \<and> js_get (f_lab_teachers st) k = Undefined \<longrightarrow>
              (\<exists>m \<ge> next_oid st.
                 map_of (f_lab_teachers (sync_effect st)) k = Some \<lparr>oid = m, elems = [[]]\<rparr>)) \<and>
         (\<forall>k. k \<in> set (getAllLabSubjects st) \<and> js_get (f_lab_rooms st) k = Undefined \<longrightarrow>
              (\<exists>m \<ge> next_oid st.
                 map_of (f_lab_rooms (sync_effect st)) k = Some \<lparr>oid = m, elems = []\<rparr>)) \<and>
         (\<forall>k. k \<notin> set (getAllSubjects st) \<longrightarrow> map_of (f_teachers (sync_effect st)) k = None) \<and>
         (\<forall>k. k \<notin> set (getAllLabSubjects st) \<longrightarrow>
              map_of (f_lab_teachers (sync_effect st)) k = None \<and>
              map_of (f_lab_rooms (sync_effect st)) k = None)"
proof -
  from session_keys_match [OF assms]
  have keys: "set (object_keys (f_teachers (fr_state r))) = set (getAllSubjects (fr_state r)) \<and>
         set (object_keys (f_lab_teachers (fr_state r))) = set (getAllLabSubjects (fr_state r)) \<and>
         set (object_keys (f_lab_rooms (fr_state r))) = set (getAllLabSubjects (fr_state r))"
    by (simp add: keys_match_def)
  have fresh: "(\<forall>k. k \<in> set (getAllSubjects st) \<and> js_get (f_teachers st) k = Undefined \<longrightarrow>
              (\<exists>m \<ge> next_oid st.
                 map_of (f_teachers (sync_effect st)) k = Some \<lparr>oid = m, elems = [[]]\<rparr>)) \<and>
         (\<forall>k. k \<in> set (getAllLabSubjects st) \<and> js_get (f_lab_teachers st) k = Undefined \<longrightarrow>
              (\<exists>m \<ge> next_oid st.
                 map_of (f_lab_teachers (sync_effect st)) k = Some \<lparr>oid = m, elems = [[]]\<rparr>)) \<and>
         (\<forall>k. k \<in> set (getAllLabSubjects st) \<and> js_get (f_lab_rooms st) k = Undefined \<longrightarrow>
              (\<exists>m \<ge> next_oid st.
                 map_of (f_lab_rooms (sync_effect st)) k = Some \<lparr>oid = m, elems = []\<rparr>))"
    using sync_fresh [of _ st] by blast
  have gone: "(\<forall>k. k \<notin> set (getAllSubjects st) \<longrightarrow> map_of (f_teachers (sync_effect st)) k = None) \<and>
         (\<forall>k. k \<notin> set (getAllLabSubjects st) \<longrightarrow>
              map_of (f_lab_teachers (sync_effect st)) k = None \<and>
              map_of (f_lab_rooms (sync_effect st)) k = None)"
    using sync_removes [of _ st] by blast
  from keys canonical_sets_characterised [of st] fresh gone show ?thesis
    by blast
qed

text \<open>
  The session of the scenario ends with Maths as the only key; and when History is
  renamed to Physics the effect drops History and gives Physics a placeholder.
\<close>

theorem maths_session_keys_example:
  "form_session \<lparr>initialData = None\<rparr> maths_session =
     Inr \<lparr>fr_state = initial_inputData
            \<lparr>f_classes := [empty_class\<lparr>c_subjects := [''Maths'']\<rparr>],
             f_teachers := [(''Maths'', \<lparr>oid = 3, elems = [''Dr.X'']\<rparr>)],
             next_oid := 4\<rparr>,
           fr_onInputChange_calls = []\<rparr> \<and>
   set (object_keys [(''Maths'', \<lparr>oid = 3, elems = [''Dr.X'']\<rparr>)]) =
     set (getAllSubjects (initial_inputData
            \<lparr>f_classes := [empty_class\<lparr>c_subjects := [''Maths'']\<rparr>],
             f_teachers := [(''Maths'', \<lparr>oid = 3, elems = [''Dr.X'']\<rparr>)],
             next_oid := 4\<rparr>)) \<and>
   map_of (f_teachers (sync_effect renamed_subject)) ''History'' = None \<and>
   (\<exists>m \<ge> 4. map_of (f_teachers (sync_effect renamed_subject)) ''Physics'' =
      Some \<lparr>oid = m, elems = [[]]\<rparr>)"
proof -
  note run = maths_session_result [of "\<lparr>initialData = None\<rparr>"]
  note inst = session_keys_are_canonical [OF run, of renamed_subject]
  have subjects: "getAllSubjects renamed_subject = [''Maths'', ''Physics'']"
    by (simp add: renamed_subject_def initial_inputData_def empty_class_def
        getAllSubjects_def set_add_def trim_def is_ws_def)
  have missing: "js_get (f_teachers renamed_subject) ''Physics'' = Undefined"
    by (simp add: renamed_subject_def initial_inputData_def js_get_def object_prototype_keys_def)
  have n: "next_oid renamed_subject = 4"
    by (simp add: renamed_subject_def initial_inputData_def)
  from inst have "set (object_keys (f_teachers (initial_inputData
            \<lparr>f_classes := [empty_class\<lparr>c_subjects := [''Maths'']\<rparr>],
             f_teachers := [(''Maths'', \<lparr>oid = 3, elems = [''Dr.X'']\<rparr>)],
             next_oid := 4\<rparr>))) =
     set (getAllSubjects (initial_inputData
            \<lparr>f_classes := [empty_class\<lparr>c_subjects := [''Maths'']\<rparr>],
             f_teachers := [(''Maths'', \<lparr>oid = 3, elems = [''Dr.X'']\<rparr>)],
             next_oid := 4\<rparr>))"
    by simp
  then have a: "set (object_keys [(''Maths'', \<lparr>oid = 3, elems = [''Dr.X'']\<rparr>)]) =
     set (getAllSubjects (initial_inputData
            \<lparr>f_classes := [empty_class\<lparr>c_subjects := [''Maths'']\<rparr>],
             f_teachers := [(''Maths'', \<lparr>oid = 3, elems = [''Dr.X'']\<rparr>)],
             next_oid := 4\<rparr>))"
    by (simp add: initial_inputData_def)
  from inst have "''History'' \<notin> set (getAllSubjects renamed_subject) \<longrightarrow>
      map_of (f_teachers (sync_effect renamed_subject)) ''History'' = None"
    by blast
  with subjects have b: "map_of (f_teachers (sync_effect renamed_subject)) ''History'' = None"
    by simp
  from inst have "''Physics'' \<in> set (getAllSubjects renamed_subject) \<and>
      js_get (f_teachers renamed_subject) ''Physics'' = Undefined \<longrightarrow>
      (\<exists>m \<ge> next_oid renamed_subject. map_of (f_teachers (sync_effect renamed_subject)) ''Physics'' =
        Some \<lparr>oid = m, elems = [[]]\<rparr>)"
    by blast
  with subjects missing n have c: "\<exists>m \<ge> 4. map_of (f_teachers (sync_effect renamed_subject)) ''Physics'' =
      Some \<lparr>oid = m, elems = [[]]\<rparr>"
    by simp
  from run a b c show ?thesis by blast
qed

text \<open>
  The renaming of the scenario: Maths keeps its array, with its identity and its teacher.
\<close>

theorem renamed_subject_keeps_teacher_example:
  "sync_effect (sync_effect renamed_subject) = sync_effect renamed_subject \<and>
   map_of (f_teachers renamed_subject) ''Maths'' = Some \<lparr>oid = 3, elems = [''Dr.X'']\<rparr> \<and>
   ''Maths'' \<in> set (object_keys (f_teachers (sync_effect renamed_subject))) \<and>
   map_of (f_teachers (sync_effect renamed_subject)) ''Maths'' = Some \<lparr>oid = 3, elems = [''Dr.X'']\<rparr>"
proof -
  have before: "map_of (f_teachers renamed_subject) ''Maths'' = Some \<lparr>oid = 3, elems = [''Dr.X'']\<rparr>"
    by (simp add: renamed_subject_def initial_inputData_def)
  have after: "''Maths'' \<in> set (object_keys (f_teachers (sync_effect renamed_subject)))"
    by (simp add: renamed_subject_synced object_keys_def)
  from sync_idempotent_and_value_preserving [of renamed_subject] before after
  show ?thesis by blast
qed

text \<open>
  A subject named like an inherited member never reaches the effect: the render that
  follows the edit reads \<^verbatim>\<open>inputData.teachers[subject]\<close>, gets the inherited function, and
  throws. On such a state the effect alone would leave the subject without a key.
\<close>

lemma inherited_name_crashes_render:
  "form_session props [AddSubjectToClass 0 False, UpdateClassSubject 0 0 ''constructor'' False] =
     Inl TypeError"
  by (simp add: form_session_def mounted_form form_step_def offered_def
      apply_event_def changes_classes_def render_ok_def sync_effect_def
      getAllSubjects_def getAllLabSubjects_def getAllTeachers_def add_teacher_names_def
      set_add_def trim_def is_ws_def
      add_missing_roster_def add_missing_lab_def remove_stale_def object_keys_def
      js_get_def js_truthy_def readable_def object_prototype_keys_def
      lab_panel_shown_def named_labs_def subjects_of_def
      addSubjectToClass_def updateClassSubject_def
      update_subjects_def map_at_def
      initial_inputData_def empty_class_def Let_def)

lemma effect_skips_inherited_name:
  "getAllSubjects (initial_inputData\<lparr>f_classes := [empty_class\<lparr>c_subjects := [''constructor'']\<rparr>]\<rparr>) =
     [''constructor''] \<and>
   f_teachers (sync_effect
     (initial_inputData\<lparr>f_classes := [empty_class\<lparr>c_subjects := [''constructor'']\<rparr>]\<rparr>)) = []"
  by (simp add: sync_effect_def initial_inputData_def empty_class_def
      getAllSubjects_def getAllLabSubjects_def set_add_def trim_def is_ws_def
      add_missing_roster_def add_missing_lab_def remove_stale_def object_keys_def
      js_get_def js_truthy_def object_prototype_keys_def Let_def)

subsection \<open>The form and its parent\<close>

lemma form_step_props: "form_step props st ev = form_step props' st ev"
  by (simp add: form_step_def)

lemma form_run_props: "form_run props r evs = form_run props' r evs"
proof (induction evs arbitrary: r)
  case Nil
  then show ?case by simp
next
  case (Cons ev evs)
  show ?case
    by (simp add: form_step_props [of props _ ev props'] Cons.IH split: sum.splits)
qed

lemma form_session_props: "form_session props evs = form_session props' evs"
  by (simp add: form_session_def mounted_form form_run_props [of props _ evs props'])

lemma form_step_calls: "form_step props st ev = Inr r \<Longrightarrow> fr_onInputChange_calls r = []"
  by (auto simp: form_step_def Let_def split: if_splits sum.splits)

lemma form_run_calls:
  "fr_onInputChange_calls r0 = [] \<Longrightarrow> form_run props r0 evs = Inr r \<Longrightarrow>
   fr_onInputChange_calls r = []"
proof (induction evs arbitrary: r0)
  case Nil
  then show ?case by simp
next
  case (Cons ev evs)
  from Cons.prems(2) obtain r1 where step: "form_step props (fr_state r0) ev = Inr r1"
    and rest: "form_run props
        (r1\<lparr>fr_onInputChange_calls := fr_onInputChange_calls r0 @ fr_onInputChange_calls r1\<rparr>) evs = Inr r"
    by (auto split: sum.splits)
  from form_step_calls [OF step] Cons.prems(1)
  have "fr_onInputChange_calls
          (r1\<lparr>fr_onInputChange_calls := fr_onInputChange_calls r0 @ fr_onInputChange_calls r1\<rparr>) = []"
    by simp
  from Cons.IH [OF this rest] show ?case .
qed

lemma app_form_step_frame:
  assumes "app_form_step (app, form) ev = Inr s"
  shows "fst s = app \<and> form_step props form ev = Inr \<lparr>fr_state = snd s, fr_onInputChange_calls = []\<rparr>"
proof -
  from assms obtain r where step: "form_step (form_props_of app) form ev = Inr r"
    and s: "s = (foldl (\<lambda>a d. handleInputDataChange (Some d) a) app (fr_onInputChange_calls r), fr_state r)"
    by (auto simp: app_form_step_def split: if_splits sum.splits)
  from form_step_calls [OF step] have calls: "fr_onInputChange_calls r = []" .
  with s have "fst s = app" and "r = \<lparr>fr_state = snd s, fr_onInputChange_calls = []\<rparr>"
    by simp_all
  with step form_step_props [of props form ev "form_props_of app"] show ?thesis
    by simp
qed

lemma app_form_run_frame:
  "app_form_run (app, form) evs = Inr s \<Longrightarrow> fst s = app"
proof (induction evs arbitrary: form)
  case Nil
  then show ?case by auto
next
  case (Cons ev evs)
  from Cons.prems obtain s1 where step: "app_form_step (app, form) ev = Inr s1"
    and rest: "app_form_run s1 evs = Inr s"
    by (auto split: sum.splits)
  from app_form_step_frame [OF step] have "s1 = (app, snd s1)"
    by (cases s1) simp
  with rest Cons.IH [of "snd s1"] show ?case by simp
qed

lemma app_form_run_same_form:
  "app_form_run (app, form) evs = Inr s \<Longrightarrow> app_form_run (app', form) evs = Inr s' \<Longrightarrow>
   snd s' = snd s"
proof (induction evs arbitrary: form)
  case Nil
  then show ?case by auto
next
  case (Cons ev evs)
  from Cons.prems(1) obtain s1 where step: "app_form_step (app, form) ev = Inr s1"
    and rest: "app_form_run s1 evs = Inr s"
    by (auto split: sum.splits)
  from Cons.prems(2) obtain s1' where step': "app_form_step (app', form) ev = Inr s1'"
    and rest': "app_form_run s1' evs = Inr s'"
    by (auto split: sum.splits)
  from app_form_step_frame [OF step, of "form_props_of app"]
    app_form_step_frame [OF step', of "form_props_of app"]
  have "s1 = (app, snd s1)" and "s1' = (app', snd s1)"
    by (cases s1; cases s1'; simp)+
  with rest rest' Cons.IH [of "snd s1"] show ?case by simp
qed

text \<open>
  Claim C10. The form reads neither of its props: a session gives the same result under
  any two values of the props, starting from the same mounted state, and no event makes
  the form call \<^verbatim>\<open>onInputChange\<close>. Under the parent, a session of the form leaves the
  parent's state, and so the configuration passed to generation, as it was; and the state
  the form ends in is the same whatever configuration the parent holds.
\<close>

theorem form_ignores_props_and_never_calls_parent:
  assumes "form_session props evs = Inr r"
    and "app_form_run (app, form) evs = Inr s"
    and "app_form_run (app', form) evs = Inr s'"
  shows "form_session props' evs = Inr r \<and>
         form_mount props' = form_mount props \<and>
         fr_onInputChange_calls r = [] \<and>
         fst s = app \<and> a_inputData (fst s) = a_inputData app \<and>
         snd s' = snd s"
proof -
  have same: "form_session props' evs = Inr r"
    using assms(1) form_session_props [of props' evs props] by simp
  have mount: "form_mount props' = form_mount props"
    by (simp add: mounted_form)
  from assms(1) have "form_run props \<lparr>fr_state = initial_inputData, fr_onInputChange_calls = []\<rparr> evs = Inr r"
    by (simp add: form_session_def mounted_form)
  from form_run_calls [OF _ this] have calls: "fr_onInputChange_calls r = []"
    by simp
  from app_form_run_frame [OF assms(2)] have frame: "fst s = app" .
  from app_form_run_same_form [OF assms(2) assms(3)] have form: "snd s' = snd s" .
  from same mount calls frame form show ?thesis by simp
qed

text \<open>
  The session of the scenario, under a parent that holds an imported configuration and
  under one that holds none.
\<close>

theorem maths_session_under_parent_example:
  "form_session \<lparr>initialData = Some cs_config\<rparr> maths_session =
     form_session \<lparr>initialData = None\<rparr> maths_session \<and>
   app_form_run (fst (import_config (Parsed (Some cs_config)) initial_app), initial_inputData)
       maths_session =
     Inr (fst (import_config (Parsed (Some cs_config)) initial_app),
          initial_inputData
            \<lparr>f_classes := [empty_class\<lparr>c_subjects := [''Maths'']\<rparr>],
             f_teachers := [(''Maths'', \<lparr>oid = 3, elems = [''Dr.X'']\<rparr>)],
             next_oid := 4\<rparr>) \<and>
   a_inputData (fst (import_config (Parsed (Some cs_config)) initial_app)) = Some cs_config \<and>
   app_form_run (initial_app, initial_inputData) maths_session =
     Inr (initial_app,
          initial_inputData
            \<lparr>f_classes := [empty_class\<lparr>c_subjects := [''Maths'']\<rparr>],
             f_teachers := [(''Maths'', \<lparr>oid = 3, elems = [''Dr.X'']\<rparr>)],
             next_oid := 4\<rparr>)"
proof -
  let ?app = "fst (import_config (Parsed (Some cs_config)) initial_app)"
  let ?final = "initial_inputData
            \<lparr>f_classes := [empty_class\<lparr>c_subjects := [''Maths'']\<rparr>],
             f_teachers := [(''Maths'', \<lparr>oid = 3, elems = [''Dr.X'']\<rparr>)],
             next_oid := 4\<rparr>"
  have step: "currentStep ?app = InputStep" and cfg: "a_inputData ?app = Some cs_config"
    by (simp_all add: import_config_def handleInputDataChange_def Let_def)
  have lift: "form_run p \<lparr>fr_state = f, fr_onInputChange_calls = []\<rparr> es = Inr r \<Longrightarrow>
      currentStep a = InputStep \<Longrightarrow> app_form_run (a, f) es = Inr (a, fr_state r)" for p f es r a
  proof (induction es arbitrary: f)
    case Nil
    then show ?case by auto
  next
    case (Cons e es)
    from Cons.prems(1) obtain r1 where st: "form_step p f e = Inr r1"
      and rest: "form_run p (r1\<lparr>fr_onInputChange_calls := [] @ fr_onInputChange_calls r1\<rparr>) es = Inr r"
      by (auto split: sum.splits)
    from form_step_calls [OF st] have c: "fr_onInputChange_calls r1 = []" .
    then have r1: "r1\<lparr>fr_onInputChange_calls := [] @ fr_onInputChange_calls r1\<rparr> =
        \<lparr>fr_state = fr_state r1, fr_onInputChange_calls = []\<rparr>"
      by simp
    from st c Cons.prems(2) form_step_props [of "form_props_of a" f e p]
    have "app_form_step (a, f) e = Inr (a, fr_state r1)"
      by (simp add: app_form_step_def)
    with Cons.IH [OF rest [unfolded r1] Cons.prems(2)] show ?case by simp
  qed
  from maths_session_result [of "\<lparr>initialData = None\<rparr>"]
  have run: "form_run \<lparr>initialData = None\<rparr> \<lparr>fr_state = initial_inputData, fr_onInputChange_calls = []\<rparr>
      maths_session = Inr \<lparr>fr_state = ?final, fr_onInputChange_calls = []\<rparr>"
    by (simp add: form_session_def mounted_form)
  from lift [OF run step] have under: "app_form_run (?app, initial_inputData) maths_session = Inr (?app, ?final)"
    by simp
  have "currentStep initial_app = InputStep"
    by (simp add: initial_app_def)
  from lift [OF run this] have plain: "app_form_run (initial_app, initial_inputData) maths_session =
      Inr (initial_app, ?final)"
    by simp
  from form_ignores_props_and_never_calls_parent
    [OF maths_session_result [of "\<lparr>initialData = None\<rparr>"] under plain,
     of "\<lparr>initialData = Some cs_config\<rparr>"]
  have "form_session \<lparr>initialData = Some cs_config\<rparr> maths_session =
     form_session \<lparr>initialData = None\<rparr> maths_session"
    using maths_session_result [of "\<lparr>initialData = None\<rparr>"] by simp
  with under cfg plain show ?thesis by blast
qed

subsection \<open>Sessions that enter no inherited name do not fail\<close>

lemma in_map_at: "x \<in> set (map_at i f xs) \<Longrightarrow> x \<in> set xs \<or> (i < length xs \<and> x = f (xs ! i))"
proof (cases "i < length xs")
  case True
  assume "x \<in> set (map_at i f xs)"
  with True have "x \<in> set (xs[i := f (xs ! i)])" by (simp add: map_at_def)
  with set_update_subset_insert [of xs i "f (xs ! i)"] True show ?thesis by auto
next
  case False
  assume "x \<in> set (map_at i f xs)"
  with False show ?thesis by (simp add: map_at_def)
qed

lemma in_remove_nth: "x \<in> set (remove_nth i xs) \<Longrightarrow> x \<in> set xs"
  by (auto simp: remove_nth_def dest: in_set_takeD in_set_dropD)

lemma trim_empty: "trim [] = []"
  by (simp add: trim_def)

lemma plain_state_iff:
  "plain_state st \<longleftrightarrow>
     (\<forall>s \<in> set (getAllSubjects st) \<union> set (getAllLabSubjects st) \<union> set (getAllTeachers st).
        s \<notin> set object_prototype_keys)"
  by (auto simp: plain_state_def list_all_iff)

lemma plain_state_renders: "plain_state st \<Longrightarrow> render_ok st"
  by (auto simp: plain_state_iff render_ok_def list_all_iff readable_iff)

lemma teacher_names_step:
  "n \<in> set (foldl (\<lambda>acc teacher. if trim teacher \<noteq> [] then set_add acc (trim teacher) else acc) acc l) \<longleftrightarrow>
   n \<in> set acc \<or> (\<exists>t \<in> set l. trim t \<noteq> [] \<and> n = trim t)"
  by (induction l arbitrary: acc) (auto simp: set_add_def)

lemma teacher_names_lists:
  "n \<in> set (foldl add_teacher_names acc ls) \<longleftrightarrow>
   n \<in> set acc \<or> (\<exists>l \<in> set ls. \<exists>t \<in> set l. trim t \<noteq> [] \<and> n = trim t)"
proof (induction ls arbitrary: acc)
  case Nil
  then show ?case by simp
next
  case (Cons l ls)
  show ?case
    unfolding foldl_Cons Cons.IH
    by (auto simp: add_teacher_names_def teacher_names_step)
qed

lemma getAllTeachers_iff:
  "n \<in> set (getAllTeachers st) \<longleftrightarrow>
     (\<exists>kv \<in> set (f_teachers st) \<union> set (f_lab_teachers st).
        \<exists>t \<in> set (elems (snd kv)). trim t \<noteq> [] \<and> n = trim t)"
  unfolding getAllTeachers_def teacher_names_lists
  by auto

lemma in_update: "x \<in> set (AList.update k v al) \<Longrightarrow> x \<in> set al \<or> x = (k, v)"
  by (induction al) (auto split: if_splits)

lemma add_roster_entries:
  "kv \<in> set (snd (fold add_missing_roster ss p)) \<Longrightarrow> kv \<in> set (snd p) \<or> elems (snd kv) = [[]]"
proof (induction ss arbitrary: p)
  case Nil
  then show ?case by simp
next
  case (Cons s ss)
  from Cons.prems have "kv \<in> set (snd (fold add_missing_roster ss (add_missing_roster s p)))"
    by simp
  from Cons.IH [OF this] show ?case
    by (cases p) (auto simp: add_missing_roster_def split: if_splits dest: in_update)
qed

lemma add_lab_entries:
  "kv \<in> set (fst (snd (fold add_missing_lab ss p))) \<Longrightarrow>
     kv \<in> set (fst (snd p)) \<or> elems (snd kv) = [[]]"
proof (induction ss arbitrary: p)
  case Nil
  then show ?case by simp
next
  case (Cons s ss)
  from Cons.prems have "kv \<in> set (fst (snd (fold add_missing_lab ss (add_missing_lab s p))))"
    by simp
  from Cons.IH [OF this] show ?case
    by (cases p)
      (auto simp: add_missing_lab_def add_missing_roster_def split: if_splits prod.splits
        dest: in_update)
qed

lemma sync_teacher_entries:
  "kv \<in> set (f_teachers (sync_effect st)) \<Longrightarrow> kv \<in> set (f_teachers st) \<or> elems (snd kv) = [[]]"
  "kv \<in> set (f_lab_teachers (sync_effect st)) \<Longrightarrow>
     kv \<in> set (f_lab_teachers st) \<or> elems (snd kv) = [[]]"
proof -
  assume "kv \<in> set (f_teachers (sync_effect st))"
  then have "kv \<in> set (snd (fold add_missing_roster (getAllSubjects st) (next_oid st, f_teachers st)))"
    unfolding sync_teachers_eq by simp
  from add_roster_entries [OF this] show "kv \<in> set (f_teachers st) \<or> elems (snd kv) = [[]]"
    by simp
next
  assume "kv \<in> set (f_lab_teachers (sync_effect st))"
  then have "kv \<in> set (fst (snd (fold add_missing_lab (getAllLabSubjects st)
          (fst (fold add_missing_roster (getAllSubjects st) (next_oid st, f_teachers st)),
           f_lab_teachers st, f_lab_rooms st))))"
    unfolding sync_lab_teachers_eq by simp
  from add_lab_entries [OF this] show "kv \<in> set (f_lab_teachers st) \<or> elems (snd kv) = [[]]"
    by simp
qed

lemma sync_teacher_names:
  "n \<in> set (getAllTeachers (sync_effect st)) \<Longrightarrow> n \<in> set (getAllTeachers st)"
proof -
  assume "n \<in> set (getAllTeachers (sync_effect st))"
  then obtain kv t where kv: "kv \<in> set (f_teachers (sync_effect st)) \<or> kv \<in> set (f_lab_teachers (sync_effect st))"
    and t: "t \<in> set (elems (snd kv))" and nb: "trim t \<noteq> []" and n: "n = trim t"
    unfolding getAllTeachers_iff by auto
  from t nb have "elems (snd kv) \<noteq> [[]]"
    by (auto simp: trim_empty)
  with kv sync_teacher_entries [of kv st]
  have "kv \<in> set (f_teachers st) \<or> kv \<in> set (f_lab_teachers st)"
    by blast
  with t nb n show ?thesis
    unfolding getAllTeachers_iff by auto
qed

lemma plain_state_sync: "plain_state st \<Longrightarrow> plain_state (sync_effect st)"
  unfolding plain_state_iff using sync_teacher_names [of _ st] by auto

lemma class_event_subject:
  assumes "changes_classes ev" and "apply_event ev st = Inr st1"
    and "c' \<in> set (f_classes st1)" and "s \<in> set (c_subjects c') \<or> s \<in> set (c_lab_subjects c')"
  shows "(\<exists>c \<in> set (f_classes st). s \<in> set (c_subjects c) \<or> s \<in> set (c_lab_subjects c)) \<or>
         s = [] \<or> (\<exists>i j isLab. ev = UpdateClassSubject i j s isLab)"
proof (cases ev)
  case AddClass
  with assms show ?thesis
    by (auto simp: apply_event_def addClass_def empty_class_def)
next
  case (RemoveClass i)
  with assms have "c' \<in> set (remove_nth i (f_classes st))"
    by (auto simp: apply_event_def removeClass_def)
  from in_remove_nth [OF this] assms(4) show ?thesis
    by auto
next
  case (UpdateClass i v)
  with assms have "c' \<in> set (map_at i (\<lambda>classItem. classItem\<lparr>c_name := v\<rparr>) (f_classes st))"
    by (auto simp: apply_event_def updateClass_def)
  from in_map_at [OF this] assms(4) show ?thesis
    by (auto intro: nth_mem)
next
  case (AddSubjectToClass i isLab)
  with assms have "c' \<in> set (map_at i (update_subjects isLab (\<lambda>subjects. subjects @ [[]])) (f_classes st))"
    by (auto simp: apply_event_def addSubjectToClass_def)
  from in_map_at [OF this] assms(4) show ?thesis
    by (auto simp: update_subjects_def split: if_splits intro: nth_mem)
next
  case (UpdateClassSubject i j v isLab)
  with assms have "c' \<in> set (map_at i (update_subjects isLab (map_at j (\<lambda>subject. v))) (f_classes st))"
    by (auto simp: apply_event_def updateClassSubject_def)
  from in_map_at [OF this] assms(4) UpdateClassSubject show ?thesis
    by (auto simp: update_subjects_def split: if_splits dest!: in_map_at intro: nth_mem)
next
  case (RemoveSubjectFromClass i j isLab)
  with assms have "c' \<in> set (map_at i (update_subjects isLab (remove_nth j)) (f_classes st))"
    by (auto simp: apply_event_def removeSubjectFromClass_def)
  from in_map_at [OF this] assms(4) show ?thesis
    by (auto simp: update_subjects_def split: if_splits dest!: in_remove_nth intro: nth_mem)
next
  case (AddSectionToClass i)
  with assms have "c' \<in> set (map_at i
      (\<lambda>classItem. classItem\<lparr>c_sections := c_sections classItem @ [\<lparr>s_name = [], s_student_count = 0\<rparr>]\<rparr>)
      (f_classes st))"
    by (auto simp: apply_event_def addSectionToClass_def)
  from in_map_at [OF this] assms(4) show ?thesis
    by (auto intro: nth_mem)
next
  case (UpdateSection i j field)
  with assms have "c' \<in> set (map_at i
      (\<lambda>classItem. classItem\<lparr>c_sections := map_at j (set_section_field field) (c_sections classItem)\<rparr>)
      (f_classes st))"
    by (auto simp: apply_event_def updateSection_def)
  from in_map_at [OF this] assms(4) show ?thesis
    by (auto intro: nth_mem)
next
  case (RemoveSectionFromClass i j)
  with assms have "c' \<in> set (map_at i
      (\<lambda>classItem. classItem\<lparr>c_sections := remove_nth j (c_sections classItem)\<rparr>)
      (f_classes st))"
    by (auto simp: apply_event_def removeSectionFromClass_def)
  from in_map_at [OF this] assms(4) show ?thesis
    by (auto intro: nth_mem)
qed (use assms(1) in \<open>simp_all add: changes_classes_def\<close>)

lemma teachers_cong:
  "f_teachers st1 = f_teachers st \<Longrightarrow> f_lab_teachers st1 = f_lab_teachers st \<Longrightarrow>
   getAllTeachers st1 = getAllTeachers st"
  by (simp add: getAllTeachers_def)

lemma canonical_member:
  "s \<in> set (getAllSubjects st) \<longleftrightarrow>
     (\<exists>c \<in> set (f_classes st). s \<in> set (c_subjects c)) \<and> trim s \<noteq> []"
  "s \<in> set (getAllLabSubjects st) \<longleftrightarrow>
     (\<exists>c \<in> set (f_classes st). s \<in> set (c_lab_subjects c)) \<and> trim s \<noteq> []"
  unfolding getAllSubjects_def getAllLabSubjects_def
  by (auto simp: collect_set)

lemma subject_is_canonical:
  assumes "c \<in> set (f_classes st)" and "s \<in> set (c_subjects c) \<or> s \<in> set (c_lab_subjects c)"
    and "trim s \<noteq> []"
  shows "s \<in> set (getAllSubjects st) \<or> s \<in> set (getAllLabSubjects st)"
  using assms unfolding canonical_member by blast

lemma class_event_plain:
  assumes cl: "changes_classes ev" and ap: "apply_event ev st = Inr st1"
    and names: "plain_names ev" and plain: "plain_state st"
  shows "plain_state st1"
proof -
  from class_edit_keeps_maps [OF cl ap] have same: "getAllTeachers st1 = getAllTeachers st"
    by (intro teachers_cong) simp_all
  have subj: "s \<notin> set object_prototype_keys"
    if "s \<in> set (getAllSubjects st1) \<or> s \<in> set (getAllLabSubjects st1)" for s
  proof -
    from that obtain c' where c': "c' \<in> set (f_classes st1)"
      and s: "s \<in> set (c_subjects c') \<or> s \<in> set (c_lab_subjects c')" and nb: "trim s \<noteq> []"
      unfolding canonical_member by blast
    from class_event_subject [OF cl ap c' s]
    consider (old) c where "c \<in> set (f_classes st)"
        "s \<in> set (c_subjects c) \<or> s \<in> set (c_lab_subjects c)"
      | (blank) "s = []"
      | (typed) i j isLab where "ev = UpdateClassSubject i j s isLab"
      by blast
    then show ?thesis
    proof cases
      case old
      from subject_is_canonical [OF old nb] plain show ?thesis
        unfolding plain_state_iff by blast
    next
      case blank
      with nb show ?thesis by (simp add: trim_empty)
    next
      case typed
      with names show ?thesis by (simp add: plain_names_def)
    qed
  qed
  from plain have "\<forall>n \<in> set (getAllTeachers st). n \<notin> set object_prototype_keys"
    unfolding plain_state_iff by blast
  with same subj show ?thesis
    unfolding plain_state_iff by (metis Un_iff)
qed

lemma own_entry: "js_get obj k = Own a \<Longrightarrow> (k, a) \<in> set obj"
  by (auto simp: js_get_def split: option.splits if_splits dest: map_of_SomeD)

lemma store_teachers_names:
  assumes n: "n \<in> set (getAllTeachers (store_teachers isLab subject xs st))"
  shows "n \<in> set (getAllTeachers st) \<or> (\<exists>t \<in> set xs. trim t \<noteq> [] \<and> n = trim t)"
proof -
  from n obtain kv t where kv: "kv \<in> set (f_teachers (store_teachers isLab subject xs st)) \<or>
        kv \<in> set (f_lab_teachers (store_teachers isLab subject xs st))"
    and t: "t \<in> set (elems (snd kv))" and nb: "trim t \<noteq> []" and nt: "n = trim t"
    unfolding getAllTeachers_iff by auto
  from kv have "kv \<in> set (f_teachers st) \<or> kv \<in> set (f_lab_teachers st) \<or> elems (snd kv) = xs"
    by (auto simp: store_teachers_def roster_def Let_def split: if_splits dest!: in_update)
  with t nb nt show ?thesis
    unfolding getAllTeachers_iff by auto
qed

lemma roster_name:
  assumes "(k, a) \<in> set (roster isLab st)" and "t \<in> set (elems a)" and "trim t \<noteq> []"
  shows "trim t \<in> set (getAllTeachers st)"
proof -
  from assms(1) have "(k, a) \<in> set (f_teachers st) \<union> set (f_lab_teachers st)"
    by (auto simp: roster_def split: if_splits)
  with assms(2,3) show ?thesis
    unfolding getAllTeachers_iff by force
qed

lemma store_known_names:
  assumes xs: "\<forall>t \<in> set xs. trim t = [] \<or> trim t \<in> set (getAllTeachers st) \<or> trim t \<in> N"
    and n: "n \<in> set (getAllTeachers (store_teachers isLab subject xs st))"
  shows "n \<in> set (getAllTeachers st) \<or> n \<in> N"
  using store_teachers_names [OF n] xs by auto

lemma other_event_plain:
  assumes other: "\<not> changes_classes ev" and ap: "apply_event ev st = Inr st1"
    and names: "plain_names ev" and plain: "plain_state st"
  shows "plain_state st1"
proof -
  have classes: "f_classes st1 = f_classes st"
    using other ap
    by (cases ev)
      (auto simp: changes_classes_def apply_event_def
        addRoom_def updateRoom_def removeRoom_def update_rooms_keeps
        toggleLabRoomAssignment_def selectAllLabRooms_def clearAllLabRooms_def store_lab_rooms_def
        addTimeSlot_def updateTimeSlot_def removeTimeSlot_def update_day_def
        addTeacher_def updateTeacher_def removeTeacher_def store_teachers_def Let_def
        addTeacherUnavailability_def updateTeacherUnavailability_def
        removeTeacherUnavailability_def removeTeacherFromUnavailability_def
        updateNestedState_def set_lab_capacity_def set_lecture_requirement_def
        generateTimetable_placeholder_def split: js_lookup.splits if_splits)
  have rosters: "f_teachers st1 = f_teachers st \<and> f_lab_teachers st1 = f_lab_teachers st"
    if "\<forall>s b. ev \<noteq> AddTeacher s b" and "\<forall>s i v b. ev \<noteq> UpdateTeacher s i v b"
      and "\<forall>s i b. ev \<noteq> RemoveTeacher s i b"
    using other ap that
    by (cases ev)
      (auto simp: changes_classes_def apply_event_def
        addRoom_def updateRoom_def removeRoom_def update_rooms_keeps
        toggleLabRoomAssignment_def selectAllLabRooms_def clearAllLabRooms_def store_lab_rooms_def
        addTimeSlot_def updateTimeSlot_def removeTimeSlot_def update_day_def
        addTeacherUnavailability_def updateTeacherUnavailability_def
        removeTeacherUnavailability_def removeTeacherFromUnavailability_def
        updateNestedState_def set_lab_capacity_def set_lecture_requirement_def
        generateTimetable_placeholder_def split: js_lookup.splits)
  have teachers: "n \<notin> set object_prototype_keys" if n: "n \<in> set (getAllTeachers st1)" for n
  proof (cases ev)
    case (AddTeacher subject isLab)
    with ap consider (own) a where "js_get (roster isLab st) subject = Own a"
        "st1 = store_teachers isLab subject (elems a @ [[]]) st"
      | (undef) "st1 = store_teachers isLab subject [[]] st"
      by (auto simp: apply_event_def addTeacher_def split: js_lookup.splits)
    then have "n \<in> set (getAllTeachers st) \<or> n \<in> {}"
    proof cases
      case own
      from own_entry [OF own(1)] have "\<forall>t \<in> set (elems a @ [[]]).
          trim t = [] \<or> trim t \<in> set (getAllTeachers st) \<or> trim t \<in> {}"
        by (auto simp: trim_empty dest: roster_name)
      from store_known_names [OF this n [unfolded own(2)]] show ?thesis .
    next
      case undef
      have "\<forall>t \<in> set [[]]. trim t = [] \<or> trim t \<in> set (getAllTeachers st) \<or> trim t \<in> {}"
        by (simp add: trim_empty)
      from store_known_names [OF this n [unfolded undef]] show ?thesis .
    qed
    with plain show ?thesis by (auto simp: plain_state_iff)
  next
    case (UpdateTeacher subject i v isLab)
    with ap obtain a where own: "js_get (roster isLab st) subject = Own a"
      and st1: "st1 = store_teachers isLab subject (map_at i (\<lambda>teacher. v) (elems a)) st"
      by (auto simp: apply_event_def updateTeacher_def split: js_lookup.splits)
    from own_entry [OF own] have "\<forall>t \<in> set (map_at i (\<lambda>teacher. v) (elems a)).
        trim t = [] \<or> trim t \<in> set (getAllTeachers st) \<or> trim t \<in> {trim v}"
      by (auto dest!: in_map_at dest: roster_name)
    from store_known_names [OF this n [unfolded st1]]
    have "n \<in> set (getAllTeachers st) \<or> n = trim v" by simp
    with plain names UpdateTeacher show ?thesis
      by (auto simp: plain_state_iff plain_names_def)
  next
    case (RemoveTeacher subject i isLab)
    with ap obtain a where own: "js_get (roster isLab st) subject = Own a"
      and st1: "st1 = store_teachers isLab subject (remove_nth i (elems a)) st"
      by (auto simp: apply_event_def removeTeacher_def split: js_lookup.splits)
    from own_entry [OF own] have "\<forall>t \<in> set (remove_nth i (elems a)).
        trim t = [] \<or> trim t \<in> set (getAllTeachers st) \<or> trim t \<in> {}"
      by (auto dest!: in_remove_nth dest: roster_name)
    from store_known_names [OF this n [unfolded st1]]
    have "n \<in> set (getAllTeachers st)" by simp
    with plain show ?thesis by (auto simp: plain_state_iff)
  qed (use other rosters teachers_cong [of st1 st] n plain in
      \<open>auto simp: changes_classes_def plain_state_iff\<close>)
  from classes canonical_cong [of st1 st] teachers plain show ?thesis
    unfolding plain_state_iff by auto
qed

lemma key_is_own: "k \<in> fst ` set obj \<Longrightarrow> \<exists>a. js_get obj k = Own a"
proof -
  assume "k \<in> fst ` set obj"
  then have "map_of obj k \<noteq> None" by (simp add: map_of_eq_None_iff)
  then show ?thesis by (auto simp: js_get_def)
qed

lemma handler_succeeds:
  assumes km: "keys_match st" and ok: "render_ok st" and off: "offered st ev"
  shows "\<exists>st1. apply_event ev st = Inr st1"
proof (cases ev)
  case (ToggleLabRoomAssignment labSubject labRoom)
  with off have "labSubject \<in> set (getAllLabSubjects st)" by (simp add: offered_def)
  from key_is_own [OF lab_subject_is_key [OF km this]] ToggleLabRoomAssignment show ?thesis
    by (auto simp: apply_event_def toggleLabRoomAssignment_def)
next
  case (AddTeacher subject isLab)
  with off have "subject \<in> set (canonical isLab st)" by (simp add: offered_def)
  from key_is_own [OF canonical_is_key [OF km this]] AddTeacher show ?thesis
    by (auto simp: apply_event_def addTeacher_def)
next
  case (UpdateTeacher subject i v isLab)
  with off have "subject \<in> set (canonical isLab st)" by (simp add: offered_def)
  from key_is_own [OF canonical_is_key [OF km this]] UpdateTeacher show ?thesis
    by (auto simp: apply_event_def updateTeacher_def)
next
  case (RemoveTeacher subject i isLab)
  with off have "subject \<in> set (canonical isLab st)" by (simp add: offered_def)
  from key_is_own [OF canonical_is_key [OF km this]] RemoveTeacher show ?thesis
    by (auto simp: apply_event_def removeTeacher_def)
next
  case (AddTeacherUnavailability t)
  with off have "t \<in> set (getAllTeachers st)" by (simp add: offered_def)
  with ok have "readable (f_teacher_unavailability st) t"
    by (simp add: render_ok_def list_all_iff)
  with AddTeacherUnavailability show ?thesis
    by (auto simp: apply_event_def addTeacherUnavailability_def readable_def split: js_lookup.splits)
next
  case (UpdateTeacherUnavailability t i field)
  with off have "i < length (own_or [] (f_teacher_unavailability st) t)" by (simp add: offered_def)
  then obtain us where "map_of (f_teacher_unavailability st) t = Some us"
    by (cases "map_of (f_teacher_unavailability st) t") (auto simp: own_or_def)
  with UpdateTeacherUnavailability show ?thesis
    by (auto simp: apply_event_def updateTeacherUnavailability_def js_get_def)
next
  case (RemoveTeacherUnavailability t i)
  with off have "i < length (own_or [] (f_teacher_unavailability st) t)" by (simp add: offered_def)
  then obtain us where "map_of (f_teacher_unavailability st) t = Some us"
    by (cases "map_of (f_teacher_unavailability st) t") (auto simp: own_or_def)
  with RemoveTeacherUnavailability show ?thesis
    by (auto simp: apply_event_def removeTeacherUnavailability_def js_get_def)
qed (simp_all add: apply_event_def)

lemma plain_step:
  assumes inv: "keys_match st \<and> no_inherited_names (f_lab_teachers st)"
    and plain: "plain_state st" and names: "plain_names ev" and off: "offered st ev"
  shows "\<exists>r. form_step props st ev = Inr r \<and> plain_state (fr_state r)"
proof -
  from inv have km: "keys_match st" by simp
  from handler_succeeds [OF km plain_state_renders [OF plain] off]
  obtain st1 where ap: "apply_event ev st = Inr st1" by blast
  show ?thesis
  proof (cases "changes_classes ev")
    case True
    from class_event_plain [OF True ap names plain] have p1: "plain_state st1" .
    from plain_state_sync [OF p1] have p2: "plain_state (sync_effect st1)" .
    from off ap True plain_state_renders [OF p1] plain_state_renders [OF p2] p2
    show ?thesis
      by (simp add: form_step_def Let_def)
  next
    case False
    from other_event_plain [OF False ap names plain] have p1: "plain_state st1" .
    from off ap False plain_state_renders [OF p1] p1
    show ?thesis
      by (simp add: form_step_def)
  qed
qed

lemma plain_run:
  "keys_match (fr_state r0) \<and> no_inherited_names (f_lab_teachers (fr_state r0)) \<Longrightarrow>
   plain_state (fr_state r0) \<Longrightarrow> list_all plain_names evs \<Longrightarrow>
   form_run props r0 evs \<noteq> Inl TypeError"
proof (induction evs arbitrary: r0)
  case Nil
  then show ?case by simp
next
  case (Cons ev evs)
  show ?case
  proof (cases "offered (fr_state r0) ev")
    case False
    then show ?thesis by (simp add: form_step_def)
  next
    case True
    from Cons.prems(3) have names: "plain_names ev" and rest: "list_all plain_names evs"
      by simp_all
    from plain_step [OF Cons.prems(1,2) names True, of props]
    obtain r1 where step: "form_step props (fr_state r0) ev = Inr r1"
      and p1: "plain_state (fr_state r1)"
      by blast
    from form_step_keeps_invariant [OF Cons.prems(1) step]
    have inv1: "keys_match (fr_state r1) \<and> no_inherited_names (f_lab_teachers (fr_state r1))" .
    let ?r = "r1\<lparr>fr_onInputChange_calls := fr_onInputChange_calls r0 @ fr_onInputChange_calls r1\<rparr>"
    from inv1 p1 have "keys_match (fr_state ?r) \<and> no_inherited_names (f_lab_teachers (fr_state ?r))"
      and "plain_state (fr_state ?r)"
      by simp_all
    from Cons.IH [OF this rest] step show ?thesis
      by simp
  qed
qed

text \<open>
  A session in which no subject and no teacher is named like an inherited member never
  throws: it can only stop at an event that the form does not offer.
\<close>

lemma session_without_inherited_names_does_not_throw:
  assumes "list_all plain_names evs"
  shows "form_session props evs \<noteq> Inl TypeError"
proof -
  have "keys_match initial_inputData \<and> no_inherited_names (f_lab_teachers initial_inputData)"
    and "plain_state initial_inputData"
    by (simp_all add: keys_match_def no_inherited_names_def plain_state_def object_keys_def
        getAllSubjects_def getAllLabSubjects_def getAllTeachers_def initial_inputData_def
        empty_class_def)
  with plain_run [of "\<lparr>fr_state = initial_inputData, fr_onInputChange_calls = []\<rparr>" evs props] assms
  show ?thesis
    by (simp add: form_session_def mounted_form)
qed

end
